(* ===== verification/Prelude.thy ===== *)
theory Prelude
  imports Main "HOL-Library.Code_Target_Nat" "HOL-Library.Char_ord" "HOL-Library.List_Lexorder" "HOL-Library.Product_Lexorder"
begin

text \<open>
  Shared vocabulary of the development: the collections of simplification rules the component
  theories fill (\<open>go_simps\<close> for the Go standard library, \<open>db_simps\<close> for the storage layer), the
  type names the components share, Go's 64-bit integers, and the generic list lemmas that more
  than one component uses, among them the in-place slice compaction of the synchronisation
  services.
\<close>

named_theorems go_simps \<open>evaluation rules of the Go standard library functions\<close>
named_theorems db_simps \<open>characterisation of the storage operations\<close>

subsection \<open>Types\<close>

text \<open>A Go string or byte slice is a list of bytes.\<close>

type_synonym bytes = string

text \<open>
  An instant (\<^verbatim>\<open>time.Time\<close> read as an instant) is its distance to the Unix epoch in nanoseconds; a
  \<^verbatim>\<open>time.Duration\<close> is a number of nanoseconds.
\<close>

type_synonym time = int
type_synonym duration = int

subsection \<open>Outcomes of Go code\<close>

text \<open>
  Go code returns a value, returns an error, or panics. A panic is not an error value: no
  \<^verbatim>\<open>if err != nil\<close> sees it, so it has a constructor of its own.
\<close>

datatype ('e, 'a) outcome = Ok 'a | Err 'e | Panic string

fun map_outcome_value :: "('a \<Rightarrow> 'b) \<Rightarrow> ('e, 'a) outcome \<Rightarrow> ('e, 'b) outcome" where
  "map_outcome_value f (Ok x) = Ok (f x)"
| "map_outcome_value f (Err e) = Err e"
| "map_outcome_value f (Panic m) = Panic m"

lemma map_outcome_value_Ok_iff [simp]:
  "map_outcome_value f r = Ok y \<longleftrightarrow> (\<exists>x. r = Ok x \<and> y = f x)"
  by (cases r) auto

fun is_Ok :: "('e, 'a) outcome \<Rightarrow> bool" where
  "is_Ok (Ok _) = True"
| "is_Ok _ = False"

fun the_Ok :: "('e, 'a) outcome \<Rightarrow> 'a" where
  "the_Ok (Ok x) = x"

lemma is_Ok_result: "is_Ok (fst p) \<Longrightarrow> p = (Ok (the_Ok (fst p)), snd p)"
  by (cases p; cases "fst p") auto

text \<open>
  One step after another, with the early return of \<^verbatim>\<open>if err != nil\<close>; \<open>wrap_err f\<close> is the early return
  with the error wrapped.
\<close>

fun obind :: "('e, 'a) outcome \<Rightarrow> ('a \<Rightarrow> ('e, 'b) outcome) \<Rightarrow> ('e, 'b) outcome" where
  "obind (Ok x) f = f x"
| "obind (Err e) f = Err e"
| "obind (Panic m) f = Panic m"

fun wrap_err :: "('e \<Rightarrow> 'e) \<Rightarrow> 'e + 'a \<Rightarrow> ('e, 'a) outcome" where
  "wrap_err f (Inl e) = Err (f e)"
| "wrap_err f (Inr x) = Ok x"

lemma obind_Ok_iff [simp]: "obind m f = Ok y \<longleftrightarrow> (\<exists>x. m = Ok x \<and> f x = Ok y)"
  by (cases m) auto

lemma obind_Panic_iff: "obind m f = Panic p \<longleftrightarrow> m = Panic p \<or> (\<exists>x. m = Ok x \<and> f x = Panic p)"
  by (cases m) auto

lemma wrap_err_iff [simp]:
  "wrap_err f r = Ok x \<longleftrightarrow> r = Inr x" "wrap_err f r \<noteq> Panic p" "wrap_err f r = Err e \<longleftrightarrow> (\<exists>d. r = Inl d \<and> e = f d)"
  by (cases r; auto)+

subsection \<open>64-bit integers\<close>

definition int64_min :: int where "int64_min = - (2 ^ 63)"
definition int64_max :: int where "int64_max = 2 ^ 63 - 1"

definition in_int64 :: "int \<Rightarrow> bool" where
  "in_int64 i \<longleftrightarrow> int64_min \<le> i \<and> i \<le> int64_max"

text \<open>Conversion to \<^verbatim>\<open>int64\<close>: two's complement wrap-around.\<close>

definition wrap64 :: "int \<Rightarrow> int" where
  "wrap64 i = (i + 2 ^ 63) mod 2 ^ 64 - 2 ^ 63"

lemma wrap64_in: "in_int64 (wrap64 i)"
proof -
  have "0 \<le> (i + 2 ^ 63) mod 2 ^ 64" and "(i + 2 ^ 63) mod 2 ^ 64 < 2 ^ 64" by simp_all
  then show ?thesis by (simp add: in_int64_def int64_min_def int64_max_def wrap64_def)
qed

lemma wrap64_id: "in_int64 i \<Longrightarrow> wrap64 i = i"
  by (simp add: in_int64_def int64_min_def int64_max_def wrap64_def)

text \<open>Go's quotient of two integers is rounded towards zero.\<close>

definition go_quot :: "int \<Rightarrow> int \<Rightarrow> int" where
  "go_quot n d =
     (let q = abs n div abs d in if (n < 0) = (d < 0) then q else - q)"

lemma int_div_less_iff:
  assumes "0 < (b::int)"
  shows "a div b < k \<longleftrightarrow> a < k * b"
proof
  assume "a div b < k"
  then have "(a div b + 1) * b \<le> k * b" using assms by (intro mult_right_mono) auto
  moreover have "a = a div b * b + a mod b" by simp
  moreover have "a mod b < b" using assms by simp
  ultimately show "a < k * b" by (simp only: distrib_right)
next
  assume "a < k * b"
  moreover have "a = a div b * b + a mod b" and "0 \<le> a mod b" using assms by simp_all
  ultimately have "a div b * b < k * b" by linarith
  then show "a div b < k" using assms by simp
qed

lemma abs_go_quot_less:
  assumes "0 < d" and "0 < k"
  shows "\<bar>go_quot n d\<bar> < k \<longleftrightarrow> \<bar>n\<bar> < k * d"
proof -
  have "0 \<le> \<bar>n\<bar> div d" using assms(1) by (simp add: pos_imp_zdiv_nonneg_iff)
  then have "\<bar>go_quot n d\<bar> = \<bar>n\<bar> div d" using assms(1) by (simp add: go_quot_def Let_def)
  moreover have "\<bar>n\<bar> div d < k \<longleftrightarrow> \<bar>n\<bar> < k * d"
    using assms(1) by (rule int_div_less_iff)
  ultimately show ?thesis by simp
qed

subsection \<open>In-place compaction of a slice\<close>

text \<open>
  The loop
  \<^verbatim>\<open>
    var n int
    for _, item := range xs { if drop(item) { continue }; xs[n] = item; n++ }
  \<close>
  works on the backing array \<open>arr\<close>; \<open>i\<close> is the position of the range clause and \<open>n\<close> the write
  position. \<open>compact\<close> returns the array after the loop and the final \<open>n\<close>.
\<close>

function compact_loop :: "('a \<Rightarrow> bool) \<Rightarrow> 'a list \<Rightarrow> nat \<Rightarrow> nat \<Rightarrow> 'a list \<times> nat" where
  "compact_loop del arr i n =
     (if i < length arr
      then if del (arr ! i) then compact_loop del arr (Suc i) n
           else compact_loop del (arr[n := arr ! i]) (Suc i) (Suc n)
      else (arr, n))"
  by pat_completeness auto
termination
  by (relation "measure (\<lambda>(del, arr, i, n). length arr - i)") auto

declare compact_loop.simps [simp del]

definition compact :: "('a \<Rightarrow> bool) \<Rightarrow> 'a list \<Rightarrow> 'a list \<times> nat" where
  "compact del arr = compact_loop del arr 0 0"

lemma compact_loop_spec:
  assumes "n \<le> i" and "i \<le> length arr" and "compact_loop del arr i n = (arr', n')"
  shows "length arr' = length arr \<and> n \<le> n' \<and> n' \<le> length arr
    \<and> take n' arr' = take n arr @ filter (\<lambda>x. \<not> del x) (drop i arr)
    \<and> (\<forall>j. n' \<le> j \<longrightarrow> j < length arr \<longrightarrow> arr' ! j = arr ! j)"
  using assms
proof (induction del arr i n arbitrary: arr' n' rule: compact_loop.induct)
  case (1 del arr i n)
  show ?case
  proof (cases "i < length arr")
    case False
    then have "compact_loop del arr i n = (arr, n)" by (simp add: compact_loop.simps [of del arr i n])
    with False "1.prems" show ?thesis by auto
  next
    case less: True
    have drop: "drop i arr = arr ! i # drop (Suc i) arr" using less by (simp add: Cons_nth_drop_Suc)
    show ?thesis
    proof (cases "del (arr ! i)")
      case True
      with less "1.prems" "1.IH"(1) [of arr' n'] show ?thesis
        by (simp add: compact_loop.simps [of del arr i n] drop)
    next
      case False
      let ?arr = "arr[n := arr ! i]"
      have rec: "compact_loop del ?arr (Suc i) (Suc n) = (arr', n')"
        using less False "1.prems" by (simp add: compact_loop.simps [of del arr i n])
      have ih: "length arr' = length ?arr \<and> Suc n \<le> n' \<and> n' \<le> length ?arr
        \<and> take n' arr' = take (Suc n) ?arr @ filter (\<lambda>x. \<not> del x) (drop (Suc i) ?arr)
        \<and> (\<forall>j. n' \<le> j \<longrightarrow> j < length ?arr \<longrightarrow> arr' ! j = ?arr ! j)"
        by (rule "1.IH"(2)) (use less False "1.prems" rec in auto)
      have "take (Suc n) ?arr = take n arr @ [arr ! i]"
        using less "1.prems" by (simp add: take_Suc_conv_app_nth)
      moreover have "drop (Suc i) ?arr = drop (Suc i) arr"
        using "1.prems" by simp
      ultimately show ?thesis using ih False by (auto simp: drop nth_list_update)
    qed
  qed
qed

lemma compact_take:
  "compact del arr = (arr', n) \<Longrightarrow> take n arr' = filter (\<lambda>x. \<not> del x) arr"
  using compact_loop_spec [of 0 0 arr del arr' n] by (simp add: compact_def)

text \<open>
  What the backing array still shows beyond the kept prefix: when the slice had an element at
  position \<open>k\<close> and \<open>k\<close> is the last position, it reads as before the loop.
\<close>

lemma compact_last:
  assumes "compact del arr = (arr', n)" and "arr \<noteq> []"
  shows "arr' ! (length arr - 1) = arr ! (length arr - 1)"
proof -
  have spec: "length arr' = length arr \<and> n \<le> length arr
      \<and> take n arr' = filter (\<lambda>x. \<not> del x) arr
      \<and> (\<forall>j. n \<le> j \<longrightarrow> j < length arr \<longrightarrow> arr' ! j = arr ! j)"
    using compact_loop_spec [of 0 0 arr del arr' n] assms(1) by (simp add: compact_def)
  show ?thesis
  proof (cases "n = length arr")
    case True
    with spec have "length (filter (\<lambda>x. \<not> del x) arr) = length arr"
      by (metis take_all order_refl)
    then have "filter (\<lambda>x. \<not> del x) arr = arr"
      by (metis length_filter_less filter_True nat_neq_iff)
    with spec True have "take (length arr') arr' = arr" by metis
    then show ?thesis by simp
  next
    case False
    with spec assms(2) show ?thesis
      by (metis diff_less diff_Suc_1 le_neq_implies_less length_greater_0_conv
          less_Suc_eq_le less_imp_Suc_add zero_less_Suc Suc_pred)
  qed
qed

subsection \<open>Lists and pairs\<close>

lemma pair_fst_eq: "fst p = a \<Longrightarrow> p = (a, snd p)"
  by (cases p) simp

lemma sorted_rev_take_least:
  assumes "sorted (rev (map f xs))" and "x \<in> set (take n xs)" and "y \<in> set (drop n xs)"
  shows "f y \<le> (f x :: 'k::linorder)"
proof -
  have "sorted (rev (map f (take n xs @ drop n xs)))" using assms(1) by simp
  then have "sorted (rev (map f (drop n xs)) @ rev (map f (take n xs)))"
    by (metis map_append rev_append)
  then show ?thesis using assms(2,3) by (auto simp: sorted_append)
qed

lemma finite_distinct_list_key:
  "inj_on k A \<Longrightarrow> set xs \<subseteq> A \<Longrightarrow> distinct xs \<Longrightarrow> distinct (map k xs)"
  by (simp add: distinct_map inj_on_subset)

end
