(* ===== verification/Go_Std.thy ===== *)
theory Go_Std
  imports Prelude
begin

text \<open>
  What the program uses of the Go standard library: \<^verbatim>\<open>strconv\<close> (decimal printing and parsing of
  64-bit integers), \<^verbatim>\<open>strings.Split\<close>/\<^verbatim>\<open>Join\<close>, \<^verbatim>\<open>encoding/hex\<close>, \<^verbatim>\<open>encoding/base64\<close> and the
  conversions of \<^verbatim>\<open>time\<close>. Each encoder has its round trip with the decoder. The decoders are those
  of the library: base64 skips carriage returns and newlines and wants padding exactly at the end,
  hex takes both cases, \<^verbatim>\<open>ParseInt\<close> takes an optional sign and refuses values outside 64 bits.
\<close>

subsection \<open>Decimal integers\<close>

definition digit_char :: "nat \<Rightarrow> char" where
  "digit_char d = char_of (48 + d)"

definition digit_val :: "char \<Rightarrow> nat option" where
  "digit_val c = (let n = of_char c :: nat in if 48 \<le> n \<and> n \<le> 57 then Some (n - 48) else None)"

fun dec_digits :: "nat \<Rightarrow> string" where
  "dec_digits n = (if n < 10 then [digit_char n] else dec_digits (n div 10) @ [digit_char (n mod 10)])"

declare dec_digits.simps [simp del]

text \<open>\<open>fmt.Sprintf("%d", i)\<close>.\<close>

definition itoa :: "int \<Rightarrow> string" where
  "itoa i = (if i < 0 then CHR ''-'' # dec_digits (nat (- i)) else dec_digits (nat i))"

fun parse_digits :: "nat \<Rightarrow> string \<Rightarrow> nat option" where
  "parse_digits acc [] = Some acc"
| "parse_digits acc (c # cs) =
     (case digit_val c of None \<Rightarrow> None | Some d \<Rightarrow> parse_digits (10 * acc + d) cs)"

definition parse_uint :: "string \<Rightarrow> nat option" where
  "parse_uint s = (if s = [] then None else parse_digits 0 s)"

text \<open>\<open>strconv.ParseInt(s, 10, 64)\<close>, and \<open>strconv.Atoi\<close> on a 64-bit platform.\<close>

definition parse_int :: "string \<Rightarrow> int option" where
  "parse_int s =
     (case s of
        [] \<Rightarrow> None
      | c # cs \<Rightarrow>
          (let neg = (c = CHR ''-''); ds = (if c = CHR ''-'' \<or> c = CHR ''+'' then cs else s)
           in case parse_uint ds of
                None \<Rightarrow> None
              | Some n \<Rightarrow>
                  (let i = (if neg then - int n else int n)
                   in if in_int64 i then Some i else None)))"

lemma digit_val_digit_char: "d < 10 \<Longrightarrow> digit_val (digit_char d) = Some d"
  by (simp add: digit_val_def digit_char_def of_char_of)

lemma parse_digits_append:
  "parse_digits acc (xs @ ys) =
     (case parse_digits acc xs of None \<Rightarrow> None | Some a \<Rightarrow> parse_digits a ys)"
  by (induction acc xs rule: parse_digits.induct) (auto split: option.splits)

lemma parse_digits_dec_digits: "parse_digits 0 (dec_digits n) = Some n"
proof (induction n rule: dec_digits.induct)
  case (1 n)
  show ?case
  proof (cases "n < 10")
    case True
    then show ?thesis by (simp add: dec_digits.simps [of n] digit_val_digit_char)
  next
    case False
    with 1 show ?thesis
      by (simp add: dec_digits.simps [of n] digit_val_digit_char parse_digits_append)
  qed
qed

lemma dec_digits_nonempty: "dec_digits n \<noteq> []"
  by (simp add: dec_digits.simps [of n])

lemma digit_char_noteq: "d < 10 \<Longrightarrow> digit_char d \<noteq> CHR ''-'' \<and> digit_char d \<noteq> CHR ''+'' \<and> digit_char d \<noteq> CHR '':''"
proof -
  assume "d < 10"
  then have "digit_val (digit_char d) = Some d" by (rule digit_val_digit_char)
  moreover have "digit_val CHR ''-'' = None" and "digit_val CHR ''+'' = None"
    and "digit_val CHR '':'' = None" by (simp_all add: digit_val_def)
  ultimately show ?thesis by auto
qed

lemma set_dec_digits: "set (dec_digits n) \<subseteq> digit_char ` {0..<10}"
proof (induction n rule: dec_digits.induct)
  case (1 n)
  then show ?case by (cases "n < 10") (auto simp: dec_digits.simps [of n])
qed

lemma dec_digits_no_special:
  "c \<in> set (dec_digits n) \<Longrightarrow> c \<noteq> CHR ''-'' \<and> c \<noteq> CHR ''+'' \<and> c \<noteq> CHR '':''"
  using set_dec_digits digit_char_noteq by fastforce

lemma itoa_no_colon: "CHR '':'' \<notin> set (itoa i)"
  using dec_digits_no_special by (auto simp: itoa_def)

lemma parse_int_itoa [go_simps]:
  assumes "in_int64 i"
  shows "parse_int (itoa i) = Some i"
proof (cases "i < 0")
  case True
  then show ?thesis
    using assms by (simp add: parse_int_def itoa_def parse_uint_def dec_digits_nonempty parse_digits_dec_digits)
next
  case False
  obtain c cs where ds: "dec_digits (nat i) = c # cs"
    using dec_digits_nonempty by (cases "dec_digits (nat i)") auto
  then have "c \<noteq> CHR ''-'' \<and> c \<noteq> CHR ''+''"
    using dec_digits_no_special [of c "nat i"] by simp
  moreover have "parse_uint (c # cs) = Some (nat i)"
    using parse_digits_dec_digits [of "nat i"] ds by (simp add: parse_uint_def)
  ultimately show ?thesis
    using assms False by (simp add: parse_int_def itoa_def ds)
qed

lemma parse_int_in_int64: "parse_int s = Some i \<Longrightarrow> in_int64 i"
  by (auto simp: parse_int_def Let_def split: list.splits option.splits if_splits)

subsection \<open>Splitting and joining\<close>

text \<open>\<open>strings.Split(s, sep)\<close> for a separator of one byte: never the empty slice.\<close>

fun split_on :: "char \<Rightarrow> string \<Rightarrow> string list" where
  "split_on sep [] = [[]]"
| "split_on sep (c # cs) =
     (if c = sep then [] # split_on sep cs
      else case split_on sep cs of p # ps \<Rightarrow> (c # p) # ps | [] \<Rightarrow> [[c]])"

fun join_with :: "char \<Rightarrow> string list \<Rightarrow> string" where
  "join_with sep [] = []"
| "join_with sep [p] = p"
| "join_with sep (p # ps) = p @ sep # join_with sep ps"

lemma split_on_nonempty [simp]: "split_on sep s \<noteq> []"
  by (induction s) (auto split: list.splits)

lemma split_on_no_sep: "sep \<notin> set s \<Longrightarrow> split_on sep s = [s]"
  by (induction s) auto

lemma split_on_append:
  "sep \<notin> set p \<Longrightarrow> split_on sep (p @ sep # s) = p # split_on sep s"
  by (induction p) auto

lemma split_on_join_with [go_simps]:
  "ps \<noteq> [] \<Longrightarrow> (\<forall>p \<in> set ps. sep \<notin> set p) \<Longrightarrow> split_on sep (join_with sep ps) = ps"
  by (induction sep ps rule: join_with.induct) (auto simp: split_on_append split_on_no_sep)

lemma join_with_split_on: "join_with sep (split_on sep s) = s"
proof (induction s)
  case (Cons c cs)
  then show ?case by (cases "split_on sep cs"; cases "tl (split_on sep cs)") auto
qed simp

lemma split_on_no_sep_inside: "p \<in> set (split_on sep s) \<Longrightarrow> sep \<notin> set p"
  by (induction s arbitrary: p) (auto split: list.splits if_splits)

subsection \<open>Hexadecimal\<close>

definition hex_char :: "nat \<Rightarrow> char" where
  "hex_char n = ''0123456789abcdef'' ! n"

definition hex_val :: "char \<Rightarrow> nat option" where
  "hex_val c =
     (let n = of_char c :: nat
      in if 48 \<le> n \<and> n \<le> 57 then Some (n - 48)
         else if 97 \<le> n \<and> n \<le> 102 then Some (n - 87)
         else if 65 \<le> n \<and> n \<le> 70 then Some (n - 55)
         else None)"

text \<open>\<open>hex.EncodeToString(b)\<close>, and \<open>fmt.Sprintf("%x", b)\<close>.\<close>

fun hex_encode :: "bytes \<Rightarrow> string" where
  "hex_encode [] = []"
| "hex_encode (b # bs) =
     hex_char (of_char b div 16) # hex_char (of_char b mod 16) # hex_encode bs"

text \<open>\<open>hex.DecodeString(s)\<close>: an odd length or a foreign character is an error.\<close>

fun hex_decode :: "string \<Rightarrow> bytes option" where
  "hex_decode [] = Some []"
| "hex_decode [_] = None"
| "hex_decode (h # l # cs) =
     (case (hex_val h, hex_val l) of
        (Some x, Some y) \<Rightarrow> map_option (\<lambda>bs. char_of (16 * x + y) # bs) (hex_decode cs)
      | _ \<Rightarrow> None)"

lemma high_nibble [simp]: "of_char (c :: char) div 16 < (16 :: nat)"
  by (rule less_mult_imp_div_less) simp

lemma hex_val_hex_char: "n < 16 \<Longrightarrow> hex_val (hex_char n) = Some n"
proof -
  have "\<forall>n \<in> set [0..<16]. hex_val (hex_char n) = Some n" by code_simp
  then show "n < 16 \<Longrightarrow> hex_val (hex_char n) = Some n" by simp
qed

lemma hex_decode_encode [go_simps]: "hex_decode (hex_encode bs) = Some bs"
proof (induction bs)
  case (Cons b bs)
  then show ?case by (simp add: hex_val_hex_char)
qed simp

lemma length_hex_encode [simp]: "length (hex_encode bs) = 2 * length bs"
  by (induction bs) auto

lemma hex_encode_append: "hex_encode (xs @ ys) = hex_encode xs @ hex_encode ys"
  by (induction xs) auto

lemma hex_encode_no_colon: "CHR '':'' \<notin> set (hex_encode bs)"
proof (induction bs)
  case (Cons b bs)
  have "\<forall>n \<in> set [0..<16]. hex_char n \<noteq> CHR '':''" by code_simp
  then have "hex_char n \<noteq> CHR '':''" if "n < 16" for n using that by simp
  from this [of "of_char b div 16"] this [of "of_char b mod 16"] show ?case using Cons by auto
qed simp

lemma hex_decode_length: "hex_decode s = Some bs \<Longrightarrow> length s = 2 * length bs"
  by (induction s arbitrary: bs rule: hex_decode.induct) (auto split: option.splits)

subsection \<open>Base64\<close>

definition std_alphabet :: string where
  "std_alphabet = ''ABCDEFGHIJKLMNOPQRSTUVWXYZabcdefghijklmnopqrstuvwxyz0123456789+/''"

definition url_alphabet :: string where
  "url_alphabet = ''ABCDEFGHIJKLMNOPQRSTUVWXYZabcdefghijklmnopqrstuvwxyz0123456789-_''"

fun index_of :: "'a list \<Rightarrow> 'a \<Rightarrow> nat option" where
  "index_of [] x = None"
| "index_of (y # ys) x = (if x = y then Some 0 else map_option Suc (index_of ys x))"

text \<open>\<open>EncodeToString\<close> of an alphabet \<open>ab\<close>, with padding or without (the \<^verbatim>\<open>Raw\<close> encodings).\<close>

fun b64_encode :: "string \<Rightarrow> bool \<Rightarrow> bytes \<Rightarrow> string" where
  "b64_encode ab pad [] = []"
| "b64_encode ab pad [a] =
     (let v = of_char a * 65536
      in [ab ! (v div 262144), ab ! (v div 4096 mod 64)] @ (if pad then ''=='' else []))"
| "b64_encode ab pad [a, b] =
     (let v = of_char a * 65536 + of_char b * 256
      in [ab ! (v div 262144), ab ! (v div 4096 mod 64), ab ! (v div 64 mod 64)]
         @ (if pad then ''='' else []))"
| "b64_encode ab pad (a # b # c # bs) =
     (let v = of_char a * 65536 + of_char b * 256 + of_char c
      in [ab ! (v div 262144), ab ! (v div 4096 mod 64), ab ! (v div 64 mod 64), ab ! (v mod 64)]
         @ b64_encode ab pad bs)"

text \<open>
  \<open>DecodeString\<close> of a padded encoding. Newlines and carriage returns are skipped, padding is
  accepted in the last group only, and the bits that padding leaves over are not checked.
\<close>

fun b64_quanta :: "string \<Rightarrow> string \<Rightarrow> bytes option" where
  "b64_quanta ab [] = Some []"
| "b64_quanta ab (p # q # r # s # cs) =
     (case (index_of ab p, index_of ab q) of
        (Some x, Some y) \<Rightarrow>
          (case index_of ab r of
             Some z \<Rightarrow>
               (case index_of ab s of
                  Some w \<Rightarrow>
                    (let v = x * 262144 + y * 4096 + z * 64 + w
                     in map_option (\<lambda>bs. char_of (v div 65536) # char_of (v div 256 mod 256)
                                        # char_of (v mod 256) # bs) (b64_quanta ab cs))
                | None \<Rightarrow>
                    (if s = CHR ''='' \<and> cs = []
                     then let v = x * 262144 + y * 4096 + z * 64
                          in Some [char_of (v div 65536), char_of (v div 256 mod 256)]
                     else None))
           | None \<Rightarrow>
               (if r = CHR ''='' \<and> s = CHR ''='' \<and> cs = []
                then let v = x * 262144 + y * 4096 in Some [char_of (v div 65536)]
                else None))
      | _ \<Rightarrow> None)"
| "b64_quanta ab _ = None"

definition newline_char :: "char \<Rightarrow> bool" where
  "newline_char c \<longleftrightarrow> c = CHR 0x0A \<or> c = CHR 0x0D"

definition b64_decode :: "string \<Rightarrow> string \<Rightarrow> bytes option" where
  "b64_decode ab s = b64_quanta ab (filter (\<lambda>c. \<not> newline_char c) s)"

definition b64_alphabet :: "string \<Rightarrow> bool" where
  "b64_alphabet ab \<longleftrightarrow>
     length ab = 64 \<and> distinct ab \<and> CHR ''='' \<notin> set ab \<and> (\<forall>c \<in> set ab. \<not> newline_char c)"

lemma b64_alphabet_std: "b64_alphabet std_alphabet"
  by (simp add: b64_alphabet_def std_alphabet_def newline_char_def)

lemma b64_alphabet_url: "b64_alphabet url_alphabet"
  by (simp add: b64_alphabet_def url_alphabet_def newline_char_def)

lemma index_of_nth: "distinct xs \<Longrightarrow> n < length xs \<Longrightarrow> index_of xs (xs ! n) = Some n"
proof (induction xs arbitrary: n)
  case (Cons x xs)
  then show ?case by (cases n) auto
qed simp

lemma index_of_None: "x \<notin> set xs \<Longrightarrow> index_of xs x = None"
  by (induction xs) auto

lemma b64_index_nth: "b64_alphabet ab \<Longrightarrow> n < 64 \<Longrightarrow> index_of ab (ab ! n) = Some n"
  by (simp add: b64_alphabet_def index_of_nth)

lemma b64_index_pad: "b64_alphabet ab \<Longrightarrow> index_of ab CHR ''='' = None"
  by (simp add: b64_alphabet_def index_of_None)

text \<open>Three bytes make a 24-bit value, four sextets make it again.\<close>

lemma sextets_of_value:
  "v div 262144 * 262144 + v div 4096 mod 64 * 4096 + v div 64 mod 64 * 64 + v mod 64 = (v :: nat)"
proof -
  have "v div 4096 = v div 64 div 64" and "v div 262144 = v div 4096 div 64"
    by (simp_all flip: div_mult2_eq)
  moreover have "v = v div 64 * 64 + v mod 64"
    and "v div 64 = v div 64 div 64 * 64 + v div 64 mod 64"
    and "v div 4096 = v div 4096 div 64 * 64 + v div 4096 mod 64" by (simp_all only: div_mult_mod_eq)
  ultimately show ?thesis by linarith
qed

lemma b64_value_bounds:
  fixes a b c :: nat
  assumes "a < 256" "b < 256" "c < 256"
  shows "(a * 65536 + b * 256 + c) div 262144 < 64"
    and "(a * 65536 + b * 256 + c) div 65536 = a"
    and "(a * 65536 + b * 256 + c) div 256 mod 256 = b"
    and "(a * 65536 + b * 256 + c) mod 256 = c"
proof -
  show "(a * 65536 + b * 256 + c) div 262144 < 64"
    by (rule less_mult_imp_div_less) (use assms in linarith)
  show "(a * 65536 + b * 256 + c) div 65536 = a"
    by (rule div_nat_eqI) (use assms in simp_all)
  have "(a * 65536 + b * 256 + c) div 256 = a * 256 + b"
    by (rule div_nat_eqI) (use assms in simp_all)
  then show "(a * 65536 + b * 256 + c) div 256 mod 256 = b" using assms by simp
  have "a * 65536 + b * 256 + c = (a * 256 + b) * 256 + c" by simp
  then show "(a * 65536 + b * 256 + c) mod 256 = c" using assms by (simp only: mod_mult_self3 mod_less)
qed

text \<open>The padded encodings of one and two bytes drop bits that the value has as zeros.\<close>

lemma b64_value_low:
  fixes a b :: nat
  shows "(a * 65536) div 64 mod 64 = 0" and "(a * 65536) mod 64 = 0"
    and "(a * 65536 + b * 256) mod 64 = 0"
proof -
  have "(a * 65536) div 64 = a * 16 * 64" by simp
  then show "(a * 65536) div 64 mod 64 = 0" by (simp only: mod_mult_self2_is_0)
  have "a * 65536 = a * 1024 * 64" and "a * 65536 + b * 256 = (a * 1024 + b * 4) * 64" by simp_all
  then show "(a * 65536) mod 64 = 0" and "(a * 65536 + b * 256) mod 64 = 0"
    by (simp_all only: mod_mult_self2_is_0)
qed

lemma b64_quanta_encode:
  assumes "b64_alphabet ab"
  shows "b64_quanta ab (b64_encode ab True bs) = Some bs"
  using assms
proof (induction ab True bs rule: b64_encode.induct)
  case (1 ab)
  then show ?case by simp
next
  case (2 ab a)
  let ?v = "of_char a * 65536 :: nat"
  have "?v div 262144 < 64" and "?v div 65536 = of_char a"
    using b64_value_bounds [of "of_char a" 0 0] by simp_all
  moreover have "?v div 262144 * 262144 + ?v div 4096 mod 64 * 4096 = ?v"
    using sextets_of_value [of ?v] b64_value_low(1,2) [of "of_char a"] by simp
  ultimately show ?case
    using 2 by (simp add: Let_def b64_index_nth b64_index_pad)
next
  case (3 ab a b)
  let ?v = "of_char a * 65536 + of_char b * 256 :: nat"
  have "?v div 262144 < 64" and "?v div 65536 = of_char a" and "?v div 256 mod 256 = of_char b"
    using b64_value_bounds [of "of_char a" "of_char b" 0] by simp_all
  moreover have "?v div 262144 * 262144 + ?v div 4096 mod 64 * 4096 + ?v div 64 mod 64 * 64 = ?v"
    using sextets_of_value [of ?v] b64_value_low(3) [of "of_char a" "of_char b"] by simp
  moreover have "char_of (256 * of_char a + of_char b :: nat) = b"
    by (metis char_of_mod_256 mod_mult_self4 char_of_char)
  ultimately show ?case
    using 3 by (simp add: Let_def b64_index_nth b64_index_pad)
next
  case (4 ab a b c bs)
  let ?v = "of_char a * 65536 + of_char b * 256 + of_char c :: nat"
  have "?v div 262144 < 64" and "?v div 65536 = of_char a" and "?v div 256 mod 256 = of_char b"
    and "?v mod 256 = of_char c"
    using b64_value_bounds [of "of_char a" "of_char b" "of_char c"] by simp_all
  then show ?case
    using 4 sextets_of_value [of ?v] by (simp add: Let_def b64_index_nth del: char_of_mod_256)
qed

lemma b64_encode_set:
  assumes "b64_alphabet ab"
  shows "set (b64_encode ab pad bs) \<subseteq> insert CHR ''='' (set ab)"
  using assms
proof (induction ab pad bs rule: b64_encode.induct)
  case (4 ab pad a b c bs)
  let ?v = "of_char a * 65536 + of_char b * 256 + of_char c :: nat"
  have "?v div 262144 < 64"
    using b64_value_bounds(1) [of "of_char a" "of_char b" "of_char c"] by simp
  moreover have "length ab = 64" using 4 by (simp add: b64_alphabet_def)
  ultimately show ?case using 4 by (auto simp: Let_def)
next
  case (3 ab pad a b)
  have "(of_char a * 65536 + of_char b * 256 :: nat) div 262144 < 64"
    using b64_value_bounds(1) [of "of_char a" "of_char b" 0] by simp
  moreover have "length ab = 64" using 3 by (simp add: b64_alphabet_def)
  ultimately show ?case by (auto simp: Let_def)
next
  case (2 ab pad a)
  have "(of_char a * 65536 :: nat) div 262144 < 64"
    using b64_value_bounds(1) [of "of_char a" 0 0] by simp
  moreover have "length ab = 64" using 2 by (simp add: b64_alphabet_def)
  ultimately show ?case by (auto simp: Let_def)
qed simp

lemma b64_encode_no_newline:
  assumes "b64_alphabet ab"
  shows "filter (\<lambda>c. \<not> newline_char c) (b64_encode ab pad bs) = b64_encode ab pad bs"
proof (rule filter_True)
  show "\<forall>c \<in> set (b64_encode ab pad bs). \<not> newline_char c"
    using b64_encode_set [OF assms, of pad bs] assms
    by (auto simp: b64_alphabet_def newline_char_def)
qed

lemma b64_decode_encode [go_simps]:
  "b64_alphabet ab \<Longrightarrow> b64_decode ab (b64_encode ab True bs) = Some bs"
  by (simp add: b64_decode_def b64_encode_no_newline b64_quanta_encode)

lemma b64_encode_no_colon:
  assumes "b64_alphabet ab" and "CHR '':'' \<notin> set ab"
  shows "CHR '':'' \<notin> set (b64_encode ab pad bs)"
  using b64_encode_set [OF assms(1), of pad bs] assms(2) by auto

lemma std_alphabet_no_colon: "CHR '':'' \<notin> set std_alphabet"
  by (simp add: std_alphabet_def)

subsection \<open>Time\<close>

text \<open>The zero \<^verbatim>\<open>time.Time\<close>: January 1, year 1.\<close>

definition zero_time :: time where
  "zero_time = - 62135596800000000000"

definition IsZero :: "time \<Rightarrow> bool" where
  "IsZero t \<longleftrightarrow> t = zero_time"

text \<open>\<open>t.Sub(u)\<close> saturates at the extreme durations.\<close>

definition time_Sub :: "time \<Rightarrow> time \<Rightarrow> duration" where
  "time_Sub t u =
     (let d = t - u in if d < int64_min then int64_min else if int64_max < d then int64_max else d)"

text \<open>\<open>UnixNano\<close> and \<open>UnixMilli\<close> are 64-bit; \<open>time.Unix(0, n)\<close> and \<open>time.UnixMilli\<close> are exact.\<close>

definition UnixNano :: "time \<Rightarrow> int" where "UnixNano t = wrap64 t"
definition UnixMilli :: "time \<Rightarrow> int" where "UnixMilli t = wrap64 (t div 1000000)"
definition time_Unix :: "time \<Rightarrow> int" where "time_Unix t = wrap64 (t div 1000000000)"
definition time_of_nano :: "int \<Rightarrow> time" where "time_of_nano n = n"
definition time_of_milli :: "int \<Rightarrow> time" where "time_of_milli m = m * 1000000"

definition Microseconds :: "duration \<Rightarrow> int" where "Microseconds d = go_quot d 1000"

definition hours :: "int \<Rightarrow> duration" where "hours n = n * 3600000000000"
definition microseconds :: "int \<Rightarrow> duration" where "microseconds n = n * 1000"

text \<open>\<open>time.Now\<close> returns instants of the years 1678 to 2262, where \<^verbatim>\<open>UnixNano\<close> is exact.\<close>

lemma UnixNano_exact: "in_int64 t \<Longrightarrow> UnixNano t = t"
  by (simp add: UnixNano_def wrap64_id)

lemma time_Sub_less_abs:
  assumes "0 < k" and "k < int64_max"
  shows "\<bar>time_Sub t u\<bar> < k \<longleftrightarrow> \<bar>t - u\<bar> < k"
  using assms by (auto simp: time_Sub_def Let_def int64_min_def int64_max_def)

end
