(* ===== verification/World.thy ===== *)
theory World
  imports Go_Std
begin

text \<open>
  What the program reads from and writes to outside itself, passed explicitly through every
  operation: the database handle, the clock (\<^verbatim>\<open>time.Now\<close>), the UUID generator
  (\<^verbatim>\<open>uuid.NewV4\<close>), the cryptographic random source (\<^verbatim>\<open>crypto/rand\<close>) and the seeded generator
  (\<^verbatim>\<open>math/rand\<close>). Each source is an arbitrary stream with a counter of the readings already made,
  so that two readings are two values and nothing is assumed about either. The errors of the
  server side are here as well.
\<close>

record 'db world =
  w_db :: 'db
  w_clock :: "nat \<Rightarrow> time"
  w_ticks :: nat
  w_uuid :: "nat \<Rightarrow> string"
  w_uuids :: nat
  w_rand :: "nat \<Rightarrow> nat"
  w_rands :: nat
  w_prng :: "int \<Rightarrow> nat \<Rightarrow> nat"

text \<open>\<open>time.Now()\<close>.\<close>

definition Now :: "'db world \<Rightarrow> time \<times> 'db world" where
  "Now w = (w_clock w (w_ticks w), w\<lparr>w_ticks := Suc (w_ticks w)\<rparr>)"

text \<open>\<open>uuid.Must(uuid.NewV4()).String()\<close>.\<close>

definition NewV4 :: "'db world \<Rightarrow> string \<times> 'db world" where
  "NewV4 w = (w_uuid w (w_uuids w), w\<lparr>w_uuids := Suc (w_uuids w)\<rparr>)"

text \<open>A reading of the random source by a library: a nonce or a salt.\<close>

definition Rand :: "'db world \<Rightarrow> nat \<times> 'db world" where
  "Rand w = (w_rand w (w_rands w), w\<lparr>w_rands := Suc (w_rands w)\<rparr>)"

text \<open>\<open>rand.Int(rand.Reader, max)\<close>: a value of \<open>[0, max)\<close>.\<close>

definition rand_Int :: "nat \<Rightarrow> 'db world \<Rightarrow> nat \<times> 'db world" where
  "rand_Int m w = (w_rand w (w_rands w) mod m, w\<lparr>w_rands := Suc (w_rands w)\<rparr>)"

lemma Now_db [simp]: "w_db (snd (Now w)) = w_db w" "w_clock (snd (Now w)) = w_clock w"
    "w_uuid (snd (Now w)) = w_uuid w" "w_ticks (snd (Now w)) = Suc (w_ticks w)"
    "w_uuids (snd (Now w)) = w_uuids w"
  and fst_Now [simp]: "fst (Now w) = w_clock w (w_ticks w)"
  by (simp_all add: Now_def)

lemma NewV4_db [simp]: "w_db (snd (NewV4 w)) = w_db w" "w_clock (snd (NewV4 w)) = w_clock w"
    "w_ticks (snd (NewV4 w)) = w_ticks w"
  by (simp_all add: NewV4_def)

lemma rand_Int_db [simp]: "w_db (snd (rand_Int m w)) = w_db w" "w_clock (snd (rand_Int m w)) = w_clock w"
    "w_ticks (snd (rand_Int m w)) = w_ticks w" "w_uuids (snd (rand_Int m w)) = w_uuids w"
    "w_uuid (snd (rand_Int m w)) = w_uuid w"
  by (simp_all add: rand_Int_def)

lemma Rand_db [simp]: "w_db (snd (Rand w)) = w_db w" "w_clock (snd (Rand w)) = w_clock w"
    "w_ticks (snd (Rand w)) = w_ticks w" "w_uuid (snd (Rand w)) = w_uuid w"
  by (simp_all add: Rand_def)

lemma rand_Int_less: "0 < m \<Longrightarrow> fst (rand_Int m w) < m"
  by (simp add: rand_Int_def)

text \<open>A clock that never goes back.\<close>

definition clock_mono :: "'db world \<Rightarrow> bool" where
  "clock_mono w \<longleftrightarrow> mono (w_clock w)"

subsection \<open>Errors\<close>

text \<open>
  \<open>SFError code tag message\<close> is \<^verbatim>\<open>sferror.SFError\<close>; \<open>ErrNotFound\<close> and \<open>ErrAlreadyExists\<close> are
  storm's sentinels, \<open>ErrStorm\<close> any other storage failure; \<open>ErrLib\<close> is an error of another
  library or one made from its text; \<open>HTTPError code message text\<close> is an error of the web framework with its text;
  \<open>Wrap\<close> is \<open>errors.Wrap\<close> on a non-nil error.
\<close>

datatype err =
    ErrNotFound
  | ErrAlreadyExists
  | ErrStorm string
  | ErrLib string
  | SFError int string string
  | HTTPError int string string
  | Wrap string err

text \<open>\<open>errors.Cause\<close>.\<close>

fun Cause :: "err \<Rightarrow> err" where
  "Cause (Wrap _ e) = Cause e"
| "Cause e = e"

fun err_Error :: "err \<Rightarrow> string" where
  "err_Error ErrNotFound = ''not found''"
| "err_Error ErrAlreadyExists = ''already exists''"
| "err_Error (ErrStorm m) = m"
| "err_Error (ErrLib m) = m"
| "err_Error (SFError _ _ m) = m"
| "err_Error (HTTPError _ _ t) = t"
| "err_Error (Wrap m e) = m @ '': '' @ err_Error e"

text \<open>\<open>sferror.New\<close>, \<open>sferror.NewWithTagCode\<close> and \<open>sferror.StatusCode\<close>.\<close>

definition sferror_New :: "string \<Rightarrow> err" where
  "sferror_New message = SFError 0 [] message"

definition NewWithTagCode :: "int \<Rightarrow> string \<Rightarrow> string \<Rightarrow> err" where
  "NewWithTagCode code tag message = SFError code tag message"

definition StatusExpiredAccessToken :: int where
  "StatusExpiredAccessToken = 498"

fun sferror_StatusCode :: "err \<Rightarrow> int" where
  "sferror_StatusCode (SFError code _ _) = code"
| "sferror_StatusCode _ = 500"

text \<open>
  The exit code of a command: \<^verbatim>\<open>log.Fatal\<close> on an error ends the process with 1, a panic that nobody recovers with 2.
\<close>

definition exit_code :: "(err, unit) outcome \<Rightarrow> int" where
  "exit_code r = (case r of Ok _ \<Rightarrow> 0 | Err _ \<Rightarrow> 1 | Panic _ \<Rightarrow> 2)"

end
