(* ===== verification/Libsf_Token.thy ===== *)
theory Libsf_Token
  imports World
begin

text \<open>
  \<^verbatim>\<open>pkg/libsf/token.go\<close> and \<^verbatim>\<open>pkg/libsf/version.go\<close>: the opaque cursor and sync tokens and the
  comparison of API and protocol versions.
\<close>

subsection \<open>Tokens\<close>

text \<open>
  The second component of the decoded token is read as \<open>parts[1]\<close>: with fewer than two components
  the code panics with an index out of range.
\<close>

definition TimeFromToken :: "string \<Rightarrow> 'db world \<Rightarrow> ('e, time) outcome \<times> 'db world" where
  "TimeFromToken token w =
     (case b64_decode url_alphabet token of
        None \<Rightarrow> (let (t, w') = Now w in (Ok t, w'))
      | Some raw \<Rightarrow>
          (let parts = split_on CHR '':'' raw
           in if hd parts = ''1'' then (let (t, w') = Now w in (Ok t, w'))
              else (case tl parts of
                      [] \<Rightarrow> (Panic ''index out of range'', w)
                    | part # _ \<Rightarrow>
                        (case parse_int part of
                           None \<Rightarrow> (let (t, w') = Now w in (Ok t, w'))
                         | Some timestamp \<Rightarrow> (Ok (time_of_nano timestamp), w)))))"

definition TokenFromTime :: "time \<Rightarrow> string" where
  "TokenFromTime t = b64_encode url_alphabet True (''2:'' @ itoa (UnixNano t))"

text \<open>Decoding reads no clock: the token carries its instant exactly, as a count of nanoseconds.\<close>

lemma token_round_trip:
  "TimeFromToken (TokenFromTime t) w = (Ok (UnixNano t), w)"
proof -
  have "split_on CHR '':'' (''2:'' @ itoa (UnixNano t)) = [''2'', itoa (UnixNano t)]"
    using split_on_append [of "CHR '':''" "''2''" "itoa (UnixNano t)"]
    by (simp add: itoa_no_colon split_on_no_sep)
  moreover have "in_int64 (UnixNano t)" by (simp add: UnixNano_def wrap64_in)
  ultimately show ?thesis
    by (simp add: TimeFromToken_def TokenFromTime_def b64_decode_encode b64_alphabet_url
        parse_int_itoa time_of_nano_def del: append.simps)
qed

lemma TimeFromToken_exact:
  "in_int64 t \<Longrightarrow> TimeFromToken (TokenFromTime t) w = (Ok t, w)"
  by (simp add: token_round_trip UnixNano_exact)

lemma TokenFromTime_inject:
  assumes "in_int64 a" and "in_int64 b" and "TokenFromTime a = TokenFromTime b"
  shows "a = b"
proof -
  have "\<And>w :: unit world. (Ok a :: (err, time) outcome, w) = (Ok b, w)"
    using TimeFromToken_exact [OF assms(1)] TimeFromToken_exact [OF assms(2)] assms(3) by metis
  then show ?thesis by simp
qed

lemma TokenFromTime_nonempty: "TokenFromTime t \<noteq> []"
proof
  assume "TokenFromTime t = []"
  then have "b64_decode url_alphabet (TokenFromTime t) = Some []" by (simp add: b64_decode_def)
  then show False by (simp add: TokenFromTime_def b64_decode_encode b64_alphabet_url)
qed

text \<open>Decoding a token changes nothing but the number of clock readings.\<close>

lemma TimeFromToken_frame [simp]:
  "w_db (snd (TimeFromToken token w)) = w_db w"
  "w_clock (snd (TimeFromToken token w)) = w_clock w"
  by (auto simp: TimeFromToken_def Let_def Now_def split: option.splits list.splits)

lemma TimeFromToken_not_Err: "fst (TimeFromToken token w) \<noteq> Err e"
  by (auto simp: TimeFromToken_def Let_def Now_def split: option.splits list.splits)

text \<open>
  The tokens a client can make the server panic with are exactly those that decode to bytes
  without a colon other than the single character 1: the decoder reads a second component that is
  not there.
\<close>

theorem TimeFromToken_panics_iff:
  "(\<exists>m. fst (TimeFromToken token w) = Panic m) \<longleftrightarrow>
     (\<exists>raw. b64_decode url_alphabet token = Some raw \<and> CHR '':'' \<notin> set raw \<and> raw \<noteq> ''1'')"
proof (cases "b64_decode url_alphabet token")
  case None
  then show ?thesis by (simp add: TimeFromToken_def Now_def)
next
  case (Some raw)
  show ?thesis
  proof (cases "CHR '':'' \<in> set raw")
    case False
    with Some show ?thesis by (simp add: TimeFromToken_def split_on_no_sep Now_def)
  next
    case True
    then obtain p r where "raw = p @ CHR '':'' # r" and "CHR '':'' \<notin> set p"
      by (meson split_list_first)
    then have "split_on CHR '':'' raw = p # split_on CHR '':'' r" by (simp add: split_on_append)
    with Some True show ?thesis
      by (auto simp: TimeFromToken_def Now_def split: list.splits option.splits)
  qed
qed

subsection \<open>Versions\<close>

definition APIVersion20161215 :: string where "APIVersion20161215 = ''20161215''"
definition APIVersion20190520 :: string where "APIVersion20190520 = ''20190520''"
definition APIVersion20200115 :: string where "APIVersion20200115 = ''20200115''"
definition APIVersion :: string where "APIVersion = APIVersion20200115"

definition ProtocolVersion1 :: string where "ProtocolVersion1 = ''001''"
definition ProtocolVersion2 :: string where "ProtocolVersion2 = ''002''"
definition ProtocolVersion3 :: string where "ProtocolVersion3 = ''003''"
definition ProtocolVersion4 :: string where "ProtocolVersion4 = ''004''"

lemmas protocol_version_defs =
  ProtocolVersion1_def ProtocolVersion2_def ProtocolVersion3_def ProtocolVersion4_def

lemmas api_version_defs =
  APIVersion20161215_def APIVersion20190520_def APIVersion20200115_def

definition VersionGreaterOrEqual :: "string \<Rightarrow> string \<Rightarrow> bool" where
  "VersionGreaterOrEqual version current =
     (if current = [] then False
      else case parse_int version of
             None \<Rightarrow> False
           | Some v \<Rightarrow> (case parse_int current of None \<Rightarrow> False | Some c \<Rightarrow> v \<le> c))"

definition VersionLesser :: "string \<Rightarrow> string \<Rightarrow> bool" where
  "VersionLesser version current =
     (if current = [] then True
      else case parse_int version of
             None \<Rightarrow> False
           | Some v \<Rightarrow> (case parse_int current of None \<Rightarrow> False | Some c \<Rightarrow> c < v))"

text \<open>
  The two comparisons never hold together, and one of them holds exactly when the current
  version is empty or both versions are 64-bit decimal numbers: a malformed version is neither
  lesser nor greater or equal.
\<close>

theorem Version_comparisons_partition:
  "\<not> (VersionLesser v c \<and> VersionGreaterOrEqual v c)
   \<and> ((VersionLesser v c \<or> VersionGreaterOrEqual v c)
       = (c = [] \<or> (parse_int v \<noteq> None \<and> parse_int c \<noteq> None)))"
  by (auto simp: VersionLesser_def VersionGreaterOrEqual_def split: option.splits)

end
