(* ===== verification/Model.thy ===== *)
theory Model
  imports Libsf_Token
begin

text \<open>
  \<^verbatim>\<open>internal/model\<close>: the records of the database. Go embeds \<^verbatim>\<open>Base\<close> in each model; here each
  record extends \<open>base\<close>, so that the operations on \<^verbatim>\<open>model.Model\<close> are functions on every extension
  of it. A \<^verbatim>\<open>*time.Time\<close> is an optional instant.
\<close>

record base =
  ID :: string
  CreatedAt :: "time option"
  UpdatedAt :: "time option"

record item = base +
  it_UserID :: string
  it_ItemsKeyID :: string
  it_Content :: string
  it_ContentType :: string
  it_EncryptedItemKey :: string
  it_Deleted :: bool

record pkce = base +
  pk_CodeChallenge :: string
  pk_ExpireAt :: time

record session = base +
  se_ExpireAt :: time
  se_UserID :: string
  se_UserAgent :: string
  se_APIVersion :: string
  se_AccessToken :: string
  se_RefreshToken :: string
  se_Current :: bool

record user = base +
  us_Email :: string
  us_Password :: string
  us_PasswordCost :: int
  us_PasswordNonce :: string
  us_PasswordAuth :: string
  us_Version :: string
  us_PasswordSalt :: string
  us_PasswordUpdatedAt :: int

definition SetUpdatedAt :: "time \<Rightarrow> 'a base_scheme \<Rightarrow> 'a base_scheme" where
  "SetUpdatedAt t m = m\<lparr>UpdatedAt := Some t\<rparr>"

definition SetCreatedAt :: "time \<Rightarrow> 'a base_scheme \<Rightarrow> 'a base_scheme" where
  "SetCreatedAt t m = m\<lparr>CreatedAt := Some t\<rparr>"

definition SetID :: "string \<Rightarrow> 'a base_scheme \<Rightarrow> 'a base_scheme" where
  "SetID i m = m\<lparr>ID := i\<rparr>"

lemmas model_setters = SetUpdatedAt_def SetCreatedAt_def SetID_def

text \<open>\<open>model.NewUser\<close>: the zero user with protocol version 002.\<close>

definition model_NewUser :: user where
  "model_NewUser =
     \<lparr>ID = [], CreatedAt = None, UpdatedAt = None, us_Email = [], us_Password = [],
      us_PasswordCost = 0, us_PasswordNonce = [], us_PasswordAuth = [],
      us_Version = ProtocolVersion2, us_PasswordSalt = [], us_PasswordUpdatedAt = 0\<rparr>"

subsection \<open>Stored values and the fields by name\<close>

text \<open>
  Queries name a field and compare it with a value; a nil pointer is \<open>VNil\<close>. The order of the
  values is that of Go within each type.
\<close>

datatype val = VNil | VBool bool | VInt int | VTime time | VStr string | VBytes bytes

fun val_rank :: "val \<Rightarrow> nat \<times> int \<times> string" where
  "val_rank VNil = (0, 0, [])"
| "val_rank (VBool b) = (1, (if b then 1 else 0), [])"
| "val_rank (VInt i) = (2, i, [])"
| "val_rank (VTime t) = (3, t, [])"
| "val_rank (VStr s) = (4, 0, s)"
| "val_rank (VBytes s) = (5, 0, s)"

lemma val_rank_inject: "val_rank a = val_rank b \<longleftrightarrow> a = b"
  by (cases a; cases b) auto

instantiation val :: linorder
begin

definition less_eq_val :: "val \<Rightarrow> val \<Rightarrow> bool" where
  "less_eq_val a b \<longleftrightarrow> val_rank a \<le> val_rank b"

definition less_val :: "val \<Rightarrow> val \<Rightarrow> bool" where
  "less_val a b \<longleftrightarrow> val_rank a < val_rank b"

instance
  by standard (auto simp: less_eq_val_def less_val_def val_rank_inject
      intro: order_trans dest: antisym)

end

lemma VTime_le_iff [simp]: "VTime a \<le> VTime b \<longleftrightarrow> a \<le> b" "VTime a < VTime b \<longleftrightarrow> a < b"
  by (auto simp: less_eq_val_def less_val_def)

definition opt_time :: "time option \<Rightarrow> val" where
  "opt_time t = (case t of None \<Rightarrow> VNil | Some u \<Rightarrow> VTime u)"

definition base_field :: "'a base_scheme \<Rightarrow> string \<Rightarrow> val option" where
  "base_field m f =
     (if f = ''ID'' then Some (VStr (ID m))
      else if f = ''CreatedAt'' then Some (opt_time (CreatedAt m))
      else if f = ''UpdatedAt'' then Some (opt_time (UpdatedAt m))
      else None)"

definition item_field :: "item \<Rightarrow> string \<Rightarrow> val option" where
  "item_field i f =
     (if f = ''UserID'' then Some (VStr (it_UserID i))
      else if f = ''ContentType'' then Some (VStr (it_ContentType i))
      else if f = ''Deleted'' then Some (VBool (it_Deleted i))
      else if f = ''ItemsKeyID'' then Some (VStr (it_ItemsKeyID i))
      else if f = ''Content'' then Some (VStr (it_Content i))
      else if f = ''EncryptedItemKey'' then Some (VStr (it_EncryptedItemKey i))
      else base_field i f)"

definition pkce_field :: "pkce \<Rightarrow> string \<Rightarrow> val option" where
  "pkce_field p f =
     (if f = ''CodeChallenge'' then Some (VStr (pk_CodeChallenge p))
      else if f = ''ExpireAt'' then Some (VTime (pk_ExpireAt p))
      else base_field p f)"

definition session_field :: "session \<Rightarrow> string \<Rightarrow> val option" where
  "session_field s f =
     (if f = ''ExpireAt'' then Some (VTime (se_ExpireAt s))
      else if f = ''UserID'' then Some (VStr (se_UserID s))
      else if f = ''UserAgent'' then Some (VStr (se_UserAgent s))
      else if f = ''APIVersion'' then Some (VStr (se_APIVersion s))
      else if f = ''AccessToken'' then Some (VStr (se_AccessToken s))
      else if f = ''RefreshToken'' then Some (VStr (se_RefreshToken s))
      else base_field s f)"

definition user_field :: "user \<Rightarrow> string \<Rightarrow> val option" where
  "user_field u f =
     (if f = ''Email'' then Some (VStr (us_Email u))
      else if f = ''Version'' then Some (VStr (us_Version u))
      else base_field u f)"

lemmas field_defs = base_field_def item_field_def pkce_field_def session_field_def user_field_def

end
