(* ===== verification/Storm.thy ===== *)
theory Storm
  imports Model
begin

text \<open>
  The storage library. storm (over BoltDB) is not part of the repository, so it is a parameter: a
  record of the operations the code calls, one bucket per stored type. The queries the code builds
  are data (\<open>matcher\<close>, \<open>query\<close>). What the code relies on is the contract of the locale \<open>bucket\<close>,
  storm's documented behaviour: saving inserts or replaces by ID and refuses a duplicate of a
  unique field, queries return exactly the matching records, ordered, skipped and limited as asked,
  or a not-found error when there is none, and a failed write changes nothing. Any operation may
  also fail with another error, about which nothing is assumed. The locale \<open>store\<close> puts the four
  buckets together: writing one leaves the others as they were.

  The theory ends with an in-memory engine that implements the contract, the instance the
  concrete evaluations of the development run on.
\<close>

subsection \<open>Queries\<close>

text \<open>A matcher compares fields with values, here of any type \<open>'v\<close>; those of the server compare with \<open>val\<close>.\<close>

datatype 'v gen_matcher =
    q_Eq string 'v
  | q_Gt string 'v
  | q_Gte string 'v
  | q_Lt string 'v
  | q_Lte string 'v
  | q_In string "'v list"
  | q_Re string string
  | q_Not "'v gen_matcher"
  | q_And "'v gen_matcher list"
  | q_Or "'v gen_matcher list"

type_synonym matcher = "val gen_matcher"

record query =
  q_where :: "matcher list"
  q_orderby :: "string list"
  q_reverse :: bool
  q_skip :: nat
  q_limit :: "int option"

text \<open>\<open>db.Select(ms...)\<close> and its modifiers.\<close>

definition q_Select :: "matcher list \<Rightarrow> query" where
  "q_Select ms = \<lparr>q_where = ms, q_orderby = [], q_reverse = False, q_skip = 0, q_limit = None\<rparr>"

definition q_OrderBy :: "string list \<Rightarrow> query \<Rightarrow> query" where
  "q_OrderBy fs q = q\<lparr>q_orderby := fs\<rparr>"

definition q_Reverse :: "query \<Rightarrow> query" where
  "q_Reverse q = q\<lparr>q_reverse := True\<rparr>"

definition q_Limit :: "int \<Rightarrow> query \<Rightarrow> query" where
  "q_Limit n q = q\<lparr>q_limit := Some n\<rparr>"

lemmas query_defs = q_Select_def q_OrderBy_def q_Reverse_def q_Limit_def

subsection \<open>What a query means\<close>

fun same_kind :: "val \<Rightarrow> val \<Rightarrow> bool" where
  "same_kind (VBool _) (VBool _) = True"
| "same_kind (VInt _) (VInt _) = True"
| "same_kind (VTime _) (VTime _) = True"
| "same_kind (VStr _) (VStr _) = True"
| "same_kind (VBytes _) (VBytes _) = True"
| "same_kind _ _ = False"

text \<open>\<open>re p s\<close>: the regular expression \<open>p\<close> matches the string \<open>s\<close>.\<close>

fun matches :: "(string \<Rightarrow> string \<Rightarrow> bool) \<Rightarrow> (string \<Rightarrow> val option) \<Rightarrow> matcher \<Rightarrow> bool" where
  "matches re fld (q_Eq f v) = (fld f = Some v)"
| "matches re fld (q_Gt f v) = (case fld f of None \<Rightarrow> False | Some x \<Rightarrow> same_kind x v \<and> v < x)"
| "matches re fld (q_Gte f v) = (case fld f of None \<Rightarrow> False | Some x \<Rightarrow> same_kind x v \<and> v \<le> x)"
| "matches re fld (q_Lt f v) = (case fld f of None \<Rightarrow> False | Some x \<Rightarrow> same_kind x v \<and> x < v)"
| "matches re fld (q_Lte f v) = (case fld f of None \<Rightarrow> False | Some x \<Rightarrow> same_kind x v \<and> x \<le> v)"
| "matches re fld (q_In f vs) = (case fld f of None \<Rightarrow> False | Some x \<Rightarrow> x \<in> set vs)"
| "matches re fld (q_Re f p) = (case fld f of Some (VStr s) \<Rightarrow> re p s | _ \<Rightarrow> False)"
| "matches re fld (q_Not m) = (\<not> matches re fld m)"
| "matches re fld (q_And ms) = (\<forall>m \<in> set ms. matches re fld m)"
| "matches re fld (q_Or ms) = (\<exists>m \<in> set ms. matches re fld m)"

definition matches_all :: "(string \<Rightarrow> string \<Rightarrow> bool) \<Rightarrow> (string \<Rightarrow> val option) \<Rightarrow> matcher list \<Rightarrow> bool" where
  "matches_all re fld ms = (\<forall>m \<in> set ms. matches re fld m)"

lemma matches_all_simps [simp]:
  "matches_all re fld []"
  "matches_all re fld (m # ms) \<longleftrightarrow> matches re fld m \<and> matches_all re fld ms"
  "matches_all re fld (ms @ ns) \<longleftrightarrow> matches_all re fld ms \<and> matches_all re fld ns"
  by (auto simp: matches_all_def)

definition order_key :: "('r \<Rightarrow> string \<Rightarrow> val option) \<Rightarrow> string list \<Rightarrow> 'r \<Rightarrow> val list" where
  "order_key fld fs r = map (\<lambda>f. case fld r f of None \<Rightarrow> VNil | Some v \<Rightarrow> v) fs"

definition ordered :: "('r \<Rightarrow> string \<Rightarrow> val option) \<Rightarrow> query \<Rightarrow> 'r list \<Rightarrow> bool" where
  "ordered fld q rs \<longleftrightarrow>
     (let ks = map (order_key fld (q_orderby q)) rs
      in q_orderby q = [] \<or> (if q_reverse q then sorted (rev ks) else sorted ks))"

definition window :: "query \<Rightarrow> 'r list \<Rightarrow> 'r list" where
  "window q rs =
     (case q_limit q of None \<Rightarrow> drop (q_skip q) rs | Some n \<Rightarrow> take (nat n) (drop (q_skip q) rs))"

text \<open>Nothing is assumed of a query with a negative limit.\<close>

definition limit_ok :: "query \<Rightarrow> bool" where
  "limit_ok q \<longleftrightarrow> (\<forall>n. q_limit q = Some n \<longrightarrow> 0 \<le> n)"

subsection \<open>Buckets and their contract\<close>

record ('db, 'r) bucket =
  b_save :: "'r \<Rightarrow> 'db \<Rightarrow> err + 'db"
  b_delete_struct :: "'r \<Rightarrow> 'db \<Rightarrow> err + 'db"
  b_one :: "string \<Rightarrow> val \<Rightarrow> 'db \<Rightarrow> err + 'r"
  b_first :: "matcher list \<Rightarrow> 'db \<Rightarrow> err + 'r"
  b_find :: "query \<Rightarrow> 'db \<Rightarrow> err + 'r list"
  b_delete :: "matcher list \<Rightarrow> 'db \<Rightarrow> err + 'db"

definition writes :: "('db, 'r) bucket \<Rightarrow> 'db \<Rightarrow> 'db \<Rightarrow> bool" where
  "writes B d d' \<longleftrightarrow>
     (\<exists>r. b_save B r d = Inr d') \<or> (\<exists>r. b_delete_struct B r d = Inr d')
     \<or> (\<exists>ms. b_delete B ms d = Inr d')"

lemma writesI:
  "b_save B r d = Inr d' \<Longrightarrow> writes B d d'"
  "b_delete_struct B r d = Inr d' \<Longrightarrow> writes B d d'"
  "b_delete B ms d = Inr d' \<Longrightarrow> writes B d d'"
  by (auto simp: writes_def)

text \<open>
  \<open>rows d\<close> are the records of the bucket in the database \<open>d\<close>; \<open>conflict r x\<close> says that \<open>r\<close>
  duplicates a unique field of the other record \<open>x\<close>; \<open>persist\<close> forgets the fields that are not
  stored.
\<close>

locale bucket =
  fixes B :: "('db, 'a base_scheme) bucket"
    and rows :: "'db \<Rightarrow> 'a base_scheme set"
    and re :: "string \<Rightarrow> string \<Rightarrow> bool"
    and fld :: "'a base_scheme \<Rightarrow> string \<Rightarrow> val option"
    and conflict :: "'a base_scheme \<Rightarrow> 'a base_scheme \<Rightarrow> bool"
    and persist :: "'a base_scheme \<Rightarrow> 'a base_scheme"
  assumes unique_ids: "inj_on ID (rows d)"
    and persist_ID: "ID (persist r) = ID r"
    and save_ok: "b_save B r d = Inr d' \<Longrightarrow>
          rows d' = insert (persist r) {x \<in> rows d. ID x \<noteq> ID r}"
    and save_no_conflict: "b_save B r d = Inr d' \<Longrightarrow> x \<in> rows d \<Longrightarrow> ID x \<noteq> ID r \<Longrightarrow> \<not> conflict r x"
    and save_conflict: "b_save B r d = Inl e \<Longrightarrow> Cause e = ErrAlreadyExists \<Longrightarrow>
          \<exists>x \<in> rows d. ID x \<noteq> ID r \<and> conflict r x"
    and delete_struct_ok: "b_delete_struct B r d = Inr d' \<Longrightarrow>
          rows d' = {x \<in> rows d. ID x \<noteq> ID r}"
    and delete_struct_missing: "b_delete_struct B r d = Inl e \<Longrightarrow> Cause e = ErrNotFound \<Longrightarrow>
          \<forall>x \<in> rows d. ID x \<noteq> ID r"
    and one_ok: "b_one B f v d = Inr r \<Longrightarrow> r \<in> rows d \<and> fld r f = Some v"
    and one_missing: "b_one B f v d = Inl e \<Longrightarrow> Cause e = ErrNotFound \<Longrightarrow> r \<in> rows d \<Longrightarrow> fld r f \<noteq> Some v"
    and first_ok: "b_first B ms d = Inr r \<Longrightarrow> r \<in> rows d \<and> matches_all re (fld r) ms"
    and first_missing: "b_first B ms d = Inl e \<Longrightarrow> Cause e = ErrNotFound \<Longrightarrow> r \<in> rows d \<Longrightarrow>
          \<not> matches_all re (fld r) ms"
    and find_ok: "b_find B q d = Inr rs \<Longrightarrow> limit_ok q \<Longrightarrow>
          \<exists>full. set full = {r \<in> rows d. matches_all re (fld r) (q_where q)} \<and> distinct full
                 \<and> ordered fld q full \<and> rs = window q full"
    and find_missing: "b_find B q d = Inl e \<Longrightarrow> Cause e = ErrNotFound \<Longrightarrow> (\<forall>n. q_limit q = Some n \<longrightarrow> 0 < n) \<Longrightarrow> q_skip q = 0 \<Longrightarrow>
          {r \<in> rows d. matches_all re (fld r) (q_where q)} = {}"
    and delete_ok: "b_delete B ms d = Inr d' \<Longrightarrow>
          rows d' = {r \<in> rows d. \<not> matches_all re (fld r) ms}"
    and delete_missing: "b_delete B ms d = Inl e \<Longrightarrow> Cause e = ErrNotFound \<Longrightarrow> r \<in> rows d \<Longrightarrow>
          \<not> matches_all re (fld r) ms"
    and delete_found: "b_delete B ms d = Inr d' \<Longrightarrow> \<exists>r \<in> rows d. matches_all re (fld r) ms"
begin

lemma rows_id_eq: "x \<in> rows d \<Longrightarrow> y \<in> rows d \<Longrightarrow> ID x = ID y \<Longrightarrow> x = y"
  using unique_ids by (auto dest: inj_onD)

lemma find_subset:
  assumes "b_find B q d = Inr rs" and "limit_ok q"
  shows "set rs \<subseteq> {r \<in> rows d. matches_all re (fld r) (q_where q)} \<and> distinct rs"
proof -
  obtain full where "set full = {r \<in> rows d. matches_all re (fld r) (q_where q)}"
    and "distinct full" and "rs = window q full" using find_ok [OF assms] by blast
  then show ?thesis
    by (auto simp: window_def split: option.splits dest!: in_set_takeD in_set_dropD)
qed

lemma find_complete:
  assumes "b_find B q d = Inr rs" and "q_limit q = None" and "q_skip q = 0"
  shows "set rs = {r \<in> rows d. matches_all re (fld r) (q_where q)} \<and> distinct rs \<and> ordered fld q rs"
  using find_ok [OF assms(1)] assms(2,3) by (auto simp: window_def limit_ok_def)

end

subsection \<open>The store\<close>

record 'db storm =
  st_users :: "('db, user) bucket"
  st_items :: "('db, item) bucket"
  st_sessions :: "('db, session) bucket"
  st_pkces :: "('db, pkce) bucket"

record 'db view =
  v_re :: "string \<Rightarrow> string \<Rightarrow> bool"
  v_users :: "'db \<Rightarrow> user set"
  v_items :: "'db \<Rightarrow> item set"
  v_sessions :: "'db \<Rightarrow> session set"
  v_pkces :: "'db \<Rightarrow> pkce set"

text \<open>The only unique field is \<^verbatim>\<open>User.Email\<close>; the only field not stored is \<^verbatim>\<open>Session.Current\<close>.\<close>

definition email_conflict :: "user \<Rightarrow> user \<Rightarrow> bool" where
  "email_conflict u x \<longleftrightarrow> us_Email u = us_Email x \<and> us_Email u \<noteq> []"

definition no_conflict :: "'r \<Rightarrow> 'r \<Rightarrow> bool" where
  "no_conflict r x \<longleftrightarrow> False"

definition forget_current :: "session \<Rightarrow> session" where
  "forget_current s = s\<lparr>se_Current := False\<rparr>"

locale store =
  users: bucket "st_users S" "v_users V" "v_re V" user_field email_conflict "\<lambda>u. u" +
  items: bucket "st_items S" "v_items V" "v_re V" item_field no_conflict "\<lambda>i. i" +
  sessions: bucket "st_sessions S" "v_sessions V" "v_re V" session_field no_conflict forget_current +
  pkces: bucket "st_pkces S" "v_pkces V" "v_re V" pkce_field no_conflict "\<lambda>p. p"
  for S :: "'db storm" and V :: "'db view" +
  assumes frame_users: "writes (st_users S) d d' \<Longrightarrow>
      v_items V d' = v_items V d \<and> v_sessions V d' = v_sessions V d \<and> v_pkces V d' = v_pkces V d"
    and frame_items: "writes (st_items S) d d' \<Longrightarrow>
      v_users V d' = v_users V d \<and> v_sessions V d' = v_sessions V d \<and> v_pkces V d' = v_pkces V d"
    and frame_sessions: "writes (st_sessions S) d d' \<Longrightarrow>
      v_users V d' = v_users V d \<and> v_items V d' = v_items V d \<and> v_pkces V d' = v_pkces V d"
    and frame_pkces: "writes (st_pkces S) d d' \<Longrightarrow>
      v_users V d' = v_users V d \<and> v_items V d' = v_items V d \<and> v_sessions V d' = v_sessions V d"

end
