(* ===== verification/Storm_Memory.thy ===== *)
theory Storm_Memory
  imports Storm
begin

text \<open>
  An in-memory engine for the contract of the storage library: the records of each bucket in a
  list, newest first, of which the first with an ID counts. It implements every operation the
  program calls, the unique index and the ordered, limited queries included, and it can be out of
  order (\<open>md_broken\<close>), when every operation fails with a storage error. The interpretation at the
  end is where the contract is shown to have an implementation; concrete runs of the program use it.
\<close>

record memdb =
  md_users :: "user list"
  md_items :: "item list"
  md_sessions :: "session list"
  md_pkces :: "pkce list"
  md_broken :: bool

definition empty_db :: memdb where
  "empty_db = \<lparr>md_users = [], md_items = [], md_sessions = [], md_pkces = [], md_broken = False\<rparr>"

fun current_rows :: "'a base_scheme list \<Rightarrow> 'a base_scheme list" where
  "current_rows [] = []"
| "current_rows (r # rs) = r # filter (\<lambda>x. ID x \<noteq> ID r) (current_rows rs)"

lemma current_rows_ids: "distinct (map ID (current_rows rs))"
  by (induction rs) (auto simp: distinct_map_filter)

lemma current_rows_idem: "distinct (map ID rs) \<Longrightarrow> current_rows rs = rs"
  by (induction rs) (auto simp: filter_id_conv image_iff)

lemma current_rows_filter:
  "current_rows (filter P (current_rows rs)) = filter P (current_rows rs)"
  by (rule current_rows_idem) (simp add: distinct_map_filter current_rows_ids)

definition mem_find ::
  "(string \<Rightarrow> string \<Rightarrow> bool) \<Rightarrow> ('r \<Rightarrow> string \<Rightarrow> val option) \<Rightarrow> query \<Rightarrow> 'r list \<Rightarrow> err + 'r list" where
  "mem_find re fld q rs =
     (let found = filter (\<lambda>r. matches_all re (fld r) (q_where q)) rs;
          sorted_up = (if q_orderby q = [] then found else sort_key (order_key fld (q_orderby q)) found);
          out = window q (if q_reverse q then rev sorted_up else sorted_up)
      in if out = [] then Inl ErrNotFound else Inr out)"

text \<open>\<open>get\<close> and \<open>put\<close> select the bucket's list.\<close>

definition mem_bucket ::
  "(string \<Rightarrow> string \<Rightarrow> bool) \<Rightarrow> (memdb \<Rightarrow> 'a base_scheme list) \<Rightarrow> ('a base_scheme list \<Rightarrow> memdb \<Rightarrow> memdb)
   \<Rightarrow> ('a base_scheme \<Rightarrow> string \<Rightarrow> val option) \<Rightarrow> ('a base_scheme \<Rightarrow> 'a base_scheme \<Rightarrow> bool)
   \<Rightarrow> ('a base_scheme \<Rightarrow> 'a base_scheme) \<Rightarrow> (memdb, 'a base_scheme) bucket" where
  "mem_bucket re get put fld conflict persist =
     \<lparr>b_save = (\<lambda>r d.
        if md_broken d then Inl (ErrStorm ''storage failure'')
        else let rs = filter (\<lambda>x. ID x \<noteq> ID r) (current_rows (get d))
             in if (\<exists>x \<in> set rs. conflict r x) then Inl ErrAlreadyExists
                else Inr (put (persist r # rs) d)),
      b_delete_struct = (\<lambda>r d.
        if md_broken d then Inl (ErrStorm ''storage failure'')
        else let rs = current_rows (get d); rest = filter (\<lambda>x. ID x \<noteq> ID r) rs
             in if length rest = length rs then Inl ErrNotFound else Inr (put rest d)),
      b_one = (\<lambda>f v d.
        if md_broken d then Inl (ErrStorm ''storage failure'')
        else case filter (\<lambda>r. fld r f = Some v) (current_rows (get d)) of
               [] \<Rightarrow> Inl ErrNotFound | r # _ \<Rightarrow> Inr r),
      b_first = (\<lambda>ms d.
        if md_broken d then Inl (ErrStorm ''storage failure'')
        else case filter (\<lambda>r. matches_all re (fld r) ms) (current_rows (get d)) of
               [] \<Rightarrow> Inl ErrNotFound | r # _ \<Rightarrow> Inr r),
      b_find = (\<lambda>q d.
        if md_broken d then Inl (ErrStorm ''storage failure'')
        else mem_find re fld q (current_rows (get d))),
      b_delete = (\<lambda>ms d.
        if md_broken d then Inl (ErrStorm ''storage failure'')
        else let rs = current_rows (get d); rest = filter (\<lambda>r. \<not> matches_all re (fld r) ms) rs
             in if length rest = length rs then Inl ErrNotFound else Inr (put rest d))\<rparr>"

lemma length_filter_eq_iff: "length (filter P xs) = length xs \<longleftrightarrow> (\<forall>x \<in> set xs. P x)"
proof
  assume "length (filter P xs) = length xs"
  then show "\<forall>x \<in> set xs. P x" using length_filter_less [of _ xs P] by fastforce
qed (simp add: filter_True)

lemma mem_find_ok:
  assumes "mem_find re fld q rs = Inr out" and "distinct rs"
  shows "\<exists>full. set full = {r \<in> set rs. matches_all re (fld r) (q_where q)} \<and> distinct full
                \<and> ordered fld q full \<and> out = window q full"
proof -
  define found where "found = filter (\<lambda>r. matches_all re (fld r) (q_where q)) rs"
  define up where "up = (if q_orderby q = [] then found else sort_key (order_key fld (q_orderby q)) found)"
  define full where "full = (if q_reverse q then rev up else up)"
  have "out = window q full"
    using assms(1) by (simp add: mem_find_def Let_def full_def up_def found_def split: if_splits)
  moreover have "set full = {r \<in> set rs. matches_all re (fld r) (q_where q)}"
    by (simp add: full_def up_def found_def)
  moreover have "distinct full" using assms(2) by (simp add: full_def up_def found_def)
  moreover have "ordered fld q full"
    by (auto simp: ordered_def Let_def full_def up_def rev_map)
  ultimately show ?thesis by blast
qed

lemma mem_find_missing:
  assumes "mem_find re fld q rs = Inl e" and "\<forall>n. q_limit q = Some n \<longrightarrow> 0 < n" and "q_skip q = 0"
  shows "{r \<in> set rs. matches_all re (fld r) (q_where q)} = {}"
proof -
  define found where "found = filter (\<lambda>r. matches_all re (fld r) (q_where q)) rs"
  define up where "up = (if q_orderby q = [] then found else sort_key (order_key fld (q_orderby q)) found)"
  have "window q (if q_reverse q then rev up else up) = []"
    using assms(1) by (simp add: mem_find_def Let_def up_def found_def split: if_splits)
  then have "up = []" using assms(2,3) by (fastforce simp: window_def split: option.splits if_splits)
  moreover have "set up = set found" by (simp add: up_def)
  ultimately have "found = []" by simp
  then show ?thesis by (auto simp: found_def filter_empty_conv)
qed

lemma filter_hd: "filter P xs = r # ys \<Longrightarrow> r \<in> set xs \<and> P r"
  by (metis list.set_intros(1) mem_Collect_eq set_filter)

lemma distinct_current_rows: "distinct (current_rows rs)"
  using current_rows_ids [of rs] by (simp add: distinct_map)

lemma mem_bucket:
  assumes get_put: "\<And>rs d. get (put rs d) = rs" and persist: "\<And>r. ID (persist r) = ID r"
  shows "bucket (mem_bucket re get put fld conflict persist) (\<lambda>d. set (current_rows (get d)))
           re fld conflict persist"
proof -
  show ?thesis
  proof (unfold_locales, goal_cases)
    case (1 d) show ?case using current_rows_ids [of "get d"] by (simp add: distinct_map)
  next
    case (2 r) show ?case by (rule persist)
  next
    case (3 r d d')
    then show ?case
      by (auto simp: mem_bucket_def Let_def get_put persist current_rows_filter split: if_splits)
  next
    case (4 r d d' x)
    then show ?case by (auto simp: mem_bucket_def Let_def split: if_splits)
  next
    case (5 r d e)
    then show ?case by (auto simp: mem_bucket_def Let_def split: if_splits)
  next
    case (6 r d d')
    then show ?case
      by (auto simp: mem_bucket_def Let_def get_put current_rows_filter split: if_splits)
  next
    case (7 r d e)
    then show ?case by (auto simp: mem_bucket_def Let_def length_filter_eq_iff split: if_splits)
  next
    case (8 f v d r)
    then show ?case by (auto simp: mem_bucket_def split: if_splits list.splits dest: filter_hd)
  next
    case (9 f v d e r)
    then have "filter (\<lambda>r. fld r f = Some v) (current_rows (get d)) = []"
      by (auto simp: mem_bucket_def split: if_splits list.splits)
    then show ?case using 9(3) by (auto simp: filter_empty_conv)
  next
    case (10 ms d r)
    then show ?case by (auto simp: mem_bucket_def split: if_splits list.splits dest: filter_hd)
  next
    case (11 ms d e r)
    then have "filter (\<lambda>r. matches_all re (fld r) ms) (current_rows (get d)) = []"
      by (auto simp: mem_bucket_def split: if_splits list.splits)
    then show ?case using 11(3) by (auto simp: filter_empty_conv)
  next
    case (12 q d rs)
    then have "mem_find re fld q (current_rows (get d)) = Inr rs"
      by (auto simp: mem_bucket_def split: if_splits)
    then show ?case using mem_find_ok [OF _ distinct_current_rows] by blast
  next
    case (13 q d e)
    then have "mem_find re fld q (current_rows (get d)) = Inl e"
      by (auto simp: mem_bucket_def split: if_splits)
    then show ?case using 13 by (intro mem_find_missing)
  next
    case (14 ms d d')
    then show ?case
      by (auto simp: mem_bucket_def Let_def get_put current_rows_filter split: if_splits)
  next
    case (15 ms d e r)
    then show ?case by (auto simp: mem_bucket_def Let_def length_filter_eq_iff split: if_splits)
  next
    case (16 ms d d')
    then show ?case by (auto simp: mem_bucket_def Let_def length_filter_eq_iff split: if_splits)
  qed
qed

lemma mem_bucket_writes:
  assumes "writes (mem_bucket re get put fld conflict persist) d d'"
  shows "\<exists>rs. d' = put rs d"
  using assms by (auto simp: writes_def mem_bucket_def Let_def split: if_splits)

definition mem_storm :: "memdb storm" where
  "mem_storm =
     \<lparr>st_users = mem_bucket (=) md_users (\<lambda>rs d. d\<lparr>md_users := rs\<rparr>) user_field email_conflict (\<lambda>u. u),
      st_items = mem_bucket (=) md_items (\<lambda>rs d. d\<lparr>md_items := rs\<rparr>) item_field no_conflict (\<lambda>i. i),
      st_sessions = mem_bucket (=) md_sessions (\<lambda>rs d. d\<lparr>md_sessions := rs\<rparr>) session_field no_conflict
        forget_current,
      st_pkces = mem_bucket (=) md_pkces (\<lambda>rs d. d\<lparr>md_pkces := rs\<rparr>) pkce_field no_conflict (\<lambda>p. p)\<rparr>"

definition mem_view :: "memdb view" where
  "mem_view =
     \<lparr>v_re = (=),
      v_users = (\<lambda>d. set (current_rows (md_users d))),
      v_items = (\<lambda>d. set (current_rows (md_items d))),
      v_sessions = (\<lambda>d. set (current_rows (md_sessions d))),
      v_pkces = (\<lambda>d. set (current_rows (md_pkces d)))\<rparr>"

lemma mem_store: "store mem_storm mem_view"
proof (intro store.intro store_axioms.intro)
  show "bucket (st_users mem_storm) (v_users mem_view) (v_re mem_view) user_field email_conflict (\<lambda>u. u)"
    by (simp add: mem_storm_def mem_view_def mem_bucket)
  show "bucket (st_items mem_storm) (v_items mem_view) (v_re mem_view) item_field no_conflict (\<lambda>i. i)"
    by (simp add: mem_storm_def mem_view_def mem_bucket)
  show "bucket (st_sessions mem_storm) (v_sessions mem_view) (v_re mem_view) session_field no_conflict
          forget_current"
    by (simp add: mem_storm_def mem_view_def mem_bucket forget_current_def)
  show "bucket (st_pkces mem_storm) (v_pkces mem_view) (v_re mem_view) pkce_field no_conflict (\<lambda>p. p)"
    by (simp add: mem_storm_def mem_view_def mem_bucket)
qed (auto simp: mem_storm_def mem_view_def dest: mem_bucket_writes)

interpretation mem: store mem_storm mem_view
  by (rule mem_store)

end
