(* ===== verification/Database.thy ===== *)
theory Database
  imports Storm_Memory
begin

text \<open>
  \<^verbatim>\<open>internal/database\<close>: the operations of \<^verbatim>\<open>database.Client\<close> as \<^verbatim>\<open>storm.go\<close> implements them over
  the storage library \<open>S\<close>. An \<^verbatim>\<open>error\<close> result is an optional error; an operation that returns a
  record or an error is a sum. The lemmas in the contexts of the storage contract say what each
  operation does to the records.
\<close>

subsection \<open>Generic operations\<close>

text \<open>\<open>Save\<close> mutates the model it is given whether or not the write succeeds.\<close>

definition Save ::
  "('db, 'a base_scheme) bucket \<Rightarrow> 'a base_scheme \<Rightarrow> 'db world \<Rightarrow> 'a base_scheme \<times> err option \<times> 'db world" where
  "Save B m w =
     (let (t, w1) = Now w;
          m1 = SetUpdatedAt t m;
          (m2, w2) = (if ID m1 = []
                      then (let (u, w2) = NewV4 w1 in (SetCreatedAt t (SetID u m1), w2))
                      else (m1, w1))
      in case b_save B m2 (w_db w2) of
           Inl e \<Rightarrow> (m2, Some (Wrap ''could not save the model'' e), w2)
         | Inr d \<Rightarrow> (m2, None, w2\<lparr>w_db := d\<rparr>))"

definition Delete ::
  "('db, 'a base_scheme) bucket \<Rightarrow> 'a base_scheme \<Rightarrow> 'db world \<Rightarrow> err option \<times> 'db world" where
  "Delete B m w =
     (case b_delete_struct B m (w_db w) of
        Inl e \<Rightarrow> (Some (Wrap ''could not delete the model'' e), w)
      | Inr d \<Rightarrow> (None, w\<lparr>w_db := d\<rparr>))"

definition IsNotFound :: "err option \<Rightarrow> bool" where
  "IsNotFound e = (case e of None \<Rightarrow> False | Some e \<Rightarrow> Cause e = ErrNotFound)"

definition IsAlreadyExists :: "err option \<Rightarrow> bool" where
  "IsAlreadyExists e = (case e of None \<Rightarrow> False | Some e \<Rightarrow> Cause e = ErrAlreadyExists)"

definition wrap_left :: "string \<Rightarrow> err + 'r \<Rightarrow> err + 'r" where
  "wrap_left msg r = (case r of Inl e \<Rightarrow> Inl (Wrap msg e) | Inr x \<Rightarrow> Inr x)"

lemma wrap_left_simps [simp]:
  "wrap_left msg (Inl e) = Inl (Wrap msg e)"
  "wrap_left msg (Inr x) = Inr x"
  "wrap_left msg r = Inr y \<longleftrightarrow> r = Inr y"
  "wrap_left msg r = Inl e \<longleftrightarrow> (\<exists>e'. r = Inl e' \<and> e = Wrap msg e')"
  by (auto simp: wrap_left_def split: sum.splits)

subsection \<open>Users and sessions\<close>

definition FindUser :: "'db storm \<Rightarrow> string \<Rightarrow> 'db world \<Rightarrow> err + user" where
  "FindUser S i w = wrap_left ''find user by id'' (b_one (st_users S) ''ID'' (VStr i) (w_db w))"

definition FindUserByMail :: "'db storm \<Rightarrow> string \<Rightarrow> 'db world \<Rightarrow> err + user" where
  "FindUserByMail S email w =
     wrap_left ''find user by mail'' (b_one (st_users S) ''Email'' (VStr email) (w_db w))"

definition FindSession :: "'db storm \<Rightarrow> string \<Rightarrow> 'db world \<Rightarrow> err + session" where
  "FindSession S i w =
     wrap_left ''find session by id'' (b_one (st_sessions S) ''ID'' (VStr i) (w_db w))"

definition FindSessionByUserID :: "'db storm \<Rightarrow> string \<Rightarrow> string \<Rightarrow> 'db world \<Rightarrow> err + session" where
  "FindSessionByUserID S i userID w =
     wrap_left ''find session by id and user id''
       (b_first (st_sessions S) [q_Eq ''ID'' (VStr i), q_Eq ''UserID'' (VStr userID)] (w_db w))"

definition FindSessionByAccessToken :: "'db storm \<Rightarrow> string \<Rightarrow> string \<Rightarrow> 'db world \<Rightarrow> err + session" where
  "FindSessionByAccessToken S i token w =
     wrap_left ''find session by access token''
       (b_first (st_sessions S) [q_Eq ''ID'' (VStr i), q_Eq ''AccessToken'' (VStr token)] (w_db w))"

definition FindSessionByTokens ::
  "'db storm \<Rightarrow> string \<Rightarrow> string \<Rightarrow> string \<Rightarrow> 'db world \<Rightarrow> err + session" where
  "FindSessionByTokens S i access refresh w =
     wrap_left ''could not find session by tokens''
       (b_first (st_sessions S)
          [q_Eq ''ID'' (VStr i), q_Eq ''AccessToken'' (VStr access), q_Eq ''RefreshToken'' (VStr refresh)]
          (w_db w))"

text \<open>A list query that finds nothing is an empty list, not an error.\<close>

definition found_list :: "string \<Rightarrow> err + 'r list \<Rightarrow> err + 'r list" where
  "found_list msg r =
     (case r of
        Inl e \<Rightarrow> if IsNotFound (Some e) then Inr [] else Inl (Wrap msg e)
      | Inr xs \<Rightarrow> Inr xs)"

definition FindSessionsByUserID :: "'db storm \<Rightarrow> string \<Rightarrow> 'db world \<Rightarrow> err + session list" where
  "FindSessionsByUserID S userID w =
     found_list ''could not find sessions by user id''
       (b_find (st_sessions S)
          (q_OrderBy [''CreatedAt''] (q_Select [q_Eq ''UserID'' (VStr userID)])) (w_db w))"

definition FindActiveSessionsByUserID ::
  "'db storm \<Rightarrow> string \<Rightarrow> 'db world \<Rightarrow> (err + session list) \<times> 'db world" where
  "FindActiveSessionsByUserID S userID w =
     (let (now, w') = Now w
      in (found_list ''could not find sessions by user id''
            (b_find (st_sessions S)
               (q_OrderBy [''CreatedAt'']
                  (q_Select [q_Eq ''UserID'' (VStr userID), q_Gt ''ExpireAt'' (VTime now)]))
               (w_db w')), w'))"

subsection \<open>Items\<close>

definition FindItem :: "'db storm \<Rightarrow> string \<Rightarrow> 'db world \<Rightarrow> err + item" where
  "FindItem S i w =
     wrap_left ''could not find item'' (b_one (st_items S) ''ID'' (VStr i) (w_db w))"

definition FindItemByUserID :: "'db storm \<Rightarrow> string \<Rightarrow> string \<Rightarrow> 'db world \<Rightarrow> err + item" where
  "FindItemByUserID S i userID w =
     wrap_left ''could not find item by user id''
       (b_first (st_items S) [q_Eq ''ID'' (VStr i), q_Eq ''UserID'' (VStr userID)] (w_db w))"

definition items_query :: "string \<Rightarrow> string \<Rightarrow> time \<Rightarrow> bool \<Rightarrow> bool \<Rightarrow> matcher list" where
  "items_query userID contentType updated strictTime noDeleted =
     [q_Eq ''UserID'' (VStr userID)]
     @ (if \<not> IsZero updated
        then [if strictTime then q_Gt ''UpdatedAt'' (VTime updated) else q_Gte ''UpdatedAt'' (VTime updated)]
        else [])
     @ (if contentType \<noteq> [] then [q_Eq ''ContentType'' (VStr contentType)] else [])
     @ (if noDeleted then [q_Eq ''Deleted'' (VBool False)] else [])"

text \<open>
  The slice \<open>items[:limit]\<close> panics for a negative limit, which the length of the result always
  exceeds; the limit sent to the library is one more than asked, at 64 bits.
\<close>

definition FindItemsByParams ::
  "'db storm \<Rightarrow> string \<Rightarrow> string \<Rightarrow> time \<Rightarrow> bool \<Rightarrow> bool \<Rightarrow> int \<Rightarrow> 'db world
   \<Rightarrow> (err, item list \<times> bool) outcome" where
  "FindItemsByParams S userID contentType updated strictTime noDeleted limit w =
     (let stmt0 = q_Reverse (q_OrderBy [''UpdatedAt'']
                    (q_Select (items_query userID contentType updated strictTime noDeleted)));
          stmt = (if 0 < limit then q_Limit (wrap64 (limit + 1)) stmt0 else stmt0)
      in case found_list ''could not find items'' (b_find (st_items S) stmt (w_db w)) of
           Inl e \<Rightarrow> Err e
         | Inr items \<Rightarrow>
             if limit \<noteq> 0 \<and> limit < int (length items)
             then (if limit < 0 then Panic ''slice bounds out of range''
                   else Ok (take (nat limit) items, True))
             else Ok (items, False))"

definition FindItemsForIntegrityCheck :: "'db storm \<Rightarrow> string \<Rightarrow> 'db world \<Rightarrow> err + item list" where
  "FindItemsForIntegrityCheck S userID w =
     found_list ''could not find items''
       (b_find (st_items S)
          (q_Select [q_Eq ''UserID'' (VStr userID), q_Eq ''Deleted'' (VBool False),
                     q_Not (q_Eq ''ContentType'' VNil)]) (w_db w))"

definition DeleteItem :: "'db storm \<Rightarrow> string \<Rightarrow> string \<Rightarrow> 'db world \<Rightarrow> err option \<times> 'db world" where
  "DeleteItem S i userID w =
     (case b_delete (st_items S) [q_Eq ''ID'' (VStr i), q_Eq ''UserID'' (VStr userID)] (w_db w) of
        Inl e \<Rightarrow> (Some (Wrap ''could not delete item'' e), w)
      | Inr d \<Rightarrow> (None, w\<lparr>w_db := d\<rparr>))"

subsection \<open>PKCE challenges\<close>

definition FindPKCE :: "'db storm \<Rightarrow> string \<Rightarrow> 'db world \<Rightarrow> err + pkce" where
  "FindPKCE S codeChallenge w =
     wrap_left ''could not find pkce''
       (b_first (st_pkces S) [q_Eq ''CodeChallenge'' (VStr codeChallenge)] (w_db w))"

definition RevokeExpiredChallenges :: "'db storm \<Rightarrow> 'db world \<Rightarrow> err option \<times> 'db world" where
  "RevokeExpiredChallenges S w =
     (let (now, w1) = Now w
      in case b_delete (st_pkces S) [q_Lte ''ExpireAt'' (VTime now)] (w_db w1) of
           Inl e \<Rightarrow> (if IsNotFound (Some e) then None
                     else Some (Wrap ''could not delete expired challenges'' e), w1)
         | Inr d \<Rightarrow> (None, w1\<lparr>w_db := d\<rparr>))"

definition RemovePKCE :: "'db storm \<Rightarrow> string \<Rightarrow> 'db world \<Rightarrow> err option \<times> 'db world" where
  "RemovePKCE S codeChallenge w =
     (case b_delete (st_pkces S) [q_Eq ''CodeChallenge'' (VStr codeChallenge)] (w_db w) of
        Inl e \<Rightarrow> (Some (Wrap ''Could not delete challenge'' e), w)
      | Inr d \<Rightarrow> (None, w\<lparr>w_db := d\<rparr>))"

subsection \<open>What saving and deleting do\<close>

text \<open>The model as \<open>Save\<close> leaves it.\<close>

definition stamped :: "'a base_scheme \<Rightarrow> 'db world \<Rightarrow> 'a base_scheme" where
  "stamped m w =
     (let t = w_clock w (w_ticks w)
      in if ID m = [] then m\<lparr>ID := w_uuid w (w_uuids w), CreatedAt := Some t, UpdatedAt := Some t\<rparr>
         else m\<lparr>UpdatedAt := Some t\<rparr>)"

lemma UpdatedAt_stamped [simp]: "UpdatedAt (stamped m w) = Some (w_clock w (w_ticks w))"
  by (simp add: stamped_def Let_def)

lemma ID_stamped: "ID (stamped m w) = (if ID m = [] then w_uuid w (w_uuids w) else ID m)"
  by (simp add: stamped_def Let_def)

lemma item_stamped [simp]:
  "it_UserID (stamped i w) = it_UserID i" "it_Content (stamped i w) = it_Content i"
  "it_EncryptedItemKey (stamped i w) = it_EncryptedItemKey i" "it_Deleted (stamped i w) = it_Deleted i"
  "it_ContentType (stamped i w) = it_ContentType i" "it_ItemsKeyID (stamped i w) = it_ItemsKeyID i"
  by (simp_all add: stamped_def Let_def)

lemma pkce_stamped [simp]:
  "pk_CodeChallenge (stamped p w) = pk_CodeChallenge p" "pk_ExpireAt (stamped p w) = pk_ExpireAt p"
  by (simp_all add: stamped_def Let_def)

lemma session_stamped [simp]:
  "se_UserID (stamped s w) = se_UserID s" "se_ExpireAt (stamped s w) = se_ExpireAt s"
  "se_AccessToken (stamped s w) = se_AccessToken s" "se_RefreshToken (stamped s w) = se_RefreshToken s"
  "se_UserAgent (stamped s w) = se_UserAgent s" "se_APIVersion (stamped s w) = se_APIVersion s"
  "se_Current (stamped s w) = se_Current s"
  by (simp_all add: stamped_def Let_def)

lemma user_stamped [simp]:
  "us_Email (stamped u w) = us_Email u" "us_Password (stamped u w) = us_Password u"
  "us_Version (stamped u w) = us_Version u" "us_PasswordUpdatedAt (stamped u w) = us_PasswordUpdatedAt u"
  "us_PasswordCost (stamped u w) = us_PasswordCost u" "us_PasswordNonce (stamped u w) = us_PasswordNonce u"
  "us_PasswordSalt (stamped u w) = us_PasswordSalt u" "us_PasswordAuth (stamped u w) = us_PasswordAuth u"
  by (simp_all add: stamped_def Let_def)

definition same_sources :: "'db world \<Rightarrow> 'db world \<Rightarrow> bool" where
  "same_sources w w' \<longleftrightarrow>
     w_clock w' = w_clock w \<and> w_uuid w' = w_uuid w \<and> w_rand w' = w_rand w \<and> w_prng w' = w_prng w
     \<and> w_ticks w \<le> w_ticks w' \<and> w_uuids w \<le> w_uuids w'"

lemma same_sources_refl [simp]: "same_sources w w"
  by (simp add: same_sources_def)

lemma same_sources_trans: "same_sources u v \<Longrightarrow> same_sources v w \<Longrightarrow> same_sources u w"
  by (auto simp: same_sources_def)

lemma same_sources_Now [simp]: "same_sources w (snd (Now w))"
  by (simp add: same_sources_def Now_def)

lemma Save_result:
  assumes "Save B m w = (m', e, w')"
  shows "m' = stamped m w" and "w_ticks w' = Suc (w_ticks w)" and "same_sources w w'"
    and "e = None \<Longrightarrow> b_save B m' (w_db w) = Inr (w_db w')"
    and "e = Some x \<Longrightarrow> w_db w' = w_db w
          \<and> (\<exists>e0. x = Wrap ''could not save the model'' e0 \<and> b_save B m' (w_db w) = Inl e0)"
  using assms
  by (auto simp: Save_def Let_def Now_def NewV4_def model_setters stamped_def same_sources_def
      split: if_splits sum.splits)

lemma Delete_result:
  assumes "Delete B m w = (e, w')"
  shows "same_sources w w'" and "w_ticks w' = w_ticks w"
    and "e = None \<Longrightarrow> b_delete_struct B m (w_db w) = Inr (w_db w')"
    and "e = Some x \<Longrightarrow> w' = w
          \<and> (\<exists>e0. x = Wrap ''could not delete the model'' e0 \<and> b_delete_struct B m (w_db w) = Inl e0)"
  using assms by (auto simp: Delete_def same_sources_def split: sum.splits)

context bucket
begin

lemma Save_rows:
  "Save B m w = (m', None, w') \<Longrightarrow>
     rows (w_db w') = insert (persist m') {x \<in> rows (w_db w). ID x \<noteq> ID m'}"
  using Save_result(4) [of B m w m' None w'] save_ok by simp

lemma Save_rows_failed: "Save B m w = (m', Some e, w') \<Longrightarrow> rows (w_db w') = rows (w_db w)"
  using Save_result(5) [of B m w m' "Some e" w' e] by simp

lemma Save_other_rows:
  "Save B m w = (m', e, w') \<Longrightarrow> x \<in> rows (w_db w) \<Longrightarrow> ID x \<noteq> ID m' \<Longrightarrow> x \<in> rows (w_db w')"
  by (cases e) (auto simp: Save_rows Save_rows_failed)

lemma Save_new_rows:
  "Save B m w = (m', e, w') \<Longrightarrow> x \<in> rows (w_db w') \<Longrightarrow> x \<in> rows (w_db w) \<or> (e = None \<and> x = persist m')"
  by (cases e) (auto simp: Save_rows Save_rows_failed)

lemma Delete_rows:
  "Delete B m w = (None, w') \<Longrightarrow> rows (w_db w') = {x \<in> rows (w_db w). ID x \<noteq> ID m}"
  using Delete_result(3) [of B m w None w'] delete_struct_ok by simp

lemma Delete_subset: "Delete B m w = (e, w') \<Longrightarrow> rows (w_db w') \<subseteq> rows (w_db w)"
  using Delete_result(4) [of B m w e w'] by (cases e) (auto simp: Delete_rows)

end

lemma writes_Save: "Save B m w = (m', None, w') \<Longrightarrow> writes B (w_db w) (w_db w')"
  using Save_result(4) [of B m w m' None w'] by (auto intro: writesI)

lemma writes_Delete: "Delete B m w = (None, w') \<Longrightarrow> writes B (w_db w) (w_db w')"
  using Delete_result(3) [of B m w None w'] by (auto intro: writesI)

subsection \<open>What the queries return\<close>

lemma found_list_Inr:
  "found_list msg r = Inr xs \<longleftrightarrow>
     r = Inr xs \<or> (xs = [] \<and> (\<exists>e. r = Inl e \<and> Cause e = ErrNotFound))"
  by (auto simp: found_list_def IsNotFound_def split: sum.splits)

text \<open>
  The specification of \<open>FindItemsByParams\<close>: which items a query wants, and how a page is cut from
  them.
\<close>

definition wanted :: "string \<Rightarrow> string \<Rightarrow> time \<Rightarrow> bool \<Rightarrow> bool \<Rightarrow> item \<Rightarrow> bool" where
  "wanted userID contentType updated strictTime noDeleted i \<longleftrightarrow>
     it_UserID i = userID
     \<and> (IsZero updated \<or> (case UpdatedAt i of None \<Rightarrow> False
                           | Some t \<Rightarrow> if strictTime then updated < t else updated \<le> t))
     \<and> (contentType = [] \<or> it_ContentType i = contentType)
     \<and> (noDeleted \<longrightarrow> \<not> it_Deleted i)"

definition newest_first :: "item list \<Rightarrow> bool" where
  "newest_first is \<longleftrightarrow> sorted (rev (map (\<lambda>i. opt_time (UpdatedAt i)) is))"

definition page_of :: "int \<Rightarrow> item list \<Rightarrow> item list" where
  "page_of limit is = (if 0 < limit then take (nat limit) is else is)"

lemma matches_items_query:
  "matches_all re (item_field i) (items_query u ct t strict nodel) \<longleftrightarrow> wanted u ct t strict nodel i"
  by (auto simp: items_query_def wanted_def field_defs opt_time_def split: option.splits)

lemma ordered_items:
  "q_orderby q = [''UpdatedAt''] \<Longrightarrow> q_reverse q \<Longrightarrow> ordered item_field q is \<Longrightarrow> newest_first is"
proof -
  assume q: "q_orderby q = [''UpdatedAt'']" "q_reverse q" "ordered item_field q is"
  have key: "order_key item_field [''UpdatedAt''] = (\<lambda>i. [opt_time (UpdatedAt i)])"
    by (rule ext) (simp add: order_key_def field_defs)
  show ?thesis
    using q by (auto simp: ordered_def newest_first_def key sorted_wrt_map sorted_wrt_rev le_less)
qed

context store
begin

lemma FindUser_Inr: "FindUser S i w = Inr u \<Longrightarrow> u \<in> v_users V (w_db w) \<and> ID u = i"
  by (auto simp: FindUser_def field_defs dest!: users.one_ok)

lemma FindUserByMail_Inr:
  "FindUserByMail S m w = Inr u \<Longrightarrow> u \<in> v_users V (w_db w) \<and> us_Email u = m"
  by (auto simp: FindUserByMail_def field_defs dest!: users.one_ok)

lemma FindUserByMail_missing:
  "FindUserByMail S m w = Inl e \<Longrightarrow> IsNotFound (Some e) \<Longrightarrow> u \<in> v_users V (w_db w) \<Longrightarrow> us_Email u \<noteq> m"
  by (auto simp: FindUserByMail_def field_defs IsNotFound_def dest: users.one_missing)

lemma FindSessionByUserID_Inr:
  "FindSessionByUserID S i u w = Inr s \<Longrightarrow> s \<in> v_sessions V (w_db w) \<and> ID s = i \<and> se_UserID s = u"
  by (auto simp: FindSessionByUserID_def field_defs dest!: sessions.first_ok)

lemma FindSessionByAccessToken_Inr:
  "FindSessionByAccessToken S i a w = Inr s \<Longrightarrow>
     s \<in> v_sessions V (w_db w) \<and> ID s = i \<and> se_AccessToken s = a"
  by (auto simp: FindSessionByAccessToken_def field_defs dest!: sessions.first_ok)

lemma FindSessionByAccessToken_missing:
  "FindSessionByAccessToken S i a w = Inl e \<Longrightarrow> IsNotFound (Some e) \<Longrightarrow>
     s \<in> v_sessions V (w_db w) \<Longrightarrow> \<not> (ID s = i \<and> se_AccessToken s = a)"
  by (auto simp: FindSessionByAccessToken_def field_defs IsNotFound_def dest: sessions.first_missing)

lemma FindSessionByTokens_Inr:
  "FindSessionByTokens S i a r w = Inr s \<Longrightarrow>
     s \<in> v_sessions V (w_db w) \<and> ID s = i \<and> se_AccessToken s = a \<and> se_RefreshToken s = r"
  by (auto simp: FindSessionByTokens_def field_defs dest!: sessions.first_ok)

lemma FindItemByUserID_Inr:
  "FindItemByUserID S i u w = Inr x \<Longrightarrow> x \<in> v_items V (w_db w) \<and> ID x = i \<and> it_UserID x = u"
  by (auto simp: FindItemByUserID_def field_defs dest!: items.first_ok)

lemma FindItemByUserID_missing:
  "FindItemByUserID S i u w = Inl e \<Longrightarrow> IsNotFound (Some e) \<Longrightarrow> x \<in> v_items V (w_db w) \<Longrightarrow>
     \<not> (ID x = i \<and> it_UserID x = u)"
  by (auto simp: FindItemByUserID_def field_defs IsNotFound_def dest: items.first_missing)

lemma FindPKCE_Inr:
  "FindPKCE S c w = Inr p \<Longrightarrow> p \<in> v_pkces V (w_db w) \<and> pk_CodeChallenge p = c"
  by (auto simp: FindPKCE_def field_defs dest!: pkces.first_ok)

lemma FindPKCE_missing:
  "FindPKCE S c w = Inl e \<Longrightarrow> IsNotFound (Some e) \<Longrightarrow> p \<in> v_pkces V (w_db w) \<Longrightarrow> pk_CodeChallenge p \<noteq> c"
  by (auto simp: FindPKCE_def field_defs IsNotFound_def dest: pkces.first_missing)

lemma FindSessionsByUserID_Inr:
  assumes "FindSessionsByUserID S u w = Inr ss"
  shows "set ss = {s \<in> v_sessions V (w_db w). se_UserID s = u} \<and> distinct ss"
proof -
  let ?q = "q_OrderBy [''CreatedAt''] (q_Select [q_Eq ''UserID'' (VStr u)])"
  have m: "matches_all re (session_field s) (q_where ?q) \<longleftrightarrow> se_UserID s = u" for s re
    by (simp add: query_defs field_defs)
  from assms consider "b_find (st_sessions S) ?q (w_db w) = Inr ss"
    | e where "ss = []" "b_find (st_sessions S) ?q (w_db w) = Inl e" "Cause e = ErrNotFound"
    by (auto simp: FindSessionsByUserID_def found_list_Inr)
  then show ?thesis
  proof cases
    case 1
    then show ?thesis using sessions.find_complete [OF 1] by (simp add: m) (simp add: query_defs)
  next
    case 2
    then show ?thesis using sessions.find_missing [OF 2(2,3)] by (simp add: m) (simp add: query_defs)
  qed
qed

lemma FindActiveSessionsByUserID_Inr:
  assumes "FindActiveSessionsByUserID S u w = (Inr ss, w')"
  shows "set ss = {s \<in> v_sessions V (w_db w). se_UserID s = u \<and> w_clock w (w_ticks w) < se_ExpireAt s}
         \<and> distinct ss \<and> w' = snd (Now w)"
proof -
  let ?q = "q_OrderBy [''CreatedAt''] (q_Select [q_Eq ''UserID'' (VStr u),
      q_Gt ''ExpireAt'' (VTime (w_clock w (w_ticks w)))])"
  have m: "matches_all re (session_field s) (q_where ?q)
      \<longleftrightarrow> se_UserID s = u \<and> w_clock w (w_ticks w) < se_ExpireAt s" for s re
    by (simp add: query_defs field_defs)
  have q: "limit_ok ?q" "q_limit ?q = None" "q_skip ?q = 0" by (simp_all add: query_defs limit_ok_def)
  from assms consider "b_find (st_sessions S) ?q (w_db w) = Inr ss"
    | e where "ss = []" "b_find (st_sessions S) ?q (w_db w) = Inl e" "Cause e = ErrNotFound"
    by (auto simp: FindActiveSessionsByUserID_def Let_def Now_def found_list_Inr)
  then show ?thesis
  proof cases
    case 1
    then show ?thesis using sessions.find_complete [OF 1 q(2,3)] assms
      by (auto simp: m FindActiveSessionsByUserID_def Let_def Now_def)
  next
    case 2
    then show ?thesis using sessions.find_missing [OF 2(2,3)] q(2,3) assms
      by (auto simp: m FindActiveSessionsByUserID_def Let_def Now_def)
  qed
qed

lemma FindItemsForIntegrityCheck_Inr:
  assumes "FindItemsForIntegrityCheck S u w = Inr is"
  shows "set is = {i \<in> v_items V (w_db w). it_UserID i = u \<and> \<not> it_Deleted i} \<and> distinct is"
proof -
  let ?q = "q_Select [q_Eq ''UserID'' (VStr u), q_Eq ''Deleted'' (VBool False),
                      q_Not (q_Eq ''ContentType'' VNil)]"
  have m: "matches_all re (item_field i) (q_where ?q) \<longleftrightarrow> it_UserID i = u \<and> \<not> it_Deleted i" for i re
    by (simp add: query_defs field_defs)
  have q: "limit_ok ?q" "q_limit ?q = None" "q_skip ?q = 0" by (simp_all add: query_defs limit_ok_def)
  from assms consider "b_find (st_items S) ?q (w_db w) = Inr is"
    | e where "is = []" "b_find (st_items S) ?q (w_db w) = Inl e" "Cause e = ErrNotFound"
    by (auto simp: FindItemsForIntegrityCheck_def found_list_Inr)
  then show ?thesis
  proof cases
    case 1
    then show ?thesis using items.find_complete [OF 1 q(2,3)] by (simp add: m)
  next
    case 2
    then show ?thesis using items.find_missing [OF 2(2,3)] q(2,3) by (simp add: m)
  qed
qed

lemma FindItemsByParams_Ok:
  assumes "FindItemsByParams S u ct t strict nodel limit w = Ok (is, over)" and "limit < int64_max"
  obtains full where "set full = {i \<in> v_items V (w_db w). wanted u ct t strict nodel i}"
    and "distinct full" and "newest_first full" and "is = page_of limit full"
    and "over \<longleftrightarrow> 0 < limit \<and> limit < int (length full)" and "0 \<le> limit \<or> full = []"
proof -
  let ?ms = "items_query u ct t strict nodel"
  let ?q0 = "q_Reverse (q_OrderBy [''UpdatedAt''] (q_Select ?ms))"
  define q where "q = (if 0 < limit then q_Limit (wrap64 (limit + 1)) ?q0 else ?q0)"
  have wrap: "wrap64 (limit + 1) = limit + 1" if "0 < limit"
    by (rule wrap64_id) (use assms(2) that in \<open>simp add: in_int64_def int64_min_def int64_max_def\<close>)
  have q: "limit_ok q" "q_skip q = 0" "q_where q = ?ms" "q_orderby q = [''UpdatedAt'']" "q_reverse q"
      "q_limit q = (if 0 < limit then Some (limit + 1) else None)"
    by (auto simp: q_def query_defs limit_ok_def wrap)
  define found where "found = found_list ''could not find items'' (b_find (st_items S) q (w_db w))"
  have res: "(case found of Inl e \<Rightarrow> Err e
         | Inr xs \<Rightarrow> if limit \<noteq> 0 \<and> limit < int (length xs)
             then (if limit < 0 then Panic ''slice bounds out of range''
                   else Ok (take (nat limit) xs, True))
             else Ok (xs, False)) = Ok (is, over)"
    using assms(1) by (simp add: FindItemsByParams_def found_def q_def Let_def)
  have "\<exists>xs. found = Inr xs" using res by (cases found) auto
  then obtain xs where xs: "found = Inr xs" by blast
  have "\<exists>full. set full = {i \<in> v_items V (w_db w). wanted u ct t strict nodel i}
      \<and> distinct full \<and> newest_first full \<and> xs = window q full"
  proof (cases "b_find (st_items S) q (w_db w)")
    case (Inr ys)
    then have "xs = ys" using xs by (simp add: found_def found_list_def)
    with items.find_ok [OF Inr q(1)] show ?thesis
      using ordered_items [OF q(4,5)] by (auto simp: q(3) matches_items_query)
  next
    case (Inl e)
    then have e: "xs = []" "Cause e = ErrNotFound"
      using xs by (auto simp: found_def found_list_def IsNotFound_def split: if_splits)
    have "{i \<in> v_items V (w_db w). wanted u ct t strict nodel i} = {}"
      using items.find_missing [OF Inl e(2) _ q(2)] q(6) by (simp add: q(3) matches_items_query)
    then show ?thesis using e(1) q(2,6) by (intro exI [of _ "[]"]) (auto simp: newest_first_def window_def)
  qed
  then obtain full where full: "set full = {i \<in> v_items V (w_db w). wanted u ct t strict nodel i}"
      "distinct full" "newest_first full" "xs = window q full" by blast
  have win: "window q full = (if 0 < limit then take (nat (limit + 1)) full else full)"
    using q(2,6) by (simp add: window_def)
  have len: "length (window q full) = (if 0 < limit then min (length full) (nat (limit + 1)) else length full)"
    by (simp add: win)
  have xs_eq: "xs = (if 0 < limit then take (nat (limit + 1)) full else full)"
    using full(4) win by simp
  show thesis
  proof (cases "limit \<noteq> 0 \<and> limit < int (length xs)")
    case True
    then have "0 < limit" and "is = take (nat limit) xs" and "over"
      using res xs by (auto split: if_splits)
    then show thesis using True xs_eq
      by (intro that [OF full(1-3)]) (auto simp: page_of_def min_def split: if_splits)
  next
    case False
    then have "is = xs" and "\<not> over" using res xs by auto
    then show thesis using False xs_eq
      by (intro that [OF full(1-3)]) (auto simp: page_of_def split: if_splits)
  qed
qed

lemma RevokeExpired_None:
  assumes "RevokeExpiredChallenges S w = (None, w')"
  shows "v_pkces V (w_db w') = {p \<in> v_pkces V (w_db w). w_clock w (w_ticks w) < pk_ExpireAt p}"
proof -
  let ?t = "w_clock w (w_ticks w)"
  have m: "matches_all re (pkce_field p) [q_Lte ''ExpireAt'' (VTime ?t)] \<longleftrightarrow> pk_ExpireAt p \<le> ?t" for p re
    by (simp add: field_defs)
  show ?thesis
  proof (cases "b_delete (st_pkces S) [q_Lte ''ExpireAt'' (VTime ?t)] (w_db w)")
    case (Inl e)
    with assms have "Cause e = ErrNotFound" and "w_db w' = w_db w"
      by (auto simp: RevokeExpiredChallenges_def Now_def IsNotFound_def split: if_splits)
    with pkces.delete_missing [OF Inl] show ?thesis unfolding m by (auto simp: not_le)
  next
    case (Inr d)
    with assms have "w_db w' = d" by (auto simp: RevokeExpiredChallenges_def Now_def)
    with pkces.delete_ok [OF Inr] show ?thesis unfolding m by (auto simp: not_le)
  qed
qed

lemma RevokeExpired_sources: "RevokeExpiredChallenges S w = (e, w') \<Longrightarrow>
    same_sources w w' \<and> w_ticks w' = Suc (w_ticks w)"
  by (auto simp: RevokeExpiredChallenges_def Now_def same_sources_def split: sum.splits)

lemma RevokeExpired_Some: "RevokeExpiredChallenges S w = (Some e, w') \<Longrightarrow> w_db w' = w_db w"
  by (auto simp: RevokeExpiredChallenges_def Now_def split: sum.splits if_splits)

text \<open>The two challenge deletions touch nothing but the challenges.\<close>

lemma pkce_writes_frame:
  assumes "d' = d \<or> writes (st_pkces S) d d'"
  shows "v_users V d' = v_users V d" "v_items V d' = v_items V d" "v_sessions V d' = v_sessions V d"
  using assms frame_pkces [of d d'] by blast+

lemma RevokeExpired_writes:
  "RevokeExpiredChallenges S w = (e, w') \<Longrightarrow> w_db w' = w_db w \<or> writes (st_pkces S) (w_db w) (w_db w')"
  by (auto simp: RevokeExpiredChallenges_def Now_def intro: writesI split: sum.splits)

lemmas RevokeExpired_frame = pkce_writes_frame [OF RevokeExpired_writes]

lemma RemovePKCE_writes:
  "RemovePKCE S c w = (e, w') \<Longrightarrow> w_db w' = w_db w \<or> writes (st_pkces S) (w_db w) (w_db w')"
  by (auto simp: RemovePKCE_def intro: writesI split: sum.splits)

lemmas RemovePKCE_frame = pkce_writes_frame [OF RemovePKCE_writes]

lemma RemovePKCE_sources: "RemovePKCE S c w = (e, w') \<Longrightarrow> same_sources w w' \<and> w_ticks w' = w_ticks w"
  by (auto simp: RemovePKCE_def same_sources_def split: sum.splits)

lemma RemovePKCE_None:
  "RemovePKCE S c w = (None, w') \<Longrightarrow>
     v_pkces V (w_db w') = {p \<in> v_pkces V (w_db w). pk_CodeChallenge p \<noteq> c}"
  by (auto simp: RemovePKCE_def field_defs pkces.delete_ok split: sum.splits)

lemma RemovePKCE_found:
  "RemovePKCE S c w = (None, w') \<Longrightarrow> \<exists>p \<in> v_pkces V (w_db w). pk_CodeChallenge p = c"
  by (auto simp: RemovePKCE_def field_defs dest!: pkces.delete_found split: sum.splits)

lemma RemovePKCE_subset:
  assumes "RemovePKCE S c w = (e, w')"
  shows "v_pkces V (w_db w') \<subseteq> v_pkces V (w_db w)"
proof (cases e)
  case None
  then show ?thesis using assms RemovePKCE_None by blast
next
  case (Some x)
  then have "w' = w" using assms by (simp add: RemovePKCE_def split: sum.splits)
  then show ?thesis by simp
qed

end

subsection \<open>Concrete worlds\<close>

text \<open>
  A world over the in-memory engine for concrete runs: a clock that advances by a millisecond at
  every reading, starting at \<open>t0\<close>, and numbered identifiers.
\<close>

definition memory_world :: "time \<Rightarrow> memdb \<Rightarrow> memdb world" where
  "memory_world t0 d =
     \<lparr>w_db = d, w_clock = (\<lambda>n. t0 + 1000000 * int n), w_ticks = 0,
      w_uuid = (\<lambda>n. ''uuid-'' @ itoa (int n)), w_uuids = 0,
      w_rand = (\<lambda>n. 7 * n), w_rands = 0, w_prng = (\<lambda>seed n. n)\<rparr>"

end
