(* ===== verification/Session_Manager.thy ===== *)
theory Session_Manager
  imports Database "HOL-Library.Multiset"
begin

text \<open>
  \<^verbatim>\<open>internal/server/session\<close>: the tokens of a session, its validation and its renewal, and finding the
  user behind a token. PASETO encryption and decryption are library functions, parameters of the
  model (\<open>paseto\<close>); decoding and checking a JWT is done by the middleware before, so a JWT is its
  claims here. The locale \<open>session_validation\<close> is the contract the middleware and the handlers rely
  on: a token is accepted only for a stored, unexpired session.
\<close>

subsection \<open>Tokens\<close>

definition TypeAccessToken :: string where "TypeAccessToken = ''access_token''"
definition TypeRefreshToken :: string where "TypeRefreshToken = ''refresh_token''"

record paseto_claims =
  pc_Issuer :: string
  pc_Audience :: string
  pc_Subject :: string
  pc_Jti :: string
  pc_IssuedAt :: time
  pc_NotBefore :: time
  pc_Expiration :: time

text \<open>Encryption draws a random nonce, the first argument.\<close>

record paseto =
  pt_Encrypt :: "nat \<Rightarrow> bytes \<Rightarrow> paseto_claims \<Rightarrow> bytes \<Rightarrow> err + string"
  pt_Decrypt :: "string \<Rightarrow> bytes \<Rightarrow> err + paseto_claims"

text \<open>
  The claims of a JWT as the decoder leaves them. A number is a float64, of which \<open>CFloat\<close> holds what
  the conversion to \<^verbatim>\<open>int64\<close> yields, or a \<^verbatim>\<open>json.Number\<close>, of which \<open>CJsonNumber\<close> holds what
  \<^verbatim>\<open>Int64()\<close> yields when its error is ignored.
\<close>

datatype claim = CString string | CFloat int | CJsonNumber int | COther

type_synonym jwt_claims = "string \<Rightarrow> claim option"

datatype token = JWTToken jwt_claims | PasetoToken paseto_claims

record manager =
  mg_signingKey :: bytes
  mg_sessionSecret :: bytes
  mg_accessTokenExpirationTime :: duration
  mg_refreshTokenExpirationTime :: duration

definition base58 :: string where
  "base58 = ''123456789ABCDEFGHJKLMNPQRSTUVWXYZabcdefghijkmnopqrstuvwxyz''"

text \<open>
  \<open>Shuffle\<close> of \<^verbatim>\<open>math/rand\<close>: the positions from the last down to 1 are swapped with a drawn one not
  above them; \<open>draw k\<close> is the \<open>k\<close>-th number of the generator.
\<close>

definition swap_at :: "'a list \<Rightarrow> nat \<Rightarrow> nat \<Rightarrow> 'a list" where
  "swap_at xs i j = xs[i := xs ! j, j := xs ! i]"

fun shuffle_from :: "(nat \<Rightarrow> nat) \<Rightarrow> nat \<Rightarrow> 'a list \<Rightarrow> 'a list" where
  "shuffle_from draw 0 xs = xs"
| "shuffle_from draw (Suc i) xs =
     shuffle_from draw i (swap_at xs (Suc i) (draw (length xs - Suc (Suc i)) mod Suc (Suc i)))"

definition shuffle :: "(nat \<Rightarrow> nat) \<Rightarrow> 'a list \<Rightarrow> 'a list" where
  "shuffle draw xs = shuffle_from draw (length xs - 1) xs"

fun pick_chars :: "nat \<Rightarrow> string \<Rightarrow> 'db world \<Rightarrow> string \<times> 'db world" where
  "pick_chars 0 chars w = ([], w)"
| "pick_chars (Suc k) chars w =
     (case rand_Int (length chars) w of
        (n, w1) \<Rightarrow> (case pick_chars k chars w1 of (rest, w2) \<Rightarrow> (chars ! n # rest, w2)))"

text \<open>The length is a natural number: a negative one panics in the code, whose callers all pass 8.\<close>

definition SecureToken :: "nat \<Rightarrow> 'db world \<Rightarrow> string \<times> 'db world" where
  "SecureToken len w =
     (case Now w of
        (now, w1) \<Rightarrow> pick_chars len (shuffle (w_prng w1 (UnixNano now)) base58) w1)"

definition SecureCompare :: "string \<Rightarrow> string \<Rightarrow> bool" where
  "SecureCompare s1 s2 = (s1 = s2)"

subsection \<open>The manager\<close>

definition AccessTokenExprireAt :: "manager \<Rightarrow> session \<Rightarrow> time" where
  "AccessTokenExprireAt m s =
     se_ExpireAt s + (- mg_refreshTokenExpirationTime m) + mg_accessTokenExpirationTime m"

definition session_claims :: "manager \<Rightarrow> session \<Rightarrow> string \<Rightarrow> time \<Rightarrow> paseto_claims" where
  "session_claims m s t now =
     (let iat = se_ExpireAt s + (- mg_refreshTokenExpirationTime m);
          claims = \<lparr>pc_Issuer = ''standardfile'', pc_Audience = t, pc_Subject = ID s, pc_Jti = [],
                    pc_IssuedAt = iat, pc_NotBefore = iat, pc_Expiration = now + (- hours 72)\<rparr>
      in if t = TypeAccessToken
         then claims\<lparr>pc_Jti := se_AccessToken s, pc_Expiration := AccessTokenExprireAt m s\<rparr>
         else if t = TypeRefreshToken
         then claims\<lparr>pc_Jti := se_RefreshToken s, pc_Expiration := se_ExpireAt s\<rparr>
         else claims)"

definition Token :: "paseto \<Rightarrow> manager \<Rightarrow> session \<Rightarrow> string \<Rightarrow> 'db world \<Rightarrow> (err + string) \<times> 'db world" where
  "Token pt m s t w =
     (let (now, w1) = Now w;
          (nonce, w2) = Rand w1
      in (pt_Encrypt pt nonce (mg_sessionSecret m) (session_claims m s t now) [], w2))"

definition ParseToken :: "paseto \<Rightarrow> manager \<Rightarrow> string \<Rightarrow> err + string \<times> string" where
  "ParseToken pt m token =
     (case pt_Decrypt pt token (mg_sessionSecret m) of
        Inl e \<Rightarrow> Inl e
      | Inr claims \<Rightarrow> Inr (pc_Subject claims, pc_Jti claims))"

definition Generate :: "manager \<Rightarrow> 'db world \<Rightarrow> session \<times> 'db world" where
  "Generate m w =
     (let (now, w1) = Now w;
          (access, w2) = SecureToken 8 w1;
          (refresh, w3) = SecureToken 8 w2
      in (\<lparr>ID = [], CreatedAt = None, UpdatedAt = None,
           se_ExpireAt = now + mg_refreshTokenExpirationTime m, se_UserID = [], se_UserAgent = [],
           se_APIVersion = [], se_AccessToken = access, se_RefreshToken = refresh, se_Current = False\<rparr>, w3))"

definition isSessionExpired :: "session \<Rightarrow> 'db world \<Rightarrow> bool \<times> 'db world" where
  "isSessionExpired s w = (let (now, w1) = Now w in (se_ExpireAt s < now, w1))"

definition isAccessTokenExpired :: "manager \<Rightarrow> session \<Rightarrow> 'db world \<Rightarrow> bool \<times> 'db world" where
  "isAccessTokenExpired m s w = (let (now, w1) = Now w in (AccessTokenExprireAt m s < now, w1))"

definition invalid_auth :: "string \<Rightarrow> err" where
  "invalid_auth message = NewWithTagCode 401 ''invalid-auth'' message"

definition Validate ::
  "'db storm \<Rightarrow> manager \<Rightarrow> string \<Rightarrow> string \<Rightarrow> 'db world \<Rightarrow> (err + session) \<times> 'db world" where
  "Validate S m i token w =
     (case FindSessionByAccessToken S i token w of
        Inl e \<Rightarrow>
          (Inl (if IsNotFound (Some e) then invalid_auth ''Invalid login credentials.''
                else Wrap ''could not get access to database'' e), w)
      | Inr s \<Rightarrow>
          (case isSessionExpired s w of
             (True, w1) \<Rightarrow> (Inl (invalid_auth ''Invalid login credentials.''), w1)
           | (False, w1) \<Rightarrow>
               (case isAccessTokenExpired m s w1 of
                  (True, w2) \<Rightarrow>
                    (Inl (NewWithTagCode StatusExpiredAccessToken ''expired-access-token''
                            ''The provided access token has expired.''), w2)
                | (False, w2) \<Rightarrow> (Inr s, w2))))"

text \<open>\<open>Regenerate\<close> changes the session it is given, also when the write fails.\<close>

definition Regenerate ::
  "'db storm \<Rightarrow> manager \<Rightarrow> session \<Rightarrow> 'db world \<Rightarrow> session \<times> err option \<times> 'db world" where
  "Regenerate S m s w =
     (case isSessionExpired s w of
        (True, w1) \<Rightarrow>
          (s, Some (NewWithTagCode 400 ''expired-refresh-token'' ''The refresh token has expired.''), w1)
      | (False, w1) \<Rightarrow>
          (let (access, w2) = SecureToken 8 w1;
               (refresh, w3) = SecureToken 8 w2;
               (now, w4) = Now w3;
               s1 = s\<lparr>se_AccessToken := access, se_RefreshToken := refresh,
                     se_ExpireAt := now + mg_refreshTokenExpirationTime m\<rparr>;
               (s2, e, w5) = Save (st_sessions S) s1 w4
           in (s2, map_option (Wrap ''could not save session after refreshing session'') e, w5)))"

definition find_token_user :: "'db storm \<Rightarrow> string \<Rightarrow> 'db world \<Rightarrow> err + user" where
  "find_token_user S i w =
     (case FindUser S i w of
        Inl e \<Rightarrow>
          Inl (if IsNotFound (Some e) then invalid_auth ''Invalid login credentials.''
               else Wrap ''could not get access to database'' e)
      | Inr u \<Rightarrow> Inr u)"

definition manager_Paseto ::
  "'db storm \<Rightarrow> manager \<Rightarrow> paseto_claims \<Rightarrow> 'db world \<Rightarrow> (err, user) outcome \<times> 'db world" where
  "manager_Paseto S m token w =
     (case Validate S m (pc_Subject token) (pc_Jti token) w of
        (Inl e, w1) \<Rightarrow> (Err e, w1)
      | (Inr s, w1) \<Rightarrow>
          (case find_token_user S (se_UserID s) w1 of Inl e \<Rightarrow> (Err e, w1) | Inr u \<Rightarrow> (Ok u, w1)))"

text \<open>The claim \<^verbatim>\<open>iat\<close> as an integer; another type of claim panics.\<close>

definition claim_iat :: "claim option \<Rightarrow> int option" where
  "claim_iat c =
     (case c of
        Some (CFloat v) \<Rightarrow> Some v
      | Some (CJsonNumber v) \<Rightarrow> Some v
      | _ \<Rightarrow> None)"

definition manager_JWT :: "'db storm \<Rightarrow> jwt_claims \<Rightarrow> 'db world \<Rightarrow> (err, user) outcome" where
  "manager_JWT S claims w =
     (case claims ''user_uuid'' of
        Some (CString i) \<Rightarrow>
          (case find_token_user S i w of
             Inl e \<Rightarrow> Err e
           | Inr u \<Rightarrow>
               (case claim_iat (claims ''iat'') of
                  None \<Rightarrow> Panic ''unsuported iat underlying type''
                | Some iat \<Rightarrow>
                    if iat < us_PasswordUpdatedAt u then Err (invalid_auth ''Revoked token.'') else Ok u))
      | _ \<Rightarrow> Panic ''interface conversion'')"

definition UserFromToken :: "'db storm \<Rightarrow> manager \<Rightarrow> token \<Rightarrow> 'db world \<Rightarrow> (err, user) outcome \<times> 'db world" where
  "UserFromToken S m token w =
     (case token of
        JWTToken claims \<Rightarrow> (manager_JWT S claims w, w)
      | PasetoToken claims \<Rightarrow> manager_Paseto S m claims w)"

definition UserSupportsJWT :: "user \<Rightarrow> bool" where
  "UserSupportsJWT u = VersionLesser ProtocolVersion4 (us_Version u)"

definition UserSupportsSessions :: "user \<Rightarrow> bool" where
  "UserSupportsSessions u = VersionGreaterOrEqual ProtocolVersion4 (us_Version u)"

subsection \<open>Random tokens\<close>

lemma mset_shuffle_from: "i < length xs \<Longrightarrow> mset (shuffle_from draw i xs) = mset xs"
proof (induction i arbitrary: xs)
  case (Suc i)
  let ?j = "draw (length xs - Suc (Suc i)) mod Suc (Suc i)"
  have "?j < Suc (Suc i)" by simp
  then have "?j < length xs" using Suc.prems by linarith
  then have "mset (swap_at xs (Suc i) ?j) = mset xs"
    unfolding swap_at_def using Suc.prems by (intro mset_swap) auto
  moreover have "length (swap_at xs (Suc i) ?j) = length xs" by (simp add: swap_at_def)
  ultimately show ?case using Suc by simp
qed simp

lemma shuffle_perm: "xs \<noteq> [] \<Longrightarrow> mset (shuffle draw xs) = mset xs"
  by (simp add: shuffle_def mset_shuffle_from)

lemma pick_chars_result:
  "pick_chars k chars w = (t, w') \<Longrightarrow> chars \<noteq> [] \<Longrightarrow>
     length t = k \<and> set t \<subseteq> set chars \<and> w_db w' = w_db w \<and> same_sources w w' \<and> w_ticks w' = w_ticks w"
proof (induction k arbitrary: t w w')
  case (Suc k)
  obtain n w1 where r: "rand_Int (length chars) w = (n, w1)" by force
  obtain t' w2 where p: "pick_chars k chars w1 = (t', w2)" by force
  have "n < length chars" using rand_Int_less [of "length chars" w] r Suc.prems(2) by simp
  moreover have "w_db w1 = w_db w \<and> same_sources w w1 \<and> w_ticks w1 = w_ticks w"
    using r by (auto simp: rand_Int_def same_sources_def)
  ultimately show ?case using Suc.IH [OF p Suc.prems(2)] Suc.prems(1) r p
    by (auto intro: same_sources_trans)
qed simp

lemma SecureToken_result:
  assumes "SecureToken len w = (t, w')"
  shows "length t = len" and "set t \<subseteq> set base58" and "w_db w' = w_db w" and "same_sources w w'"
    and "w_ticks w' = Suc (w_ticks w)"
proof -
  let ?chars = "shuffle (w_prng (snd (Now w)) (UnixNano (w_clock w (w_ticks w)))) base58"
  have perm: "mset ?chars = mset base58" by (rule shuffle_perm) (simp add: base58_def)
  then have "?chars \<noteq> []" by (auto simp: base58_def)
  moreover have "pick_chars len ?chars (snd (Now w)) = (t, w')"
    using assms by (simp add: SecureToken_def Let_def Now_def)
  ultimately have r: "length t = len \<and> set t \<subseteq> set ?chars \<and> w_db w' = w_db (snd (Now w))
      \<and> same_sources (snd (Now w)) w' \<and> w_ticks w' = w_ticks (snd (Now w))"
    by (rule pick_chars_result [rotated])
  have "set ?chars = set base58" using perm by (metis set_mset_mset)
  then show "length t = len" and "set t \<subseteq> set base58" and "w_db w' = w_db w" and "same_sources w w'"
    and "w_ticks w' = Suc (w_ticks w)"
    using r same_sources_trans [OF same_sources_Now] by auto
qed

lemma Generate_result:
  assumes "Generate m w = (s, w')"
  shows "w_db w' = w_db w" and "same_sources w w'" and "ID s = []"
    and "se_ExpireAt s = w_clock w (w_ticks w) + mg_refreshTokenExpirationTime m"
    and "length (se_AccessToken s) = 8" and "length (se_RefreshToken s) = 8"
proof -
  obtain a w2 where a: "SecureToken 8 (snd (Now w)) = (a, w2)" by force
  obtain r w3 where r: "SecureToken 8 w2 = (r, w3)" by force
  have "w' = w3" "se_AccessToken s = a" "se_RefreshToken s = r" "ID s = []"
    "se_ExpireAt s = w_clock w (w_ticks w) + mg_refreshTokenExpirationTime m"
    using assms a r by (auto simp: Generate_def Now_def)
  then show "w_db w' = w_db w" and "same_sources w w'" and "ID s = []"
    and "se_ExpireAt s = w_clock w (w_ticks w) + mg_refreshTokenExpirationTime m"
    and "length (se_AccessToken s) = 8" and "length (se_RefreshToken s) = 8"
    using SecureToken_result [OF a] SecureToken_result [OF r]
      same_sources_trans [OF same_sources_trans [OF same_sources_Now]] by simp_all
qed

subsection \<open>Validation\<close>

lemma Validate_Inr:
  assumes "Validate S m i token w = (Inr s, w')"
  shows "FindSessionByAccessToken S i token w = Inr s" and "w_db w' = w_db w" and "same_sources w w'"
    and "w_clock w (w_ticks w) \<le> se_ExpireAt s" and "w_clock w (Suc (w_ticks w)) \<le> AccessTokenExprireAt m s"
  using assms
  by (auto simp: Validate_def isSessionExpired_def isAccessTokenExpired_def Now_def same_sources_def
      split: sum.splits prod.splits bool.splits)

lemma Validate_frame: "Validate S m i token w = (r, w') \<Longrightarrow> w_db w' = w_db w \<and> same_sources w w'"
  by (auto simp: Validate_def isSessionExpired_def isAccessTokenExpired_def Now_def same_sources_def
      split: sum.splits prod.splits bool.splits)

text \<open>The contract of validation: \<open>live s w\<close> says that the session is stored and not expired.\<close>

locale session_validation =
  fixes validate :: "string \<Rightarrow> string \<Rightarrow> 'db world \<Rightarrow> (err + session) \<times> 'db world"
    and live :: "session \<Rightarrow> 'db world \<Rightarrow> bool"
  assumes accepts: "validate i token w = (Inr s, w') \<Longrightarrow> ID s = i \<and> se_AccessToken s = token \<and> live s w"
    and pure: "validate i token w = (r, w') \<Longrightarrow> w_db w' = w_db w \<and> same_sources w w'"
begin

text \<open>A token that is not the one of a live session is refused, whatever else is presented.\<close>

lemma refuses: "(\<And>s. ID s = i \<Longrightarrow> se_AccessToken s = token \<Longrightarrow> \<not> live s w) \<Longrightarrow>
    \<exists>e w'. validate i token w = (Inl e, w')"
  using accepts by (metis sumE surj_pair)

end

definition live_session :: "'db view \<Rightarrow> session \<Rightarrow> 'db world \<Rightarrow> bool" where
  "live_session V s w \<longleftrightarrow> s \<in> v_sessions V (w_db w) \<and> w_clock w (w_ticks w) \<le> se_ExpireAt s"

sublocale store \<subseteq> validation: session_validation "Validate S m" "live_session V" for m
  by unfold_locales
    (auto simp: live_session_def dest: Validate_Inr FindSessionByAccessToken_Inr Validate_frame)

context store
begin

lemmas Validate_refuses = validation.refuses

lemma Regenerate_rows:
  assumes "Regenerate S m s w = (s', None, w')" and "ID s \<noteq> []"
  shows "v_sessions V (w_db w') = insert (forget_current s') {x \<in> v_sessions V (w_db w). ID x \<noteq> ID s}"
    and "ID s' = ID s" and "se_UserID s' = se_UserID s"
    and "w_clock w (w_ticks w) \<le> se_ExpireAt s"
    and "length (se_AccessToken s') = 8" and "length (se_RefreshToken s') = 8"
    and "SecureToken 8 (snd (Now w)) = (a, w2) \<Longrightarrow> SecureToken 8 w2 = (r, w3) \<Longrightarrow>
      se_AccessToken s' = a \<and> se_RefreshToken s' = r
      \<and> se_ExpireAt s' = w_clock w (w_ticks w + 3) + mg_refreshTokenExpirationTime m"
proof -
  obtain a w2 where a: "SecureToken 8 (snd (Now w)) = (a, w2)" by force
  obtain r w3 where r: "SecureToken 8 w2 = (r, w3)" by force
  let ?s = "s\<lparr>se_AccessToken := a, se_RefreshToken := r,
      se_ExpireAt := w_clock w3 (w_ticks w3) + mg_refreshTokenExpirationTime m\<rparr>"
  have exp: "\<not> se_ExpireAt s < w_clock w (w_ticks w)"
    using assms(1) by (auto simp: Regenerate_def isSessionExpired_def Now_def split: if_splits)
  then have save: "Save (st_sessions S) ?s (snd (Now w3)) = (s', None, w')"
    using assms(1) a r by (auto simp: Regenerate_def isSessionExpired_def Now_def split: prod.splits)
  have s': "s' = stamped ?s (snd (Now w3))" by (rule Save_result(1) [OF save])
  have db: "w_db (snd (Now w3)) = w_db w"
    using SecureToken_result(3) [OF a] SecureToken_result(3) [OF r] by simp
  show "ID s' = ID s" and "se_UserID s' = se_UserID s" using s' assms(2) by (simp_all add: ID_stamped)
  then show "v_sessions V (w_db w') = insert (forget_current s') {x \<in> v_sessions V (w_db w). ID x \<noteq> ID s}"
    using sessions.Save_rows [OF save] db by simp
  show "w_clock w (w_ticks w) \<le> se_ExpireAt s" using exp by simp
  show "length (se_AccessToken s') = 8" and "length (se_RefreshToken s') = 8"
    using s' SecureToken_result(1) [OF a] SecureToken_result(1) [OF r] by simp_all
  have "w_clock w3 (w_ticks w3) = w_clock w (w_ticks w + 3)"
    using SecureToken_result(4,5) [OF a] SecureToken_result(4,5) [OF r]
    by (simp add: same_sources_def Now_def numeral_3_eq_3)
  then show "SecureToken 8 (snd (Now w)) = (a', w2') \<Longrightarrow> SecureToken 8 w2' = (r', w3') \<Longrightarrow>
      se_AccessToken s' = a' \<and> se_RefreshToken s' = r'
      \<and> se_ExpireAt s' = w_clock w (w_ticks w + 3) + mg_refreshTokenExpirationTime m" for a' r' w2' w3'
    using s' a r by simp
qed

text \<open>After a renewal the former access token opens no session and the former pair renews none.\<close>

lemma Regenerate_revokes:
  assumes re: "Regenerate S m s w = (s', None, w')" and "ID s \<noteq> []" and db: "w_db w2 = w_db w'"
    and new: "se_AccessToken s' \<noteq> se_AccessToken s"
  shows "\<exists>e. fst (Validate S m2 (ID s) (se_AccessToken s) w2) = Inl e"
    and "\<exists>e. FindSessionByTokens S (ID s) (se_AccessToken s) (se_RefreshToken s) w2 = Inl e"
proof -
  have only: "x = forget_current s'" if "x \<in> v_sessions V (w_db w2)" and "ID x = ID s" for x
    using that db Regenerate_rows(1) [OF re assms(2)] by simp
  have "\<not> live_session V x w2" if "ID x = ID s" and "se_AccessToken x = se_AccessToken s" for x
  proof
    assume "live_session V x w2"
    then have "x = forget_current s'" using only that(1) by (simp add: live_session_def)
    then have "se_AccessToken x = se_AccessToken s'" by (simp add: forget_current_def)
    then show False using that(2) new by simp
  qed
  then have "\<exists>e w'. Validate S m2 (ID s) (se_AccessToken s) w2 = (Inl e, w')" by (rule Validate_refuses)
  then show "\<exists>e. fst (Validate S m2 (ID s) (se_AccessToken s) w2) = Inl e" by (elim exE) simp
  show "\<exists>e. FindSessionByTokens S (ID s) (se_AccessToken s) (se_RefreshToken s) w2 = Inl e"
  proof (cases "FindSessionByTokens S (ID s) (se_AccessToken s) (se_RefreshToken s) w2")
    case (Inr x)
    from FindSessionByTokens_Inr [OF Inr] only [of x] new show ?thesis by (auto simp: forget_current_def)
  qed simp
qed

lemma find_token_user_Inr:
  "find_token_user S i w = Inr u \<Longrightarrow> u \<in> v_users V (w_db w) \<and> ID u = i"
  by (auto simp: find_token_user_def dest: FindUser_Inr split: sum.splits)

lemma manager_Paseto_Ok:
  assumes "manager_Paseto S m token w = (Ok u, w')"
  shows "\<exists>s. live_session V s w \<and> ID s = pc_Subject token \<and> se_AccessToken s = pc_Jti token
           \<and> u \<in> v_users V (w_db w) \<and> ID u = se_UserID s"
proof -
  obtain s w1 where v: "Validate S m (pc_Subject token) (pc_Jti token) w = (Inr s, w1)"
    and u: "find_token_user S (se_UserID s) w1 = Inr u"
    using assms by (auto simp: manager_Paseto_def split: prod.splits sum.splits)
  show ?thesis using validation.accepts [OF v] validation.pure [OF v] find_token_user_Inr [OF u] by auto
qed

lemma manager_JWT_Ok:
  assumes "manager_JWT S claims w = Ok u"
  shows "u \<in> v_users V (w_db w) \<and> claims ''user_uuid'' = Some (CString (ID u))
    \<and> (\<exists>iat. claim_iat (claims ''iat'') = Some iat \<and> us_PasswordUpdatedAt u \<le> iat)"
  using assms
  by (auto simp: manager_JWT_def dest!: find_token_user_Inr
      split: option.splits claim.splits sum.splits if_splits)

end

subsection \<open>Properties\<close>

text \<open>
  C28. The random tokens have the requested length and consist of base58 characters, whatever the
  seeded shuffle and the random source yield; drawing one leaves the database alone.
\<close>

theorem SecureToken_base58:
  "length (fst (SecureToken len w)) = len \<and> set (fst (SecureToken len w)) \<subseteq> set base58
   \<and> w_db (snd (SecureToken len w)) = w_db w"
  by (cases "SecureToken len w") (simp add: SecureToken_result)

text \<open>
  C17. An access token is accepted only for the stored session with the given ID and this very token,
  which is neither expired nor past the life of its access token at the instants of the check, and
  the check changes nothing.
\<close>

theorem Validate_accepts:
  assumes "store S V" and "Validate S m i token w = (Inr s, w')"
  shows "s \<in> v_sessions V (w_db w) \<and> ID s = i \<and> se_AccessToken s = token
    \<and> w_clock w (w_ticks w) \<le> se_ExpireAt s
    \<and> w_clock w (Suc (w_ticks w)) \<le>
        se_ExpireAt s - mg_refreshTokenExpirationTime m + mg_accessTokenExpirationTime m
    \<and> w_db w' = w_db w"
  using store.FindSessionByAccessToken_Inr [OF assms(1) Validate_Inr(1) [OF assms(2)]]
    Validate_Inr [OF assms(2)] by (simp add: AccessTokenExprireAt_def)

definition example_manager :: manager where
  "example_manager = \<lparr>mg_signingKey = ''key'', mg_sessionSecret = ''secret'',
     mg_accessTokenExpirationTime = hours 1, mg_refreshTokenExpirationTime = hours 24\<rparr>"

definition example_session :: session where
  "example_session = \<lparr>ID = ''s1'', CreatedAt = Some 0, UpdatedAt = Some 0, se_ExpireAt = hours 24 + 5,
     se_UserID = ''alice'', se_UserAgent = [], se_APIVersion = [], se_AccessToken = ''access'',
     se_RefreshToken = ''refresh'', se_Current = False\<rparr>"

definition session_world :: "memdb world" where
  "session_world = memory_world 0 (empty_db\<lparr>md_sessions := [example_session]\<rparr>)"

theorem Validate_accepts_witness:
  "example_session \<in> v_sessions mem_view (w_db session_world)"
proof -
  have "fst (Validate mem_storm example_manager ''s1'' ''access'' session_world) = Inr example_session"
    by code_simp
  from Validate_accepts [OF mem_store pair_fst_eq [OF this]] show ?thesis by blast
qed

text \<open>
  Renewing a session revokes its former tokens: as long as the database stays as the renewal left
  it, the former access token is refused whatever the instant and the settings, and the former pair
  of tokens finds no session to renew, when the drawn access token differs from the former.
\<close>

theorem Regenerate_revokes_former_tokens:
  assumes "store S V" and "Regenerate S m s w = (s', None, w')" and "ID s \<noteq> []" and "w_db w2 = w_db w'"
    and "se_AccessToken s' \<noteq> se_AccessToken s"
  shows "(\<exists>e. fst (Validate S m2 (ID s) (se_AccessToken s) w2) = Inl e)
    \<and> (\<exists>e. FindSessionByTokens S (ID s) (se_AccessToken s) (se_RefreshToken s) w2 = Inl e)"
  using store.Regenerate_revokes [OF assms] by blast

definition renewed :: "session \<times> err option \<times> memdb world" where
  "renewed = Regenerate mem_storm example_manager example_session session_world"

lemma mem_Regenerate_None:
  assumes "\<not> md_broken (w_db w)" and "\<not> se_ExpireAt s < w_clock w (w_ticks w)"
  shows "fst (snd (Regenerate mem_storm m s w)) = None"
proof -
  obtain a w2 where a: "SecureToken 8 (snd (Now w)) = (a, w2)" by force
  obtain r w3 where r: "SecureToken 8 w2 = (r, w3)" by force
  have "w_db w3 = w_db w" using SecureToken_result(3) [OF a] SecureToken_result(3) [OF r] by simp
  then show ?thesis
    using a r assms
    by (simp add: Regenerate_def isSessionExpired_def Now_def Save_def mem_storm_def mem_bucket_def
        no_conflict_def Let_def model_setters NewV4_def)
qed

theorem Regenerate_revokes_former_tokens_witness:
  "\<exists>e. fst (Validate mem_storm example_manager ''s1'' ''access'' (snd (snd renewed))) = Inl e"
proof -
  have none: "fst (snd renewed) = None"
    unfolding renewed_def by (rule mem_Regenerate_None)
      (simp_all add: session_world_def memory_world_def empty_db_def example_session_def hours_def)
  then have "Regenerate mem_storm example_manager example_session session_world
      = (fst renewed, None, snd (snd renewed))" by (metis renewed_def prod.collapse)
  moreover have "length (se_AccessToken (fst renewed)) = 8"
    using mem.Regenerate_rows(5) [OF calculation] by (simp add: example_session_def)
  then have "se_AccessToken (fst renewed) \<noteq> se_AccessToken example_session"
    by (auto simp: example_session_def)
  ultimately show ?thesis
    using Regenerate_revokes_former_tokens [OF mem_store, of example_manager example_session session_world
        "fst renewed" "snd (snd renewed)" "snd (snd renewed)" example_manager]
    by (simp add: example_session_def)
qed

text \<open>
  C18. A JWT is accepted only for the stored user it names, and only when it was issued in or after the
  second of the user's last password change.
\<close>

theorem JWT_accepts:
  assumes "store S V" and "manager_JWT S claims w = Ok u"
  shows "u \<in> v_users V (w_db w) \<and> claims ''user_uuid'' = Some (CString (ID u))
    \<and> (\<exists>iat. claim_iat (claims ''iat'') = Some iat \<and> us_PasswordUpdatedAt u \<le> iat)"
  using store.manager_JWT_Ok [OF assms] .

definition jwt_world :: "memdb world" where
  "jwt_world = memory_world 0 (empty_db\<lparr>md_users := [model_NewUser\<lparr>ID := ''alice'', us_PasswordUpdatedAt := 50\<rparr>]\<rparr>)"

definition jwt_example :: jwt_claims where
  "jwt_example = [''user_uuid'' \<mapsto> CString ''alice'', ''iat'' \<mapsto> CFloat 60]"

theorem JWT_accepts_witness:
  "model_NewUser\<lparr>ID := ''alice'', us_PasswordUpdatedAt := 50\<rparr> \<in> v_users mem_view (w_db jwt_world)"
proof -
  have "manager_JWT mem_storm jwt_example jwt_world
      = Ok (model_NewUser\<lparr>ID := ''alice'', us_PasswordUpdatedAt := 50\<rparr>)" by code_simp
  from JWT_accepts [OF mem_store this] show ?thesis by blast
qed

end
