(* ===== verification/Service.thy ===== *)
theory Service
  imports Session_Manager
begin

text \<open>
  \<^verbatim>\<open>internal/server/service/service.go\<close> and \<^verbatim>\<open>internal/server/serializer\<close>: the parameters every
  request has, JSON payloads and how records are rendered. A payload built as a Go map is an object
  with the keys in the order they are set; encoding sorts them, so their order has no meaning.
\<close>

record params =
  pa_APIVersion :: string
  pa_UserAgent :: string
  pa_Session :: "session option"

datatype json =
    JNull
  | JBool bool
  | JInt int
  | JStr string
  | JTime time
  | JBytes bytes
  | JList "json list"
  | JObj "(string \<times> json) list"

type_synonym M = "(string \<times> json) list"

text \<open>\<open>m[k] = v\<close>.\<close>

definition m_set :: "string \<Rightarrow> json \<Rightarrow> M \<Rightarrow> M" where
  "m_set k v m = filter (\<lambda>p. fst p \<noteq> k) m @ [(k, v)]"

lemma map_of_m_set: "map_of (m_set k v m) x = (if x = k then Some v else map_of m x)"
proof -
  have "map_of (filter (\<lambda>p. fst p \<noteq> k) m) x = (if x = k then None else map_of m x)"
    by (induction m) auto
  then show ?thesis by (simp add: m_set_def map_add_def split: option.splits)
qed

fun obj_field :: "json \<Rightarrow> string \<Rightarrow> json option" where
  "obj_field (JObj m) k = map_of m k"
| "obj_field _ k = None"

text \<open>The JSON of an \<^verbatim>\<open>sferror.SFError\<close>; the tag is left out when empty.\<close>

definition sferror_json :: "err \<Rightarrow> json" where
  "sferror_json e =
     (case e of
        SFError code tag message \<Rightarrow>
          JObj [(''error'', JObj ((if tag = [] then [] else [(''tag'', JStr tag)]) @ [(''message'', JStr message)]))]
      | _ \<Rightarrow> JNull)"

subsection \<open>Serializers\<close>

text \<open>A nil date panics: \<open>m.CreatedAt.UTC()\<close> dereferences it.\<close>

definition serializer_User :: "user \<Rightarrow> (err, json) outcome" where
  "serializer_User u =
     (case (CreatedAt u, UpdatedAt u) of
        (Some created, Some updated) \<Rightarrow>
          Ok (JObj
            ([(''uuid'', JStr (ID u)), (''created_at'', JTime created), (''updated_at'', JTime updated),
              (''email'', JStr (us_Email u)), (''version'', JStr (us_Version u)),
              (''pw_cost'', JInt (us_PasswordCost u))]
             @ (if us_Version u = ProtocolVersion2
                then [(''pw_salt'', JStr (us_PasswordSalt u)), (''pw_auth'', JStr (us_PasswordAuth u))]
                else if us_Version u = ProtocolVersion3 \<or> us_Version u = ProtocolVersion4
                then [(''pw_nonce'', JStr (us_PasswordNonce u))]
                else [])))
      | _ \<Rightarrow> Panic ''nil pointer dereference'')"

definition serializer_Session :: "session \<Rightarrow> (err, json) outcome" where
  "serializer_Session s =
     (case (CreatedAt s, UpdatedAt s) of
        (Some created, Some updated) \<Rightarrow>
          Ok (JObj [(''uuid'', JStr (ID s)), (''created_at'', JTime created), (''updated_at'', JTime updated),
                    (''api_version'', JStr (se_APIVersion s)), (''user_agent'', JStr (se_UserAgent s)),
                    (''current'', JBool (se_Current s))])
      | _ \<Rightarrow> Panic ''nil pointer dereference'')"

fun serialize_all :: "session list \<Rightarrow> (err, json list) outcome" where
  "serialize_all [] = Ok []"
| "serialize_all (s # ss) =
     (case serializer_Session s of
        Err e \<Rightarrow> Err e
      | Panic m \<Rightarrow> Panic m
      | Ok j \<Rightarrow> map_outcome_value ((#) j) (serialize_all ss))"

definition serializer_Sessions :: "session list \<Rightarrow> (err, json) outcome" where
  "serializer_Sessions ss = map_outcome_value JList (serialize_all ss)"

lemma serialize_all_Ok:
  "serialize_all ss = Ok js \<Longrightarrow> length js = length ss \<and> (\<forall>i < length ss. serializer_Session (ss ! i) = Ok (js ! i))"
proof (induction ss arbitrary: js)
  case (Cons s ss)
  then obtain j rest where "serializer_Session s = Ok j" "serialize_all ss = Ok rest" "js = j # rest"
    by (auto split: outcome.splits)
  then show ?case using Cons.IH by (auto simp: less_Suc_eq_0_disj)
qed simp

end
