(* ===== verification/Sync_Base.thy ===== *)
theory Sync_Base
  imports Service "HOL-Library.Multiset"
begin

text \<open>
  \<^verbatim>\<open>internal/server/service/sync.go\<close>: the parameters of a request and what the two
  synchronisation services share: fetching the items a client has not seen, the data signature, and
  clearing a deleted item, together with the cursor and sync tokens, which both services compute
  with the same statements.
\<close>

text \<open>
  The items of a request are pointers in the code. A \<^verbatim>\<open>null\<close> among them in the JSON body is a nil pointer, which the
  saving loops dereference (\<^verbatim>\<open>incomingItem.UserID\<close>, \<^verbatim>\<open>item.UserID\<close>): the request panics there, after the items
  before it were saved. Such bodies are left out: the items are a list of items.
\<close>

record sync_params = params +
  sp_ComputeIntegrity :: bool
  sp_Limit :: int
  sp_SyncToken :: string
  sp_CursorToken :: string
  sp_ContentType :: string
  sp_Items :: "item list"

text \<open>
  \<open>get\<close> clears the limit of a first synchronisation in the service's own parameters, which the
  caller reads later, so the parameters are part of the result. A cursor token takes precedence over
  a sync token; a cursor asks for items not older than it, a sync token for strictly newer ones, and
  a request with neither leaves out the deleted items.
\<close>

definition sync_get ::
  "'db storm \<Rightarrow> user \<Rightarrow> sync_params \<Rightarrow> 'db world
   \<Rightarrow> (err, item list \<times> bool) outcome \<times> sync_params \<times> 'db world" where
  "sync_get S u p w =
     (let p1 = (if sp_SyncToken p = [] then p\<lparr>sp_Limit := 0\<rparr> else p);
          find = (\<lambda>updated strict noDeleted w1.
                    (FindItemsByParams S (ID u) (sp_ContentType p1) updated strict noDeleted (sp_Limit p1) w1,
                     p1, w1))
      in if sp_CursorToken p1 \<noteq> []
         then (case TimeFromToken (sp_CursorToken p1) w of
                 (Ok updated, w1) \<Rightarrow> find updated False False w1
               | (Err e, w1) \<Rightarrow> (Err e, p1, w1)
               | (Panic m, w1) \<Rightarrow> (Panic m, p1, w1))
         else if sp_SyncToken p1 \<noteq> []
         then (case TimeFromToken (sp_SyncToken p1) w of
                 (Ok updated, w1) \<Rightarrow> find updated True False w1
               | (Err e, w1) \<Rightarrow> (Err e, p1, w1)
               | (Panic m, w1) \<Rightarrow> (Panic m, p1, w1))
         else find zero_time False True w)"

text \<open>The timestamps of the items in milliseconds; a nil pointer dereference is \<open>None\<close>.\<close>

fun item_timestamps :: "item list \<Rightarrow> string list option" where
  "item_timestamps [] = Some []"
| "item_timestamps (i # is) =
     (case UpdatedAt i of
        None \<Rightarrow> None
      | Some t \<Rightarrow> map_option ((#) (itoa (UnixMilli t))) (item_timestamps is))"

text \<open>The timestamps are sorted as strings, greatest first.\<close>

definition computeDataSignature ::
  "(bytes \<Rightarrow> bytes) \<Rightarrow> 'db storm \<Rightarrow> user \<Rightarrow> 'db world \<Rightarrow> (err, string) outcome" where
  "computeDataSignature sha256 S u w =
     (case FindItemsForIntegrityCheck S (ID u) w of
        Inl e \<Rightarrow> Err e
      | Inr items \<Rightarrow>
          (case item_timestamps items of
             None \<Rightarrow> Panic ''nil pointer dereference''
           | Some timestamps \<Rightarrow> Ok (hex_encode (sha256 (join_with CHR '','' (rev (sort timestamps)))))))"

definition prepareDelete :: "item \<Rightarrow> item" where
  "prepareDelete i = i\<lparr>it_Content := [], it_EncryptedItemKey := []\<rparr>"

text \<open>The incoming item as both services hand it to the database.\<close>

definition owned_item :: "user \<Rightarrow> item \<Rightarrow> item" where
  "owned_item u i = (let i1 = i\<lparr>it_UserID := ID u\<rparr> in if it_Deleted i1 then prepareDelete i1 else i1)"

subsection \<open>Tokens of the response\<close>

text \<open>
  The cursor token is read from the slice that \<open>get\<close> returned, after the compaction of \<open>Retrieved\<close>
  has overwritten the array they share: \<open>arr\<close> is that array.
\<close>

definition cursor_token :: "item list \<Rightarrow> int \<Rightarrow> (err, string) outcome" where
  "cursor_token arr limit =
     (if 0 \<le> limit - 1 \<and> limit - 1 < int (length arr)
      then (case UpdatedAt (arr ! nat (limit - 1)) of
              None \<Rightarrow> Panic ''nil pointer dereference''
            | Some t \<Rightarrow> Ok (TokenFromTime t))
      else Panic ''index out of range'')"

fun last_updated :: "time \<Rightarrow> item list \<Rightarrow> time option" where
  "last_updated t [] = Some t"
| "last_updated t (i # is) =
     (case UpdatedAt i of None \<Rightarrow> None | Some u \<Rightarrow> last_updated (if t < u then u else t) is)"

definition sync_token :: "item list \<Rightarrow> 'db world \<Rightarrow> (err, string) outcome \<times> 'db world" where
  "sync_token saved w =
     (case last_updated zero_time saved of
        None \<Rightarrow> (Panic ''nil pointer dereference'', w)
      | Some t \<Rightarrow>
          (let (t1, w1) = (if IsZero t then Now w else (t, w))
           in (Ok (TokenFromTime (t1 + microseconds 1)), w1)))"

text \<open>
  The statements with which both \<open>Execute\<close> methods end: the conflicted items leave the retrieved ones
  in place, then the integrity hash, the cursor token and the sync token are computed. \<open>p\<close> are the
  parameters after \<open>get\<close>, \<open>del\<close> is the map of the IDs to leave out. The result is what the service's
  fields hold: retrieved items, integrity hash, cursor token and sync token.
\<close>

definition respond ::
  "(bytes \<Rightarrow> bytes) \<Rightarrow> 'db storm \<Rightarrow> user \<Rightarrow> sync_params \<Rightarrow> item list \<Rightarrow> bool \<Rightarrow> item list \<Rightarrow> string list
   \<Rightarrow> 'db world \<Rightarrow> (err, item list \<times> string \<times> string \<times> string) outcome \<times> 'db world" where
  "respond sha256 S u p retrieved overLimit saved del w =
     (let (arr, n) = compact (\<lambda>i. ID i \<in> set del) retrieved
      in case (if sp_ComputeIntegrity p then computeDataSignature sha256 S u w else Ok []) of
           Err e \<Rightarrow> (Err e, w)
         | Panic m \<Rightarrow> (Panic m, w)
         | Ok hash \<Rightarrow>
             (case (if overLimit then cursor_token arr (sp_Limit p) else Ok []) of
                Err e \<Rightarrow> (Err e, w)
              | Panic m \<Rightarrow> (Panic m, w)
              | Ok cursor \<Rightarrow>
                  (case sync_token saved w of
                     (Err e, w1) \<Rightarrow> (Err e, w1)
                   | (Panic m, w1) \<Rightarrow> (Panic m, w1)
                   | (Ok token, w1) \<Rightarrow> (Ok (take n arr, hash, cursor, token), w1))))"

subsection \<open>Lemmas\<close>

lemma owned_item_fields [simp]:
  "it_UserID (owned_item u i) = ID u" "ID (owned_item u i) = ID i" "UpdatedAt (owned_item u i) = UpdatedAt i"
  "it_Deleted (owned_item u i) = it_Deleted i"
  "it_Deleted i \<Longrightarrow> it_Content (owned_item u i) = [] \<and> it_EncryptedItemKey (owned_item u i) = []"
  "\<not> it_Deleted i \<Longrightarrow> it_Content (owned_item u i) = it_Content i"
  by (simp_all add: owned_item_def prepareDelete_def Let_def)

lemma last_updated_ge: "last_updated t is = Some v \<Longrightarrow> t \<le> v \<and> (\<forall>i \<in> set is. \<exists>x. UpdatedAt i = Some x \<and> x \<le> v)"
  by (induction t "is" arbitrary: v rule: last_updated.induct)
    (fastforce split: option.splits if_splits)+

lemma last_updated_Some: "\<forall>i \<in> set is. UpdatedAt i \<noteq> None \<Longrightarrow> \<exists>v. last_updated t is = Some v"
  by (induction t "is" rule: last_updated.induct) (auto split: option.splits)

lemma sync_token_frame [simp]: "w_db (snd (sync_token saved w)) = w_db w"
  by (auto simp: sync_token_def Let_def Now_def split: option.splits)

text \<open>
  The sync token lies strictly after every saved item (as long as the clock stays within the years
  a 64-bit nanosecond count covers), so that a later request with it does not return them again.
\<close>

lemma sync_token_after:
  assumes "sync_token saved w = (Ok tok, w')" and "i \<in> set saved"
    and "\<forall>j \<in> set saved. \<forall>t. UpdatedAt j = Some t \<longrightarrow> zero_time < t \<and> in_int64 (t + microseconds 1)"
  obtains t s where "UpdatedAt i = Some t" and "t < s" and "in_int64 s" and "tok = TokenFromTime s"
proof -
  obtain v where v: "last_updated zero_time saved = Some v"
    using assms(1) by (auto simp: sync_token_def split: option.splits)
  have bound: "\<forall>t is x. last_updated t is = Some x \<longrightarrow> x = t \<or> (\<exists>j \<in> set is. UpdatedAt j = Some x)"
  proof (intro allI impI)
    fix t "is" x assume "last_updated t is = Some x"
    then show "x = t \<or> (\<exists>j \<in> set is. UpdatedAt j = Some x)"
      by (induction t "is" rule: last_updated.induct) (fastforce split: option.splits if_splits)+
  qed
  obtain t where t: "UpdatedAt i = Some t" "t \<le> v" using last_updated_ge [OF v] assms(2) by blast
  then have "zero_time < v" using assms(2,3) by fastforce
  then have "in_int64 (v + microseconds 1)" and "\<not> IsZero v"
    using bound v assms(3) by (fastforce simp: IsZero_def)+
  moreover from this(2) have "tok = TokenFromTime (v + microseconds 1)"
    using assms(1) v by (simp add: sync_token_def)
  ultimately show thesis using t by (intro that) (auto simp: microseconds_def)
qed

lemma item_timestamps_Some:
  "item_timestamps is = Some ts \<longleftrightarrow>
     (\<forall>i \<in> set is. UpdatedAt i \<noteq> None) \<and> ts = map (\<lambda>i. itoa (UnixMilli (the (UpdatedAt i)))) is"
  by (induction "is" arbitrary: ts) (auto split: option.splits)

text \<open>What a saved item of a response looks like: the user's, stamped with an instant of the clock.\<close>

definition saved_ok :: "user \<Rightarrow> 'db world \<Rightarrow> item \<Rightarrow> bool" where
  "saved_ok u w i \<longleftrightarrow>
     it_UserID i = ID u \<and> (it_Deleted i \<longrightarrow> it_Content i = [] \<and> it_EncryptedItemKey i = [])
     \<and> (\<exists>n. UpdatedAt i = Some (w_clock w n))"

lemma saved_ok_sources: "same_sources w w' \<Longrightarrow> saved_ok u w' i \<Longrightarrow> saved_ok u w i"
  by (auto simp: saved_ok_def same_sources_def)

lemma saved_ok_stamped: "saved_ok u w (stamped (owned_item u i) w)"
  by (auto simp: saved_ok_def)

lemma sync_token_sources: "sync_token saved w = (r, w') \<Longrightarrow> same_sources w w'"
  by (auto simp: sync_token_def Let_def Now_def same_sources_def split: option.splits if_splits)

lemma TimeFromToken_sources: "TimeFromToken tok w = (r, w') \<Longrightarrow> same_sources w w'"
  by (auto simp: TimeFromToken_def Let_def Now_def same_sources_def
      split: option.splits if_splits list.splits)

text \<open>
  The data signature depends on the set of the user's live items only: the hash of their timestamps,
  greatest string first.
\<close>

definition live_items :: "'db view \<Rightarrow> user \<Rightarrow> 'db world \<Rightarrow> item set" where
  "live_items V u w = {i \<in> v_items V (w_db w). it_UserID i = ID u \<and> \<not> it_Deleted i}"

definition signature_of :: "(bytes \<Rightarrow> bytes) \<Rightarrow> item set \<Rightarrow> string" where
  "signature_of sha256 A =
     hex_encode (sha256 (join_with CHR '',''
       (rev (sorted_list_of_multiset
         (image_mset (\<lambda>i. itoa (UnixMilli (the (UpdatedAt i)))) (mset_set A))))))"

context store
begin

lemma computeDataSignature_Ok:
  assumes "computeDataSignature h S u w = Ok hash"
  shows "hash = signature_of h (live_items V u w) \<and> (\<forall>i \<in> live_items V u w. UpdatedAt i \<noteq> None)"
proof -
  obtain "is" ts where f: "FindItemsForIntegrityCheck S (ID u) w = Inr is"
    and ts: "item_timestamps is = Some ts"
    and h: "hash = hex_encode (h (join_with CHR '','' (rev (sort ts))))"
    using assms by (auto simp: computeDataSignature_def split: sum.splits option.splits)
  have set: "set is = live_items V u w" and "distinct is"
    using FindItemsForIntegrityCheck_Inr [OF f] by (auto simp: live_items_def)
  then have "mset is = mset_set (live_items V u w)" using mset_set_set by metis
  then have "mset ts = image_mset (\<lambda>i. itoa (UnixMilli (the (UpdatedAt i)))) (mset_set (live_items V u w))"
    using ts by (auto simp: item_timestamps_Some)
  then have "sort ts = sorted_list_of_multiset
      (image_mset (\<lambda>i. itoa (UnixMilli (the (UpdatedAt i)))) (mset_set (live_items V u w)))"
    by (metis sorted_list_of_multiset_mset)
  then show ?thesis using h ts set by (auto simp: signature_of_def item_timestamps_Some)
qed

end

lemma respond_frame: "respond h S u p rs ov saved del w = (r, w') \<Longrightarrow> w_db w' = w_db w \<and> same_sources w w'"
  by (cases "sync_token saved w")
    (use sync_token_frame [of saved w] in
      \<open>auto simp: respond_def Let_def sync_token_sources split: prod.splits outcome.splits if_splits\<close>)

lemma respond_Ok:
  assumes "respond h S u p rs ov saved del w = (Ok (ret, hash, cursor, token), w')"
  shows "ret = filter (\<lambda>i. ID i \<notin> set del) rs" and "sync_token saved w = (Ok token, w')"
    and "sp_ComputeIntegrity p \<Longrightarrow> computeDataSignature h S u w = Ok hash"
    and "\<not> sp_ComputeIntegrity p \<Longrightarrow> hash = []"
    and "\<not> ov \<Longrightarrow> cursor = []"
    and "ov \<Longrightarrow> cursor_token (fst (compact (\<lambda>i. ID i \<in> set del) rs)) (sp_Limit p) = Ok cursor"
  using assms compact_take [of "\<lambda>i. ID i \<in> set del" rs]
  by (auto simp: respond_def Let_def split: prod.splits outcome.splits if_splits)

text \<open>The cursor token names the last item of the page, although the compaction has moved others over it.\<close>

lemma respond_cursor:
  assumes "respond h S u p rs True saved del w = (Ok (ret, hash, cursor, token), w')"
    and "rs \<noteq> []" and "sp_Limit p = int (length rs)"
  obtains t where "UpdatedAt (last rs) = Some t" and "cursor = TokenFromTime t"
proof -
  obtain arr n where c: "compact (\<lambda>i. ID i \<in> set del) rs = (arr, n)" by force
  have "arr ! (length rs - 1) = last rs"
    using compact_last [OF c assms(2)] assms(2) by (simp add: last_conv_nth)
  moreover have "length arr = length rs"
    using compact_loop_spec [of 0 0 rs _ arr n] c by (simp add: compact_def)
  moreover have "nat (int (length rs) - 1) = length rs - 1" by (simp add: nat_diff_distrib)
  ultimately show thesis using respond_Ok(6) [OF assms(1)] assms(3) c that
    by (auto simp: cursor_token_def split: if_splits option.splits)
qed

subsection \<open>What \<open>get\<close> fetches\<close>

text \<open>The instant a request asks from, whether strictly after it, and whether without deleted items.\<close>

definition sync_window :: "sync_params \<Rightarrow> 'db world \<Rightarrow> time \<times> bool \<times> bool" where
  "sync_window p w =
     (let decoded = (\<lambda>tok. case fst (TimeFromToken tok w :: (err, time) outcome \<times> 'db world) of
                              Ok t \<Rightarrow> t | _ \<Rightarrow> zero_time)
      in if sp_CursorToken p \<noteq> [] then (decoded (sp_CursorToken p), False, False)
         else if sp_SyncToken p \<noteq> [] then (decoded (sp_SyncToken p), True, False)
         else (zero_time, False, True))"

definition effective_limit :: "sync_params \<Rightarrow> int" where
  "effective_limit p = (if sp_SyncToken p = [] then 0 else sp_Limit p)"

definition sync_wanted :: "user \<Rightarrow> sync_params \<Rightarrow> 'db world \<Rightarrow> item \<Rightarrow> bool" where
  "sync_wanted u p w i =
     (let (t, strict, nodel) = sync_window p w in wanted (ID u) (sp_ContentType p) t strict nodel i)"

lemma TimeFromToken_db: "TimeFromToken tok w = (r, w') \<Longrightarrow> w_db w' = w_db w"
  by (metis TimeFromToken_frame(1) snd_conv)

lemma sync_get_params:
  "sync_get S u p w = (r, p1, w1) \<Longrightarrow>
     p1 = p\<lparr>sp_Limit := effective_limit p\<rparr> \<and> w_db w1 = w_db w \<and> same_sources w w1"
  by (auto simp: sync_get_def Let_def effective_limit_def
      dest: TimeFromToken_sources TimeFromToken_db split: if_splits outcome.splits prod.splits)

lemma sync_get_find:
  assumes "sync_get S u p w = (Ok r, p1, w1)"
  shows "FindItemsByParams S (ID u) (sp_ContentType p) (fst (sync_window p w)) (fst (snd (sync_window p w)))
           (snd (snd (sync_window p w))) (effective_limit p) w1 = Ok r"
  using assms
  by (auto simp: sync_get_def Let_def effective_limit_def sync_window_def
      split: if_splits outcome.splits prod.splits)

lemma FindItemsByParams_db:
  "w_db w1 = w_db w \<Longrightarrow> FindItemsByParams S u ct t st nd l w1 = FindItemsByParams S u ct t st nd l w"
  by (simp add: FindItemsByParams_def)

context store
begin

lemma sync_get_Ok:
  assumes "sync_get S u p w = (Ok (is, over), p1, w1)" and "sp_Limit p < int64_max"
  obtains full where "set full = {i \<in> v_items V (w_db w). sync_wanted u p w i}"
    and "distinct full" and "newest_first full" and "is = page_of (effective_limit p) full"
    and "over \<longleftrightarrow> 0 < effective_limit p \<and> effective_limit p < int (length full)"
proof -
  have db: "w_db w1 = w_db w" using sync_get_params [OF assms(1)] by simp
  have lim: "effective_limit p < int64_max"
    using assms(2) by (simp add: effective_limit_def int64_max_def)
  show thesis
    by (rule FindItemsByParams_Ok [OF sync_get_find [OF assms(1)] lim])
      (use db that in \<open>simp add: sync_wanted_def case_prod_beta Let_def\<close>)
qed

end

lemma newest_first_take: "newest_first is \<Longrightarrow> newest_first (take n is)"
  by (metis append_take_drop_id map_append newest_first_def rev_append sorted_append)

lemma newest_first_last:
  assumes "newest_first is" and "i \<in> set is"
  shows "opt_time (UpdatedAt (last is)) \<le> opt_time (UpdatedAt i)"
  using assms by (cases "is" rule: rev_cases) (auto simp: newest_first_def)

context store
begin

text \<open>What the page and the tokens of a reply are, whatever was saved in between.\<close>

lemma respond_page:
  assumes get: "sync_get S u p w = (Ok (rs, ov), p1, w1)" and lim: "sp_Limit p < int64_max"
    and resp: "respond h S u p1 rs ov saved del w2 = (Ok (ret, hash, cur, tok), w')"
  shows "set ret \<subseteq> {i \<in> v_items V (w_db w). sync_wanted u p w i} \<and> distinct ret"
    and "cur = [] \<or> (\<exists>t. cur = TokenFromTime t \<and> (\<forall>i \<in> set ret. VTime t \<le> opt_time (UpdatedAt i))
           \<and> (\<exists>i \<in> v_items V (w_db w). sync_wanted u p w i \<and> UpdatedAt i = Some t))"
    and "(0 < effective_limit p \<longrightarrow> int (length ret) \<le> effective_limit p)
      \<and> (cur = [] \<longleftrightarrow> effective_limit p \<le> 0
            \<or> int (card {i \<in> v_items V (w_db w). sync_wanted u p w i}) \<le> effective_limit p)"
    and "effective_limit p = 0 \<Longrightarrow> del = [] \<Longrightarrow> {i \<in> v_items V (w_db w). sync_wanted u p w i} \<subseteq> set ret"
proof -
  let ?W = "{i \<in> v_items V (w_db w). sync_wanted u p w i}" and ?L = "effective_limit p"
  obtain full where full: "set full = ?W" "distinct full" "newest_first full" "rs = page_of ?L full"
      "ov \<longleftrightarrow> 0 < ?L \<and> ?L < int (length full)"
    using sync_get_Ok [OF get lim] by metis
  have rs: "set rs \<subseteq> ?W" "distinct rs"
    using full by (auto simp: page_of_def dest: in_set_takeD split: if_splits)
  have ret: "set ret \<subseteq> set rs" "distinct ret" using respond_Ok(1) [OF resp] rs(2) by auto
  then show "set ret \<subseteq> ?W \<and> distinct ret" using rs by blast
  have "length ret \<le> length rs" using respond_Ok(1) [OF resp] by simp
  moreover have "0 < ?L \<Longrightarrow> length rs \<le> nat ?L" using full(4) by (simp add: page_of_def)
  ultimately have len: "0 < ?L \<Longrightarrow> int (length ret) \<le> ?L" by linarith
  show "?L = 0 \<Longrightarrow> del = [] \<Longrightarrow> ?W \<subseteq> set ret"
    using full(1,4) respond_Ok(1) [OF resp] by (simp add: page_of_def)
  have page: "\<exists>t. cur = TokenFromTime t \<and> (\<forall>i \<in> set ret. VTime t \<le> opt_time (UpdatedAt i))
      \<and> (\<exists>i \<in> ?W. UpdatedAt i = Some t)" if True: ov
  proof -
    have pos: "0 < ?L" "?L < int (length full)" using full(5) True by auto
    then have rs_eq: "rs = take (nat ?L) full" using full(4) by (simp add: page_of_def)
    then have ne: "rs \<noteq> []" and len: "sp_Limit p1 = int (length rs)"
      using pos sync_get_params [OF get] by auto
    obtain t where t: "UpdatedAt (last rs) = Some t" "cur = TokenFromTime t"
      using respond_cursor [OF resp [unfolded True [THEN eqTrueI]] ne len] by blast
    have "newest_first rs" using full(3) rs_eq newest_first_take by simp
    then have "\<forall>i \<in> set ret. VTime t \<le> opt_time (UpdatedAt i)"
      using newest_first_last [of rs] t(1) ret(1) by (auto simp: opt_time_def)
    moreover have "last rs \<in> ?W" using rs(1) last_in_set [OF ne] by blast
    ultimately show ?thesis using t by blast
  qed
  then show "cur = [] \<or> (\<exists>t. cur = TokenFromTime t \<and> (\<forall>i \<in> set ret. VTime t \<le> opt_time (UpdatedAt i))
           \<and> (\<exists>i \<in> v_items V (w_db w). sync_wanted u p w i \<and> UpdatedAt i = Some t))"
    using respond_Ok(5) [OF resp] by (cases ov) auto
  have "cur = [] \<longleftrightarrow> \<not> ov" using page respond_Ok(5) [OF resp] TokenFromTime_nonempty by fastforce
  moreover have "card ?W = length full" using distinct_card [OF full(2)] full(1) by simp
  ultimately show "(0 < ?L \<longrightarrow> int (length ret) \<le> ?L) \<and> (cur = [] \<longleftrightarrow> ?L \<le> 0 \<or> int (card ?W) \<le> ?L)"
    using len full(5) by auto
qed

lemma respond_integrity:
  assumes "respond h S u p rs ov saved del w2 = (Ok (ret, hash, cur, tok), w')"
  shows "hash = (if sp_ComputeIntegrity p then signature_of h (live_items V u w') else [])"
  using respond_Ok(3,4) [OF assms] computeDataSignature_Ok [of h u w2 hash] respond_frame [OF assms]
  by (auto simp: live_items_def)

end

end
