(* ===== verification/Sync_Contract.thy ===== *)
theory Sync_Contract
  imports Sync_Base
begin

text \<open>
  What both versions of the synchronisation service promise, as a locale: whose items a request
  writes, what it leaves alone, what the reply contains. The results that need no more than the
  promise are proved here once: isolation of users over whole histories of requests, and that the
  sync token of a reply does not bring the saved items back.
\<close>

text \<open>What the replies of the two versions have in common; \<open>rp_rejected\<close> are the items of the unsaved ones and conflicts.\<close>

record sync_reply =
  rp_retrieved :: "item list"
  rp_saved :: "item list"
  rp_rejected :: "item list"
  rp_SyncToken :: string
  rp_CursorToken :: string
  rp_IntegrityHash :: string

text \<open>A request pushes an item when it names its ID; an item without ID gets one from the server.\<close>

definition pushed :: "item list \<Rightarrow> item \<Rightarrow> bool" where
  "pushed is x \<longleftrightarrow> (\<exists>i \<in> set is. ID i = [] \<or> ID i = ID x)"

lemma pushed_simps [simp]:
  "\<not> pushed [] x" "pushed (i # is) x \<longleftrightarrow> ID i = [] \<or> ID i = ID x \<or> pushed is x"
  by (auto simp: pushed_def)

lemma pushed_once:
  assumes "distinct (map ID (j # is))" and "[] \<notin> ID ` set (j # is)"
  shows "\<not> pushed is (stamped (owned_item u j) w)"
  using assms by (auto simp: pushed_def ID_stamped) (metis image_eqI)+

text \<open>
  The answers to the incoming items, one each and in their order: an item is saved as the user's, stamped, or
  rejected with an item of the user under its ID. What is rejected beyond that are retrieved versions in conflict
  with saved ones.
\<close>

definition saves :: "user \<Rightarrow> item \<Rightarrow> item \<Rightarrow> bool" where
  "saves u i s \<longleftrightarrow> s = (owned_item u i)\<lparr>ID := ID s, CreatedAt := CreatedAt s, UpdatedAt := UpdatedAt s\<rparr>
     \<and> (ID i = [] \<or> ID s = ID i)"

definition rejects :: "user \<Rightarrow> item \<Rightarrow> item \<Rightarrow> bool" where
  "rejects u i r \<longleftrightarrow> it_UserID r = ID u \<and> (ID i = [] \<or> ID r = ID i)"

inductive answers :: "user \<Rightarrow> item list \<Rightarrow> item list \<Rightarrow> item list \<Rightarrow> bool" for u where
  answers_none: "answers u [] [] rs"
| answers_saved: "answers u is ss rs \<Longrightarrow> saves u i s \<Longrightarrow> answers u (i # is) (s # ss) rs"
| answers_rejected: "answers u is ss rs \<Longrightarrow> rejects u i r \<Longrightarrow> answers u (i # is) ss (r # rs)"

lemma saves_stamped: "saves u i (stamped (owned_item u i) w)"
  by (simp add: saves_def stamped_def Let_def)

lemma rejects_stamped: "rejects u i (stamped (owned_item u i) w)"
  by (simp add: rejects_def ID_stamped)

text \<open>Every incoming item is among the saved or the rejected ones, by its ID when it has one.\<close>

lemma answers_each: "answers u is ss rs \<Longrightarrow> i \<in> set is \<Longrightarrow> (\<exists>s \<in> set ss. saves u i s) \<or> (\<exists>r \<in> set rs. rejects u i r)"
  by (induction rule: answers.induct) auto

lemma answers_length: "answers u is ss rs \<Longrightarrow> length ss \<le> length is \<and> length is \<le> length ss + length rs"
  by (induction rule: answers.induct) auto

text \<open>Requests of any users, in any order, answered or failed, over one storage.\<close>

inductive sync_run ::
  "(user \<Rightarrow> sync_params \<Rightarrow> 'db world \<Rightarrow> (err, 'r) outcome \<times> 'db world)
   \<Rightarrow> (user \<times> sync_params) list \<Rightarrow> 'db world \<Rightarrow> 'db world \<Rightarrow> bool" for exec where
  run_nil: "sync_run exec [] w w"
| run_step: "sync_run exec reqs w w1 \<Longrightarrow> exec u p w1 = (r, w2) \<Longrightarrow> sync_run exec ((u, p) # reqs) w w2"

inductive_cases sync_run_ConsE: "sync_run exec (q # reqs) w w'"

text \<open>
  The environment of a service: a storage, a hash function, and the order in which Go ranges over the
  keys of a map, of which only the set of the keys is known.
\<close>

locale sync_env = store S V for S :: "'db storm" and V :: "'db view" +
  fixes sha256 :: "bytes \<Rightarrow> bytes" and order :: "string list \<Rightarrow> string list"
  assumes order_set: "set (order ids) = set ids"

interpretation mem_env: sync_env mem_storm mem_view "\<lambda>b. b" rev
  by unfold_locales simp

locale sync_service =
  fixes exec :: "user \<Rightarrow> sync_params \<Rightarrow> 'db world \<Rightarrow> (err, 'r) outcome \<times> 'db world"
    and reply :: "'r \<Rightarrow> sync_reply"
    and V :: "'db view"
    and sha256 :: "bytes \<Rightarrow> bytes"
  assumes sources: "exec u p w = (out, w') \<Longrightarrow> same_sources w w'"
    and frame: "exec u p w = (out, w') \<Longrightarrow>
          v_users V (w_db w') = v_users V (w_db w) \<and> v_sessions V (w_db w') = v_sessions V (w_db w)
          \<and> v_pkces V (w_db w') = v_pkces V (w_db w)"
    and writes_own: "exec u p w = (out, w') \<Longrightarrow> x \<in> v_items V (w_db w') \<Longrightarrow>
          x \<in> v_items V (w_db w) \<or> saved_ok u w x \<and> pushed (sp_Items p) x"
    and keeps: "exec u p w = (out, w') \<Longrightarrow> x \<in> v_items V (w_db w) \<Longrightarrow> \<not> pushed (sp_Items p) x \<Longrightarrow>
          x \<in> v_items V (w_db w')"
    and answered: "exec u p w = (Ok r, w') \<Longrightarrow>
          answers u (sp_Items p) (rp_saved (reply r)) (rp_rejected (reply r))"
    and saved: "exec u p w = (Ok r, w') \<Longrightarrow> i \<in> set (rp_saved (reply r)) \<Longrightarrow> saved_ok u w i"
    and retrieved: "exec u p w = (Ok r, w') \<Longrightarrow> sp_Limit p < int64_max \<Longrightarrow>
          set (rp_retrieved (reply r)) \<subseteq> {i \<in> v_items V (w_db w). sync_wanted u p w i}
          \<and> distinct (rp_retrieved (reply r))"
    and token: "exec u p w = (Ok r, w') \<Longrightarrow>
          \<exists>w1. sync_token (rp_saved (reply r)) w1 = (Ok (rp_SyncToken (reply r)), w') \<and> same_sources w w1"
    and cursor: "exec u p w = (Ok r, w') \<Longrightarrow> sp_Limit p < int64_max \<Longrightarrow>
          rp_CursorToken (reply r) = []
          \<or> (\<exists>t. rp_CursorToken (reply r) = TokenFromTime t
                 \<and> (\<forall>i \<in> set (rp_retrieved (reply r)). VTime t \<le> opt_time (UpdatedAt i))
                 \<and> (\<exists>i \<in> v_items V (w_db w). sync_wanted u p w i \<and> UpdatedAt i = Some t))"
    and integrity: "exec u p w = (Ok r, w') \<Longrightarrow>
          rp_IntegrityHash (reply r) =
            (if sp_ComputeIntegrity p then signature_of sha256 (live_items V u w') else [])"
    and page: "exec u p w = (Ok r, w') \<Longrightarrow> sp_Limit p < int64_max \<Longrightarrow>
          (0 < effective_limit p \<longrightarrow> int (length (rp_retrieved (reply r))) \<le> effective_limit p)
          \<and> (rp_CursorToken (reply r) = [] \<longleftrightarrow> effective_limit p \<le> 0
                \<or> int (card {i \<in> v_items V (w_db w). sync_wanted u p w i}) \<le> effective_limit p)"
    and everything: "exec u p w = (Ok r, w') \<Longrightarrow> sp_Limit p < int64_max \<Longrightarrow> effective_limit p = 0 \<Longrightarrow>
          sp_Items p = [] \<Longrightarrow> {i \<in> v_items V (w_db w). sync_wanted u p w i} \<subseteq> set (rp_retrieved (reply r))"
    and stored: "exec u p w = (Ok r, w') \<Longrightarrow> i \<in> set (rp_saved (reply r)) \<Longrightarrow> distinct (map ID (sp_Items p)) \<Longrightarrow>
          [] \<notin> ID ` set (sp_Items p) \<Longrightarrow>
          i \<in> v_items V (w_db w') \<and> (\<exists>j \<in> set (sp_Items p). \<exists>w1 :: 'db world. i = stamped (owned_item u j) w1)"
begin

text \<open>
  Over a whole history, an item that is there in the end was there in the beginning or belongs to a
  user who pushed it; an item nobody pushed stays as it was.
\<close>

lemma run_sources: "sync_run exec reqs w w' \<Longrightarrow> same_sources w w'"
  by (induction rule: sync_run.induct) (auto dest: sources intro: same_sources_trans)

lemma run_writes_own:
  "sync_run exec reqs w w' \<Longrightarrow> x \<in> v_items V (w_db w') \<Longrightarrow>
     x \<in> v_items V (w_db w) \<or> (\<exists>(u, p) \<in> set reqs. it_UserID x = ID u \<and> pushed (sp_Items p) x)"
proof (induction rule: sync_run.induct)
  case (run_step reqs w w1 u p r w2)
  then show ?case using writes_own [OF run_step(2), of x] by (auto simp: saved_ok_def)
qed simp

lemma run_keeps:
  "sync_run exec reqs w w' \<Longrightarrow> x \<in> v_items V (w_db w) \<Longrightarrow>
     \<forall>(u, p) \<in> set reqs. \<not> pushed (sp_Items p) x \<Longrightarrow> x \<in> v_items V (w_db w')"
proof (induction rule: sync_run.induct)
  case (run_step reqs w w1 u p r w2)
  then show ?case using keeps [OF run_step(2), of x] by auto
qed simp

text \<open>
  A later request with the sync token of a reply does not retrieve an item as that reply saved it.
\<close>

lemma token_skips_saved:
  assumes e1: "exec u p w = (Ok r, w1)" and "i \<in> set (rp_saved (reply r))"
    and clock: "\<And>n. zero_time < w_clock w n \<and> in_int64 (w_clock w n + microseconds 1)"
    and e2: "exec u' p' w2 = (Ok r', w3)" and "sp_Limit p' < int64_max"
    and "sp_CursorToken p' = []" and "sp_SyncToken p' = rp_SyncToken (reply r)"
  shows "i \<notin> set (rp_retrieved (reply r'))"
proof
  assume "i \<in> set (rp_retrieved (reply r'))"
  then have want: "sync_wanted u' p' w2 i" using retrieved [OF e2 assms(5)] by blast
  obtain wt where tok: "sync_token (rp_saved (reply r)) wt = (Ok (rp_SyncToken (reply r)), w1)"
    using token [OF e1] by blast
  have "\<forall>j \<in> set (rp_saved (reply r)). \<forall>t. UpdatedAt j = Some t \<longrightarrow> zero_time < t \<and> in_int64 (t + microseconds 1)"
  proof (intro ballI allI impI)
    fix j t assume "j \<in> set (rp_saved (reply r))" and "UpdatedAt j = Some t"
    then obtain n where "t = w_clock w n" using saved [OF e1] by (fastforce simp: saved_ok_def)
    then show "zero_time < t \<and> in_int64 (t + microseconds 1)" using clock by blast
  qed
  from sync_token_after [OF tok assms(2) this]
  obtain t s where t: "UpdatedAt i = Some t" "t < s" "in_int64 s" "rp_SyncToken (reply r) = TokenFromTime s"
    by blast
  have "zero_time < t" using saved [OF e1 assms(2)] t(1) clock by (auto simp: saved_ok_def)
  then show False using want t assms(6,7) TokenFromTime_nonempty [of s]
    by (auto simp: sync_wanted_def sync_window_def wanted_def IsZero_def Let_def TimeFromToken_exact)
qed

text \<open>
  The items older than a page can never follow from its cursor: the page is newest first, and the
  cursor asks for items at least as new as its last one.
\<close>

lemma pages_skip_older:
  assumes e1: "exec u p w = (Ok r, w1)" and l1: "sp_Limit p < int64_max"
    and tok: "rp_CursorToken (reply r) = TokenFromTime t" and int64: "zero_time < t" "in_int64 t"
    and stored: "\<And>k v. k \<in> v_items V (w_db w) \<Longrightarrow> UpdatedAt k = Some v \<Longrightarrow> in_int64 v"
    and e2: "exec u' p' w2 = (Ok r', w3)" and "sp_Limit p' < int64_max"
    and "sp_CursorToken p' = rp_CursorToken (reply r)"
    and x: "UpdatedAt x = Some s" "s < t"
  shows "x \<notin> set (rp_retrieved (reply r)) \<and> x \<notin> set (rp_retrieved (reply r'))"
proof -
  obtain t' k where t': "rp_CursorToken (reply r) = TokenFromTime t'"
    and all: "\<forall>i \<in> set (rp_retrieved (reply r)). VTime t' \<le> opt_time (UpdatedAt i)"
    and k: "k \<in> v_items V (w_db w)" "UpdatedAt k = Some t'"
    using cursor [OF e1 l1] tok TokenFromTime_nonempty [of t] by auto
  have "in_int64 t'" using stored k by blast
  then have "t' = t" using TokenFromTime_inject t' tok int64(2) by simp
  moreover have False if "x \<in> set (rp_retrieved (reply r'))"
  proof -
    have "sync_wanted u' p' w2 x" using retrieved [OF e2 assms(8)] that by blast
    then show False using tok assms(9) int64 x TokenFromTime_nonempty [of t]
      by (auto simp: sync_wanted_def sync_window_def wanted_def IsZero_def Let_def TimeFromToken_exact)
  qed
  ultimately show ?thesis using all x by (auto simp: opt_time_def)
qed

end

end
