(* ===== verification/Sync_20161215.thy ===== *)
theory Sync_20161215
  imports Sync_Contract
begin

text \<open>
  \<^verbatim>\<open>internal/server/service/sync_20161215.go\<close>: the synchronisation of API version 20161215. Every
  incoming item is saved; an item that was also retrieved is dropped from the retrieved ones, and
  sent back as unsaved when the two versions are more than twenty seconds apart. The conflicts are
  collected over a Go map, whose iteration order is unspecified: it is the parameter \<open>order\<close>.
\<close>

record unsaved_item =
  ui_Item :: item
  ui_Message :: string
  ui_Tag :: string

record sync16 =
  s16_Retrieved :: "item list"
  s16_Saved :: "item list"
  s16_Unsaved :: "unsaved_item list"
  s16_SyncToken :: string
  s16_CursorToken :: string
  s16_IntegrityHash :: string

definition minConflictInterval20161215 :: duration where
  "minConflictInterval20161215 = 20 * 1000000000"

fun save16 ::
  "'db storm \<Rightarrow> user \<Rightarrow> item list \<Rightarrow> 'db world \<Rightarrow> item list \<times> unsaved_item list \<times> 'db world" where
  "save16 S u [] w = ([], [], w)"
| "save16 S u (i # is) w =
     (let (saved_item, e, w1) = Save (st_items S) (owned_item u i) w;
          (saved, unsaved, w2) = save16 S u is w1
      in case e of
           Some x \<Rightarrow> (saved, \<lparr>ui_Item = saved_item, ui_Message = err_Error x, ui_Tag = []\<rparr> # unsaved, w2)
         | None \<Rightarrow> (saved_item # saved, unsaved, w2))"

text \<open>A Go map filled from a list: the last entry for a key counts.\<close>

definition items_by_id :: "item list \<Rightarrow> string \<Rightarrow> item option" where
  "items_by_id is = map_of (rev (map (\<lambda>i. (ID i, i)) is))"

text \<open>
  The conflicts of the keys \<open>ids\<close>, in this order. \<open>diff > 20\<close> on the absolute difference in
  seconds, a floating point number, is the comparison of the durations: 20 is exact, and a duration
  of one nanosecond more is above it.
\<close>

fun conflicts16 ::
  "(string \<Rightarrow> item option) \<Rightarrow> (string \<Rightarrow> item option) \<Rightarrow> string list \<Rightarrow> unsaved_item list option" where
  "conflicts16 saved retrieved [] = Some []"
| "conflicts16 saved retrieved (i # ids) =
     (case (saved i, retrieved i) of
        (Some s, Some r) \<Rightarrow>
          (case (UpdatedAt s, UpdatedAt r) of
             (Some a, Some b) \<Rightarrow>
               map_option (\<lambda>rest.
                   (if minConflictInterval20161215 < \<bar>time_Sub a b\<bar>
                    then [\<lparr>ui_Item = r, ui_Message = [], ui_Tag = ''sync_conflict''\<rparr>] else []) @ rest)
                 (conflicts16 saved retrieved ids)
           | _ \<Rightarrow> None)
      | _ \<Rightarrow> None)"

definition checkForConflicts16 ::
  "(string list \<Rightarrow> string list) \<Rightarrow> item list \<Rightarrow> item list \<Rightarrow> (unsaved_item list \<times> string list) option" where
  "checkForConflicts16 order saved_items retrieved_items =
     (let saved = items_by_id saved_items;
          common = filter (\<lambda>i. saved (ID i) \<noteq> None) retrieved_items;
          ids = order (remdups (map ID common))
      in map_option (\<lambda>cs. (cs, ids)) (conflicts16 saved (items_by_id common) ids))"

definition Execute16 ::
  "(bytes \<Rightarrow> bytes) \<Rightarrow> (string list \<Rightarrow> string list) \<Rightarrow> 'db storm \<Rightarrow> user \<Rightarrow> sync_params \<Rightarrow> 'db world
   \<Rightarrow> (err, sync16) outcome \<times> 'db world" where
  "Execute16 sha256 order S u p w =
     (case sync_get S u p w of
        (Err e, p1, w1) \<Rightarrow> (Err e, w1)
      | (Panic m, p1, w1) \<Rightarrow> (Panic m, w1)
      | (Ok (retrieved, overLimit), p1, w1) \<Rightarrow>
          (let (saved, unsaved, w2) = save16 S u (sp_Items p1) w1
           in case checkForConflicts16 order saved retrieved of
                None \<Rightarrow> (Panic ''nil pointer dereference'', w2)
              | Some (conflicts, toDelete) \<Rightarrow>
                  (case respond sha256 S u p1 retrieved overLimit saved toDelete w2 of
                     (Err e, w3) \<Rightarrow> (Err e, w3)
                   | (Panic m, w3) \<Rightarrow> (Panic m, w3)
                   | (Ok (kept, hash, cursor, token), w3) \<Rightarrow>
                       (Ok \<lparr>s16_Retrieved = kept, s16_Saved = saved, s16_Unsaved = unsaved @ conflicts,
                            s16_SyncToken = token, s16_CursorToken = cursor, s16_IntegrityHash = hash\<rparr>, w3))))"

subsection \<open>The saving loop\<close>

text \<open>One round of the loop: the item is saved and heads one of the two lists.\<close>

lemma save16_ConsE:
  assumes "save16 S u (i # is) w = (saved, unsaved, w')"
  obtains si e w1 sv un where "Save (st_items S) (owned_item u i) w = (si, e, w1)"
    and "save16 S u is w1 = (sv, un, w')" and "si = stamped (owned_item u i) w" and "same_sources w w1"
    and "saved = (if e = None then si # sv else sv)"
    and "map ui_Item unsaved = (if e = None then map ui_Item un else si # map ui_Item un)"
proof -
  obtain si e w1 where s: "Save (st_items S) (owned_item u i) w = (si, e, w1)" by (metis prod_cases3)
  obtain sv un w2 where r: "save16 S u is w1 = (sv, un, w2)" by (metis prod_cases3)
  have "w2 = w'" and "saved = (if e = None then si # sv else sv)"
    and "map ui_Item unsaved = (if e = None then map ui_Item un else si # map ui_Item un)"
    using assms s r by (auto split: option.splits)
  with s r Save_result(1,3) [OF s] show thesis by (intro that) auto
qed

lemma save16_sources: "save16 S u is w = (saved, unsaved, w') \<Longrightarrow> same_sources w w'"
proof (induction "is" arbitrary: w saved unsaved)
  case (Cons i "is")
  from Cons.prems show ?case
    by (rule save16_ConsE) (use Cons.IH in \<open>blast intro: same_sources_trans\<close>)
qed simp

text \<open>Every incoming item is answered, as saved or as unsaved.\<close>

lemma save16_answers:
  "save16 S u is w = (saved, unsaved, w') \<Longrightarrow> answers u is saved (map ui_Item unsaved @ rs)"
proof (induction "is" arbitrary: w saved unsaved)
  case (Cons i "is")
  from Cons.prems show ?case
  proof (rule save16_ConsE)
    fix si e w1 sv un
    assume "save16 S u is w1 = (sv, un, w')" and "si = stamped (owned_item u i) w"
      and "saved = (if e = None then si # sv else sv)"
      and "map ui_Item unsaved = (if e = None then map ui_Item un else si # map ui_Item un)"
    then show ?thesis
      using Cons.IH by (simp add: answers_saved answers_rejected saves_stamped rejects_stamped)
  qed
qed (simp add: answers_none)

lemma save16_saved_ok:
  "save16 S u is w = (saved, unsaved, w') \<Longrightarrow> i \<in> set saved \<Longrightarrow> saved_ok u w i"
proof (induction "is" arbitrary: w saved unsaved)
  case (Cons j "is")
  from Cons.prems(1) show ?case
    by (rule save16_ConsE)
      (use Cons.IH Cons.prems(2) saved_ok_stamped saved_ok_sources in \<open>fastforce split: if_splits\<close>)
qed simp

lemma save16_pushed:
  "save16 S u is w = (saved, unsaved, w') \<Longrightarrow> i \<in> set saved \<Longrightarrow> pushed is i"
proof (induction "is" arbitrary: w saved unsaved)
  case (Cons j "is")
  from Cons.prems(1) show ?case
    by (rule save16_ConsE)
      (use Cons.IH Cons.prems(2) in \<open>fastforce simp: ID_stamped split: if_splits\<close>)
qed simp

context store
begin

lemma save16_rows:
  "save16 S u is w = (saved, unsaved, w') \<Longrightarrow> x \<in> v_items V (w_db w') \<Longrightarrow>
     x \<in> v_items V (w_db w) \<or> x \<in> set saved"
proof (induction "is" arbitrary: w saved unsaved)
  case (Cons j "is")
  obtain si e w1 sv un where s: "Save (st_items S) (owned_item u j) w = (si, e, w1)"
    and r: "save16 S u is w1 = (sv, un, w')" and sv: "saved = (if e = None then si # sv else sv)"
    using Cons.prems(1) by (rule save16_ConsE)
  then show ?case using Cons.IH [OF r Cons.prems(2)] items.Save_new_rows [OF s] by auto
qed auto

lemma save16_keeps:
  "save16 S u is w = (saved, unsaved, w') \<Longrightarrow> x \<in> v_items V (w_db w) \<Longrightarrow>
     \<not> pushed is x \<Longrightarrow> x \<in> v_items V (w_db w')"
proof (induction "is" arbitrary: w saved unsaved)
  case (Cons j "is")
  obtain si e w1 sv un where s: "Save (st_items S) (owned_item u j) w = (si, e, w1)"
    and r: "save16 S u is w1 = (sv, un, w')" and si: "si = stamped (owned_item u j) w"
    using Cons.prems(1) by (rule save16_ConsE)
  have "ID x \<noteq> ID si" using si Cons.prems(3) by (auto simp: ID_stamped)
  then have "x \<in> v_items V (w_db w1)" using items.Save_other_rows [OF s Cons.prems(2)] by blast
  then show ?case using Cons.IH [OF r] Cons.prems(3) by simp
qed simp

lemma save16_stored:
  "save16 S u is w = (saved, unsaved, w') \<Longrightarrow> i \<in> set saved \<Longrightarrow> distinct (map ID is) \<Longrightarrow> [] \<notin> ID ` set is \<Longrightarrow>
     i \<in> v_items V (w_db w') \<and> (\<exists>j \<in> set is. \<exists>w1 :: 'db world. i = stamped (owned_item u j) w1)"
proof (induction "is" arbitrary: w saved unsaved)
  case (Cons j "is")
  obtain si e w1 sv un where s: "Save (st_items S) (owned_item u j) w = (si, e, w1)"
    and r: "save16 S u is w1 = (sv, un, w')" and si: "si = stamped (owned_item u j) w"
    and sv: "saved = (if e = None then si # sv else sv)"
    using Cons.prems(1) by (rule save16_ConsE)
  show ?case
  proof (cases "i \<in> set sv")
    case True
    then show ?thesis using Cons.IH [OF r] Cons.prems(3,4) by auto
  next
    case False
    then have i: "i = si" "e = None" using Cons.prems(2) sv by (auto split: if_splits)
    then have "i \<in> v_items V (w_db w1)" using items.Save_rows [of "owned_item u j" w si w1] s by simp
    moreover have "\<not> pushed is i" using pushed_once [OF Cons.prems(3,4)] si i by simp
    ultimately show ?thesis using save16_keeps [OF r] si i(1) by auto
  qed
qed simp

lemma save16_writes:
  "save16 S u is w = (saved, unsaved, w') \<Longrightarrow>
     v_users V (w_db w') = v_users V (w_db w) \<and> v_sessions V (w_db w') = v_sessions V (w_db w)
     \<and> v_pkces V (w_db w') = v_pkces V (w_db w)"
proof (induction "is" arbitrary: w saved unsaved)
  case (Cons j "is")
  obtain si e w1 sv un where s: "Save (st_items S) (owned_item u j) w = (si, e, w1)"
    and r: "save16 S u is w1 = (sv, un, w')"
    using Cons.prems(1) by (rule save16_ConsE)
  show ?case
  proof (cases e)
    case None
    then show ?thesis using Cons.IH [OF r] frame_items [OF writes_Save] s by simp
  next
    case (Some y)
    then show ?thesis using Cons.IH [OF r] Save_result(5) [OF s] by simp
  qed
qed simp

end

subsection \<open>The service\<close>

definition reply16 :: "sync16 \<Rightarrow> sync_reply" where
  "reply16 r =
     \<lparr>rp_retrieved = s16_Retrieved r, rp_saved = s16_Saved r, rp_rejected = map ui_Item (s16_Unsaved r),
      rp_SyncToken = s16_SyncToken r, rp_CursorToken = s16_CursorToken r,
      rp_IntegrityHash = s16_IntegrityHash r\<rparr>"

text \<open>Either the request ended before the loop, or the storage is as the loop leaves it.\<close>

lemma Execute16_storage:
  assumes "Execute16 h order S u p w = (out, w')"
  shows "same_sources w w' \<and> (w_db w' = w_db w
    \<or> (\<exists>w1 saved unsaved w2. w_db w1 = w_db w \<and> same_sources w w1
         \<and> save16 S u (sp_Items p) w1 = (saved, unsaved, w2) \<and> w_db w' = w_db w2))"
proof -
  obtain g p1 w1 where get: "sync_get S u p w = (g, p1, w1)" by (metis prod_cases3)
  note gp = sync_get_params [OF get]
  show ?thesis
  proof (cases g)
    case (Ok x)
    obtain rs ov where x: "x = (rs, ov)" by force
    obtain sv un w2 where sv: "save16 S u (sp_Items p1) w1 = (sv, un, w2)" by (metis prod_cases3)
    have "w_db w' = w_db w2 \<and> same_sources w2 w'"
      using assms get Ok x sv
      by (auto simp: Execute16_def split: option.splits prod.splits outcome.splits dest!: respond_frame)
    moreover have "same_sources w w2" using gp save16_sources [OF sv] same_sources_trans by blast
    ultimately show ?thesis using gp sv same_sources_trans by (auto intro!: exI [of _ w1])
  qed (use assms get gp in \<open>auto simp: Execute16_def\<close>)
qed

lemma Execute16_sources: "Execute16 h order S u p w = (out, w') \<Longrightarrow> same_sources w w'"
  by (drule Execute16_storage) simp

lemma Execute16_storageE:
  assumes "Execute16 h order S u p w = (out, w')"
  obtains "w_db w' = w_db w"
  | w1 saved unsaved w2 where "w_db w1 = w_db w" "same_sources w w1" "w_db w' = w_db w2"
      "save16 S u (sp_Items p) w1 = (saved, unsaved, w2)"
  using Execute16_storage [OF assms] by blast

lemma Execute16_OkE:
  assumes "Execute16 h order S u p w = (Ok r, w')"
  obtains rs ov p1 w1 unsaved w2 conflicts ids where
    "sync_get S u p w = (Ok (rs, ov), p1, w1)"
    and "save16 S u (sp_Items p) w1 = (s16_Saved r, unsaved, w2)"
    and "checkForConflicts16 order (s16_Saved r) rs = Some (conflicts, ids)"
    and "respond h S u p1 rs ov (s16_Saved r) ids w2
           = (Ok (s16_Retrieved r, s16_IntegrityHash r, s16_CursorToken r, s16_SyncToken r), w')"
    and "s16_Unsaved r = unsaved @ conflicts"
proof -
  obtain rs ov p1 w1 where get: "sync_get S u p w = (Ok (rs, ov), p1, w1)"
    using assms by (auto simp: Execute16_def split: prod.splits outcome.splits)
  have items: "sp_Items p1 = sp_Items p" using sync_get_params [OF get] by simp
  show thesis
    using assms get items that
    by (auto simp: Execute16_def split: prod.splits outcome.splits option.splits)
qed

text \<open>
  The reported conflicts: exactly the retrieved versions more than twenty seconds away from the saved
  item of the same ID.
\<close>

lemma time_Sub_greater_abs: "minConflictInterval20161215 < \<bar>time_Sub a b\<bar> \<longleftrightarrow> 20000000000 < \<bar>a - b\<bar>"
  using time_Sub_less_abs [of 20000000001 a b]
  by (auto simp: minConflictInterval20161215_def int64_max_def not_less [symmetric])

definition conflict_of ::
  "(string \<Rightarrow> item option) \<Rightarrow> (string \<Rightarrow> item option) \<Rightarrow> string \<Rightarrow> unsaved_item option" where
  "conflict_of saved retrieved i =
     (case (saved i, retrieved i) of
        (Some s, Some r) \<Rightarrow>
          (if 20000000000 < \<bar>the (UpdatedAt s) - the (UpdatedAt r)\<bar>
           then Some \<lparr>ui_Item = r, ui_Message = [], ui_Tag = ''sync_conflict''\<rparr> else None)
      | _ \<Rightarrow> None)"

lemma conflicts16_Cons:
  assumes "conflicts16 saved retrieved (i # ids) = Some cs"
  shows "\<exists>rest. conflicts16 saved retrieved ids = Some rest
           \<and> (\<forall>c. c \<in> set cs \<longleftrightarrow> conflict_of saved retrieved i = Some c \<or> c \<in> set rest)"
  using assms by (auto simp: time_Sub_greater_abs conflict_of_def split: option.splits if_splits)

lemma conflicts16_set:
  "conflicts16 saved retrieved ids = Some cs \<Longrightarrow> c \<in> set cs \<longleftrightarrow> (\<exists>i \<in> set ids. conflict_of saved retrieved i = Some c)"
proof (induction ids arbitrary: cs)
  case (Cons i ids)
  from conflicts16_Cons [OF Cons.prems] Cons.IH show ?case by auto
qed simp

lemma save16_untagged:
  "save16 S u is w = (saved, unsaved, w') \<Longrightarrow> c \<in> set unsaved \<Longrightarrow> ui_Tag c = []"
  by (induction "is" arbitrary: w saved unsaved) (auto split: option.splits prod.splits)

lemma items_by_id_mem: "items_by_id is i = Some x \<Longrightarrow> x \<in> set is \<and> ID x = i"
  by (auto simp: items_by_id_def dest!: map_of_SomeD)

lemma items_by_id_None: "items_by_id is i = None \<Longrightarrow> x \<in> set is \<Longrightarrow> ID x \<noteq> i"
  by (force simp: items_by_id_def map_of_eq_None_iff)

lemma items_by_id_unique:
  assumes "inj_on ID (set is)" and "x \<in> set is"
  shows "items_by_id is (ID x) = Some x"
proof (cases "items_by_id is (ID x)")
  case None
  then show ?thesis using items_by_id_None assms(2) by blast
next
  case (Some y)
  then show ?thesis using items_by_id_mem [OF Some] assms by (auto dest: inj_onD)
qed

context store
begin

lemma Execute16_conflicts:
  assumes ex: "Execute16 h order S u p w = (Ok r, w')" and order: "\<And>ids. set (order ids) = set ids"
    and lim: "sp_Limit p < int64_max" and get: "sync_get S u p w = (Ok (rs, ov), p1, w1)"
    and x: "x \<in> set rs" "UpdatedAt x = Some b"
    and s: "items_by_id (s16_Saved r) (ID x) = Some s" "UpdatedAt s = Some a"
  shows "x \<notin> set (s16_Retrieved r)
    \<and> (\<lparr>ui_Item = x, ui_Message = [], ui_Tag = ''sync_conflict''\<rparr> \<in> set (s16_Unsaved r)
         \<longleftrightarrow> 20000000000 < \<bar>a - b\<bar>)"
proof -
  let ?c = "\<lparr>ui_Item = x, ui_Message = [], ui_Tag = ''sync_conflict''\<rparr>"
  let ?common = "filter (\<lambda>i. items_by_id (s16_Saved r) (ID i) \<noteq> None) rs"
  obtain un w2 conflicts ids where sv: "save16 S u (sp_Items p) w1 = (s16_Saved r, un, w2)"
    and chk: "checkForConflicts16 order (s16_Saved r) rs = Some (conflicts, ids)"
    and resp: "respond h S u p1 rs ov (s16_Saved r) ids w2
           = (Ok (s16_Retrieved r, s16_IntegrityHash r, s16_CursorToken r, s16_SyncToken r), w')"
    and un: "s16_Unsaved r = un @ conflicts"
    using ex by (rule Execute16_OkE) (use get that in simp)
  obtain full where "set full = {i \<in> v_items V (w_db w). sync_wanted u p w i}"
    and "rs = page_of (effective_limit p) full" using sync_get_Ok [OF get lim] by metis
  then have "set rs \<subseteq> v_items V (w_db w)"
    by (auto simp: page_of_def dest!: in_set_takeD split: if_splits)
  then have inj: "inj_on ID (set ?common)" using items.unique_ids [of "w_db w"] by (auto intro: inj_on_subset)
  have ids: "set ids = ID ` set ?common"
    and cs: "conflicts16 (items_by_id (s16_Saved r)) (items_by_id ?common) ids = Some conflicts"
    using chk order by (auto simp: checkForConflicts16_def Let_def)
  have xc: "x \<in> set ?common" using x s by simp
  then have xid: "ID x \<in> set ids" and xx: "items_by_id ?common (ID x) = Some x"
    using ids items_by_id_unique [OF inj] by auto
  have "?c \<in> set conflicts \<longleftrightarrow> 20000000000 < \<bar>a - b\<bar>"
  proof
    assume "?c \<in> set conflicts"
    then obtain i where i: "conflict_of (items_by_id (s16_Saved r)) (items_by_id ?common) i = Some ?c"
      unfolding conflicts16_set [OF cs] by blast
    then have "items_by_id ?common i = Some x" by (auto simp: conflict_of_def split: option.splits if_splits)
    then have "i = ID x" using items_by_id_mem by blast
    then show "20000000000 < \<bar>a - b\<bar>" using i s x(2) xx by (auto simp: conflict_of_def split: if_splits)
  next
    assume "20000000000 < \<bar>a - b\<bar>"
    then have "conflict_of (items_by_id (s16_Saved r)) (items_by_id ?common) (ID x) = Some ?c"
      using s x(2) xx by (simp add: conflict_of_def)
    then show "?c \<in> set conflicts" unfolding conflicts16_set [OF cs] using xid by blast
  qed
  moreover have "?c \<notin> set un" using save16_untagged [OF sv, of ?c] by auto
  ultimately show ?thesis using respond_Ok(1) [OF resp] xid un by auto
qed

end

sublocale sync_env \<subseteq> v16: sync_service "Execute16 sha256 order S" reply16 V sha256
proof (unfold_locales, goal_cases)
  case (1 u p w out w')
  then show ?case by (rule Execute16_sources)
next
  case (2 u p w out w')
  then show ?case by (cases rule: Execute16_storageE) (simp_all add: save16_writes)
next
  case (3 u p w out w' x)
  from 3(1) show ?case
  proof (cases rule: Execute16_storageE)
    case (2 w1 saved unsaved w2)
    have "x \<in> v_items V (w_db w1) \<or> x \<in> set saved" using save16_rows [OF 2(4)] 2(3) 3(2) by simp
    then show ?thesis
      using save16_saved_ok [OF 2(4)] save16_pushed [OF 2(4)] saved_ok_sources [OF 2(2)] 2(1) by auto
  qed (use 3(2) in simp)
next
  case (4 u p w out w' x)
  from 4(1) show ?case
    by (cases rule: Execute16_storageE) (use 4(2,3) save16_keeps in auto)
next
  case (5 u p w r w')
  then show ?case by (rule Execute16_OkE) (simp add: reply16_def save16_answers)
next
  case (6 u p w r w' i)
  obtain rs ov p1 w1 un w2 where get: "sync_get S u p w = (Ok (rs, ov), p1, w1)"
    and sv: "save16 S u (sp_Items p) w1 = (s16_Saved r, un, w2)"
    using 6(1) by (rule Execute16_OkE)
  have "saved_ok u w1 i" using save16_saved_ok [OF sv] 6(2) by (simp add: reply16_def)
  then show ?case using sync_get_params [OF get] saved_ok_sources by blast
next
  case (7 u p w r w')
  from 7(1) show ?case by (rule Execute16_OkE) (use 7(2) respond_page(1) in \<open>simp add: reply16_def\<close>)
next
  case (8 u p w r w')
  then show ?case
    by (rule Execute16_OkE)
      (auto simp: reply16_def dest!: respond_Ok(2) sync_get_params save16_sources intro: same_sources_trans)
next
  case (9 u p w r w')
  from 9(1) show ?case by (rule Execute16_OkE) (use 9(2) respond_page(2) in \<open>simp add: reply16_def\<close>)
next
  case (10 u p w r w')
  then show ?case
    by (rule Execute16_OkE) (drule respond_integrity, simp add: reply16_def, use sync_get_params in fastforce)
next
  case (11 u p w r w')
  from 11(1) show ?case by (rule Execute16_OkE) (use 11(2) respond_page(3) in \<open>simp add: reply16_def\<close>)
next
  case (12 u p w r w')
  obtain rs ov p1 w1 un w2 cs ids where get: "sync_get S u p w = (Ok (rs, ov), p1, w1)"
    and sv: "save16 S u (sp_Items p) w1 = (s16_Saved r, un, w2)"
    and chk: "checkForConflicts16 order (s16_Saved r) rs = Some (cs, ids)"
    and resp: "respond sha256 S u p1 rs ov (s16_Saved r) ids w2
           = (Ok (s16_Retrieved r, s16_IntegrityHash r, s16_CursorToken r, s16_SyncToken r), w')"
    using 12(1) by (rule Execute16_OkE)
  have "s16_Saved r = []" using sv 12(4) by simp
  then have "ids = []" using chk order_set [of "[]"] by (auto simp: checkForConflicts16_def items_by_id_def)
  then show ?case using respond_page(4) [OF get 12(2) resp 12(3)] by (simp add: reply16_def)
next
  case (13 u p w r w' i)
  from 13(1) show ?case
  proof (rule Execute16_OkE)
    fix rs ov p1 w1 un w2 cs ids
    assume sv: "save16 S u (sp_Items p) w1 = (s16_Saved r, un, w2)"
      and "respond sha256 S u p1 rs ov (s16_Saved r) ids w2
           = (Ok (s16_Retrieved r, s16_IntegrityHash r, s16_CursorToken r, s16_SyncToken r), w')"
    then show ?thesis using save16_stored [OF sv _ 13(3,4)] 13(2) respond_frame by (fastforce simp: reply16_def)
  qed
qed

end
