(* ===== verification/Sync_20190520.thy ===== *)
theory Sync_20190520
  imports Sync_Contract
begin

text \<open>
  \<^verbatim>\<open>internal/server/service/sync_20190520.go\<close>: the synchronisation of API versions 20190520 and
  20200115. An incoming item replaces the user's stored one only when both carry the same timestamp
  to within a millisecond; otherwise the stored item is sent back as a conflict.
\<close>

record conflict_item =
  ci_UnsavedItem :: "item option"
  ci_ServerItem :: "item option"
  ci_Type :: string

record sync19 =
  s19_Retrieved :: "item list"
  s19_Saved :: "item list"
  s19_Conflicts :: "conflict_item list"
  s19_SyncToken :: string
  s19_CursorToken :: string
  s19_IntegrityHash :: string

definition minConflictIntervalMicrosecond20190520 :: int where
  "minConflictIntervalMicrosecond20190520 = 1000"

text \<open>
  \<open>math.Abs(float64(difference))\<close> is exact below \<open>2^53\<close> and stays above the interval beyond, so the
  comparison is the one of the integers.
\<close>

definition saveIncoming :: "time \<Rightarrow> time \<Rightarrow> bool" where
  "saveIncoming incoming server =
     (let difference = Microseconds (time_Sub incoming server)
      in if difference < 0 \<or> difference > 0
         then \<bar>difference\<bar> < minConflictIntervalMicrosecond20190520
         else True)"

text \<open>One round of the loop of \<open>save\<close>: what it appends to its three results.\<close>

definition save19_item ::
  "'db storm \<Rightarrow> user \<Rightarrow> item \<Rightarrow> 'db world
   \<Rightarrow> (err, item list \<times> conflict_item list \<times> string list) outcome \<times> 'db world" where
  "save19_item S u i w =
     (let i1 = i\<lparr>it_UserID := ID u\<rparr>;
          update = (\<lambda>w. (let i2 = (if it_Deleted i1 then prepareDelete i1 else i1);
                             (i3, e, w1) = Save (st_items S) i2 w
                         in case e of
                              Some _ \<Rightarrow> (Ok ([], [\<lparr>ci_UnsavedItem = Some i3, ci_ServerItem = None,
                                                  ci_Type = ''uuid_conflict''\<rparr>], []), w1)
                            | None \<Rightarrow> (Ok ([i3], [], []), w1)))
      in case FindItemByUserID S (ID i1) (ID u) w of
           Inl e \<Rightarrow>
             if \<not> IsNotFound (Some e)
             then (Ok ([], [\<lparr>ci_UnsavedItem = Some i1, ci_ServerItem = None, ci_Type = ''internal_error''\<rparr>], []), w)
             else update w
         | Inr serverItem \<Rightarrow>
             (case (UpdatedAt i1, UpdatedAt serverItem) of
                (Some incoming, Some server) \<Rightarrow>
                  if \<not> saveIncoming incoming server
                  then (Ok ([], [\<lparr>ci_UnsavedItem = None, ci_ServerItem = Some serverItem,
                                 ci_Type = ''sync_conflict''\<rparr>], [ID serverItem]), w)
                  else update w
              | _ \<Rightarrow> (Panic ''nil pointer dereference'', w)))"

fun save19 ::
  "'db storm \<Rightarrow> user \<Rightarrow> item list \<Rightarrow> 'db world
   \<Rightarrow> (err, item list \<times> conflict_item list \<times> string list) outcome \<times> 'db world" where
  "save19 S u [] w = (Ok ([], [], []), w)"
| "save19 S u (i # is) w =
     (case save19_item S u i w of
        (Ok (sv, cf, del), w1) \<Rightarrow>
          (case save19 S u is w1 of
             (Ok (svs, cfs, dels), w2) \<Rightarrow> (Ok (sv @ svs, cf @ cfs, del @ dels), w2)
           | (Err e, w2) \<Rightarrow> (Err e, w2)
           | (Panic m, w2) \<Rightarrow> (Panic m, w2))
      | (Err e, w1) \<Rightarrow> (Err e, w1)
      | (Panic m, w1) \<Rightarrow> (Panic m, w1))"

definition Execute19 ::
  "(bytes \<Rightarrow> bytes) \<Rightarrow> 'db storm \<Rightarrow> user \<Rightarrow> sync_params \<Rightarrow> 'db world \<Rightarrow> (err, sync19) outcome \<times> 'db world" where
  "Execute19 sha256 S u p w =
     (case sync_get S u p w of
        (Err e, p1, w1) \<Rightarrow> (Err e, w1)
      | (Panic m, p1, w1) \<Rightarrow> (Panic m, w1)
      | (Ok (retrieved, overLimit), p1, w1) \<Rightarrow>
          (case save19 S u (sp_Items p1) w1 of
             (Err e, w2) \<Rightarrow> (Err e, w2)
           | (Panic m, w2) \<Rightarrow> (Panic m, w2)
           | (Ok (saved, conflicts, toDelete), w2) \<Rightarrow>
               (case respond sha256 S u p1 retrieved overLimit saved toDelete w2 of
                  (Err e, w3) \<Rightarrow> (Err e, w3)
                | (Panic m, w3) \<Rightarrow> (Panic m, w3)
                | (Ok (kept, hash, cursor, token), w3) \<Rightarrow>
                    (Ok \<lparr>s19_Retrieved = kept, s19_Saved = saved, s19_Conflicts = conflicts,
                         s19_SyncToken = token, s19_CursorToken = cursor, s19_IntegrityHash = hash\<rparr>, w3))))"

subsection \<open>The comparison of the timestamps\<close>

text \<open>Despite the saturating subtraction and the truncation to microseconds, it is a distance of a millisecond.\<close>

lemma saveIncoming_iff: "saveIncoming a b \<longleftrightarrow> \<bar>a - b\<bar> < 1000000"
proof -
  have "saveIncoming a b \<longleftrightarrow> \<bar>Microseconds (time_Sub a b)\<bar> < 1000"
    by (auto simp: saveIncoming_def Let_def minConflictIntervalMicrosecond20190520_def)
  also have "\<dots> \<longleftrightarrow> \<bar>time_Sub a b\<bar> < 1000000"
    by (simp add: Microseconds_def abs_go_quot_less)
  also have "\<dots> \<longleftrightarrow> \<bar>a - b\<bar> < 1000000"
    by (rule time_Sub_less_abs) (simp_all add: int64_max_def)
  finally show ?thesis .
qed

subsection \<open>One item\<close>

text \<open>The item a conflict is about: the server's, when there is one.\<close>

definition conflict_about :: "conflict_item \<Rightarrow> item option" where
  "conflict_about c = (case ci_ServerItem c of None \<Rightarrow> ci_UnsavedItem c | Some x \<Rightarrow> Some x)"

text \<open>The cases of a round: the item is written, refused or reported, or the code panics.\<close>

lemma save19_itemE:
  assumes "save19_item S u i w = (out, w')"
  obtains (saved) si where "out = Ok ([si], [], [])" "Save (st_items S) (owned_item u i) w = (si, None, w')"
      "si = stamped (owned_item u i) w"
      "\<And>x. FindItemByUserID S (ID i) (ID u) w = Inr x \<Longrightarrow>
         \<exists>a b. UpdatedAt i = Some a \<and> UpdatedAt x = Some b \<and> \<bar>a - b\<bar> < 1000000"
      "\<And>e. FindItemByUserID S (ID i) (ID u) w = Inl e \<Longrightarrow> IsNotFound (Some e)"
  | (failed) si e where "out = Ok ([], [\<lparr>ci_UnsavedItem = Some si, ci_ServerItem = None,
        ci_Type = ''uuid_conflict''\<rparr>], [])" "Save (st_items S) (owned_item u i) w = (si, Some e, w')"
  | (storage) e where "out = Ok ([], [\<lparr>ci_UnsavedItem = Some (i\<lparr>it_UserID := ID u\<rparr>), ci_ServerItem = None,
        ci_Type = ''internal_error''\<rparr>], [])" "w' = w"
      "FindItemByUserID S (ID i) (ID u) w = Inl e" "\<not> IsNotFound (Some e)"
  | (stale) x a b where "out = Ok ([], [\<lparr>ci_UnsavedItem = None, ci_ServerItem = Some x,
        ci_Type = ''sync_conflict''\<rparr>], [ID x])" "w' = w" "FindItemByUserID S (ID i) (ID u) w = Inr x"
      "UpdatedAt i = Some a" "UpdatedAt x = Some b" "1000000 \<le> \<bar>a - b\<bar>"
  | (panic) m x where "out = Panic m" "w' = w" "FindItemByUserID S (ID i) (ID u) w = Inr x"
      "UpdatedAt i = None \<or> UpdatedAt x = None"
proof -
  obtain si e w1 where sv: "Save (st_items S) (owned_item u i) w = (si, e, w1)" by (metis prod_cases3)
  have owned: "(let i2 = (if it_Deleted (i\<lparr>it_UserID := ID u\<rparr>) then prepareDelete (i\<lparr>it_UserID := ID u\<rparr>)
                          else i\<lparr>it_UserID := ID u\<rparr>) in f (Save (st_items S) i2 w))
             = f (Save (st_items S) (owned_item u i) w)" for f
    by (simp add: owned_item_def Let_def)
  show thesis
  proof (cases "FindItemByUserID S (ID i) (ID u) w")
    case (Inl x)
    then show thesis
      using assms sv owned [of "\<lambda>x. x"] Save_result(1) [OF sv]
      by (cases e) (auto simp: save19_item_def Let_def owned_item_def split: if_splits
          intro: saved failed storage)
  next
    case (Inr x)
    then show thesis
      using assms sv Save_result(1) [OF sv]
      by (cases e; cases "UpdatedAt i"; cases "UpdatedAt x")
        (auto simp: save19_item_def Let_def owned_item_def saveIncoming_iff not_less split: if_splits
          intro: saved failed stale panic)
  qed
qed

subsection \<open>The saving loop\<close>

lemma save19_ConsE:
  assumes "save19 S u (i # is) w = (Ok (saved, conflicts, del), w')"
  obtains sv cf d w1 svs cfs ds where "save19_item S u i w = (Ok (sv, cf, d), w1)"
    and "save19 S u is w1 = (Ok (svs, cfs, ds), w')"
    and "saved = sv @ svs" and "conflicts = cf @ cfs" and "del = d @ ds"
  using assms by (auto split: prod.splits outcome.splits)

text \<open>A reflexive and transitive relation that every round keeps holds across the loop, however it ends.\<close>

lemma save19_relation:
  assumes "save19 S u is w = (out, w')" and "\<And>w. R w w" and "\<And>a b c. R a b \<Longrightarrow> R b c \<Longrightarrow> R a c"
    and step: "\<And>i w out w'. i \<in> set is \<Longrightarrow> save19_item S u i w = (out, w') \<Longrightarrow> R w w'"
  shows "R w w'"
proof -
  have "R w (snd (save19 S u is w))" using step
  proof (induction "is" arbitrary: w)
    case (Cons i "is")
    obtain o1 w1 where one: "save19_item S u i w = (o1, w1)" by force
    have first: "R w w1" using Cons.prems [of i] one by simp
    have "R w1 (snd (save19 S u is w1))" by (rule Cons.IH) (use Cons.prems in auto)
    then have "R w (snd (save19 S u is w1))" using first assms(3) by blast
    then show ?case using one first by (auto split: outcome.splits prod.splits)
  qed (simp add: assms(2))
  then show ?thesis using assms(1) by simp
qed

lemma save19_item_sources: "save19_item S u i w = (out, w') \<Longrightarrow> same_sources w w'"
  by (erule save19_itemE) (auto dest: Save_result(3))

lemma save19_sources: "save19 S u is w = (out, w') \<Longrightarrow> same_sources w w'"
  by (erule save19_relation) (auto intro: save19_item_sources same_sources_trans)

lemma save19_saved_ok:
  "save19 S u is w = (Ok (saved, conflicts, del), w') \<Longrightarrow> i \<in> set saved \<Longrightarrow> saved_ok u w i"
proof (induction "is" arbitrary: w saved conflicts del)
  case (Cons j "is")
  from Cons.prems(1) show ?case
  proof (rule save19_ConsE)
    fix sv cf d w1 svs cfs ds
    assume one: "save19_item S u j w = (Ok (sv, cf, d), w1)" and rest: "save19 S u is w1 = (Ok (svs, cfs, ds), w')"
      and "saved = sv @ svs"
    moreover have "\<forall>x \<in> set sv. saved_ok u w x" using one by (rule save19_itemE) (auto simp: saved_ok_stamped)
    ultimately show ?case
      using Cons.IH [OF rest] Cons.prems(2) saved_ok_sources [OF save19_item_sources [OF one]] by auto
  qed
qed simp

text \<open>
  A stored item that is gone after the loop was replaced by an incoming one: the user's own item only
  by one with the stored timestamp, to within a millisecond.
\<close>

definition may_replace :: "user \<Rightarrow> item list \<Rightarrow> item \<Rightarrow> bool" where
  "may_replace u is x \<longleftrightarrow>
     (\<exists>i \<in> set is. ID i = ID x
        \<and> (it_UserID x = ID u \<longrightarrow>
            (\<exists>a b. UpdatedAt i = Some a \<and> UpdatedAt x = Some b \<and> \<bar>a - b\<bar> < 1000000)))"

context store
begin

lemma save19_item_answers:
  assumes "save19_item S u i w = (Ok (sv, cf, del), w')" and "answers u is ss rs"
  shows "answers u (i # is) (sv @ ss) (List.map_filter conflict_about cf @ rs)"
  using assms(1)
proof (cases rule: save19_itemE)
  case (saved si)
  then show ?thesis using assms(2) by (simp add: answers_saved saves_stamped List.map_filter_simps)
next
  case (failed si e)
  then have "rejects u i si" using rejects_stamped Save_result(1) [OF failed(2)] by simp
  then show ?thesis using failed(1) assms(2) by (simp add: answers_rejected conflict_about_def List.map_filter_simps)
next
  case (storage e)
  then show ?thesis using assms(2) by (simp add: answers_rejected rejects_def conflict_about_def List.map_filter_simps)
next
  case (stale x a b)
  then have "rejects u i x" using FindItemByUserID_Inr [OF stale(3)] by (simp add: rejects_def)
  then show ?thesis using stale(1) assms(2) by (simp add: answers_rejected conflict_about_def List.map_filter_simps)
qed simp

lemma save19_answers:
  "save19 S u is w = (Ok (saved, conflicts, del), w') \<Longrightarrow> answers u is saved (List.map_filter conflict_about conflicts)"
proof (induction "is" arbitrary: w saved conflicts del)
  case (Cons i "is")
  from Cons.prems show ?case
  proof (rule save19_ConsE)
    fix sv cf d w1 svs cfs ds
    assume one: "save19_item S u i w = (Ok (sv, cf, d), w1)" and rest: "save19 S u is w1 = (Ok (svs, cfs, ds), w')"
      and eqs: "saved = sv @ svs" "conflicts = cf @ cfs"
    show ?case using save19_item_answers [OF one Cons.IH [OF rest]] eqs by (simp add: map_filter_def)
  qed
qed (simp add: answers_none List.map_filter_simps)

lemma save19_item_writes:
  assumes "save19_item S u i w = (out, w')"
  shows "w_db w' = w_db w \<or> (\<exists>si. si = stamped (owned_item u i) w
    \<and> Save (st_items S) (owned_item u i) w = (si, None, w')
    \<and> v_items V (w_db w') = insert si {x \<in> v_items V (w_db w). ID x \<noteq> ID si}
    \<and> (\<forall>x. FindItemByUserID S (ID i) (ID u) w = Inr x \<longrightarrow>
          (\<exists>a b. UpdatedAt i = Some a \<and> UpdatedAt x = Some b \<and> \<bar>a - b\<bar> < 1000000))
    \<and> (\<forall>e. FindItemByUserID S (ID i) (ID u) w = Inl e \<longrightarrow> IsNotFound (Some e)))"
  using assms
proof (cases rule: save19_itemE)
  case (saved si)
  then show ?thesis using items.Save_rows [OF saved(2)] by auto
next
  case (failed si e)
  then show ?thesis using Save_result(5) [OF failed(2)] by simp
qed simp_all

lemma save19_frame:
  assumes "save19 S u is w = (out, w')"
  shows "v_users V (w_db w') = v_users V (w_db w) \<and> v_sessions V (w_db w') = v_sessions V (w_db w)
     \<and> v_pkces V (w_db w') = v_pkces V (w_db w)"
proof (rule save19_relation [OF assms])
  fix i w out w' assume "save19_item S u i w = (out, w')"
  from save19_item_writes [OF this] show "v_users V (w_db w') = v_users V (w_db w)
      \<and> v_sessions V (w_db w') = v_sessions V (w_db w) \<and> v_pkces V (w_db w') = v_pkces V (w_db w)"
    using frame_items [OF writes_Save] by (elim disjE exE conjE) auto
qed auto

lemma save19_writes_own:
  assumes "save19 S u is w = (out, w')"
  shows "same_sources w w' \<and> (\<forall>x \<in> v_items V (w_db w').
           x \<in> v_items V (w_db w) \<or> saved_ok u w x \<and> pushed is x)"
proof (rule save19_relation [OF assms])
  fix i w out w' assume i: "i \<in> set is" and one: "save19_item S u i w = (out, w')"
  then have "pushed is (stamped (owned_item u i) w)" by (auto simp: pushed_def ID_stamped)
  with save19_item_writes [OF one]
  have "\<forall>x \<in> v_items V (w_db w'). x \<in> v_items V (w_db w) \<or> saved_ok u w x \<and> pushed is x"
    by (elim disjE exE conjE) (auto simp: saved_ok_stamped)
  then show "same_sources w w' \<and> (\<forall>x \<in> v_items V (w_db w').
           x \<in> v_items V (w_db w) \<or> saved_ok u w x \<and> pushed is x)"
    using save19_item_sources [OF one] by blast
qed (auto intro: same_sources_trans saved_ok_sources)

lemma save19_item_replaces:
  assumes one: "save19_item S u i w = (out, w')" and x: "x \<in> v_items V (w_db w)" "x \<notin> v_items V (w_db w')"
    and "ID i \<noteq> []"
  shows "ID i = ID x \<and> (it_UserID x = ID u \<longrightarrow>
            (\<exists>a b. UpdatedAt i = Some a \<and> UpdatedAt x = Some b \<and> \<bar>a - b\<bar> < 1000000))"
proof -
  obtain si where si: "si = stamped (owned_item u i) w"
    and rows: "v_items V (w_db w') = insert si {x \<in> v_items V (w_db w). ID x \<noteq> ID si}"
    and near: "\<And>x. FindItemByUserID S (ID i) (ID u) w = Inr x \<Longrightarrow>
          (\<exists>a b. UpdatedAt i = Some a \<and> UpdatedAt x = Some b \<and> \<bar>a - b\<bar> < 1000000)"
    and missing: "\<And>e. FindItemByUserID S (ID i) (ID u) w = Inl e \<Longrightarrow> IsNotFound (Some e)"
    using save19_item_writes [OF one] x by auto
  have id: "ID x = ID i" using x rows si assms(4) by (auto simp: ID_stamped)
  have "\<exists>a b. UpdatedAt i = Some a \<and> UpdatedAt x = Some b \<and> \<bar>a - b\<bar> < 1000000" if own: "it_UserID x = ID u"
  proof (cases "FindItemByUserID S (ID i) (ID u) w")
    case (Inl e)
    then show ?thesis using FindItemByUserID_missing [OF Inl missing [OF Inl] x(1)] id own by simp
  next
    case (Inr y)
    then have "y = x" using FindItemByUserID_Inr [OF Inr] items.rows_id_eq [OF _ x(1)] id by metis
    then show ?thesis using near [OF Inr] by simp
  qed
  then show ?thesis using id by simp
qed

lemma save19_replaces:
  assumes "save19 S u is w = (out, w')" and "\<forall>i \<in> set is. ID i \<noteq> []"
  shows "\<forall>x \<in> v_items V (w_db w). x \<in> v_items V (w_db w') \<or> may_replace u is x"
proof (rule save19_relation [OF assms(1)])
  fix i w out w' assume i: "i \<in> set is" and one: "save19_item S u i w = (out, w')"
  show "\<forall>x \<in> v_items V (w_db w). x \<in> v_items V (w_db w') \<or> may_replace u is x"
    using save19_item_replaces [OF one] i assms(2) unfolding may_replace_def by blast
qed blast+

lemma save19_keeps:
  assumes "save19 S u is w = (out, w')" and "\<not> pushed is x" and "x \<in> v_items V (w_db w)"
  shows "x \<in> v_items V (w_db w')"
proof -
  have "\<forall>i \<in> set is. ID i \<noteq> []" and "\<not> may_replace u is x"
    using assms(2) by (auto simp: pushed_def may_replace_def)
  then show ?thesis using save19_replaces [OF assms(1)] assms(3) by blast
qed

lemma save19_stored:
  "save19 S u is w = (Ok (saved, conflicts, del), w') \<Longrightarrow> i \<in> set saved \<Longrightarrow> distinct (map ID is) \<Longrightarrow>
     [] \<notin> ID ` set is \<Longrightarrow>
     i \<in> v_items V (w_db w') \<and> (\<exists>j \<in> set is. \<exists>w1 :: 'db world. i = stamped (owned_item u j) w1)"
proof (induction "is" arbitrary: w saved conflicts del)
  case (Cons j "is")
  obtain sv cf d w1 svs cfs ds where one: "save19_item S u j w = (Ok (sv, cf, d), w1)"
    and rest: "save19 S u is w1 = (Ok (svs, cfs, ds), w')" and sv: "saved = sv @ svs"
    using Cons.prems(1) by (rule save19_ConsE)
  show ?case
  proof (cases "i \<in> set svs")
    case True
    then show ?thesis using Cons.IH [OF rest] Cons.prems(3,4) by auto
  next
    case False
    then have "i \<in> set sv" using Cons.prems(2) sv by auto
    with one have i: "i = stamped (owned_item u j) w" "Save (st_items S) (owned_item u j) w = (i, None, w1)"
      by (auto elim!: save19_itemE)
    then have "i \<in> v_items V (w_db w1)" using items.Save_rows [OF i(2)] by simp
    moreover have "\<not> pushed is i" using pushed_once [OF Cons.prems(3,4)] i by simp
    ultimately show ?thesis using save19_keeps [OF rest] i(1) by auto
  qed
qed simp

end

subsection \<open>The service\<close>

definition reply19 :: "sync19 \<Rightarrow> sync_reply" where
  "reply19 r =
     \<lparr>rp_retrieved = s19_Retrieved r, rp_saved = s19_Saved r, rp_rejected = List.map_filter conflict_about (s19_Conflicts r),
      rp_SyncToken = s19_SyncToken r, rp_CursorToken = s19_CursorToken r,
      rp_IntegrityHash = s19_IntegrityHash r\<rparr>"

lemma Execute19_storage:
  assumes "Execute19 h S u p w = (out, w')"
  shows "same_sources w w' \<and> (w_db w' = w_db w
    \<or> (\<exists>w1 o2 w2. w_db w1 = w_db w \<and> same_sources w w1
         \<and> save19 S u (sp_Items p) w1 = (o2, w2) \<and> w_db w' = w_db w2))"
proof -
  obtain g p1 w1 where get: "sync_get S u p w = (g, p1, w1)" by (metis prod_cases3)
  note gp = sync_get_params [OF get]
  show ?thesis
  proof (cases g)
    case (Ok x)
    obtain rs ov where x: "x = (rs, ov)" by force
    obtain o2 w2 where sv: "save19 S u (sp_Items p1) w1 = (o2, w2)" by force
    have "w_db w' = w_db w2 \<and> same_sources w2 w'"
      using assms get Ok x sv
      by (auto simp: Execute19_def split: prod.splits outcome.splits dest!: respond_frame)
    moreover have "same_sources w w2" using gp save19_sources [OF sv] same_sources_trans by blast
    ultimately show ?thesis using gp sv same_sources_trans by (auto intro!: exI [of _ w1])
  qed (use assms get gp in \<open>auto simp: Execute19_def\<close>)
qed

lemma Execute19_sources: "Execute19 h S u p w = (out, w') \<Longrightarrow> same_sources w w'"
  by (drule Execute19_storage) simp

lemma Execute19_storageE:
  assumes "Execute19 h S u p w = (out, w')"
  obtains "w_db w' = w_db w"
  | w1 o2 w2 where "w_db w1 = w_db w" "same_sources w w1" "w_db w' = w_db w2"
      "save19 S u (sp_Items p) w1 = (o2, w2)"
  using Execute19_storage [OF assms] by blast

lemma Execute19_OkE:
  assumes "Execute19 h S u p w = (Ok r, w')"
  obtains rs ov p1 w1 w2 ids where
    "sync_get S u p w = (Ok (rs, ov), p1, w1)"
    and "save19 S u (sp_Items p) w1 = (Ok (s19_Saved r, s19_Conflicts r, ids), w2)"
    and "respond h S u p1 rs ov (s19_Saved r) ids w2
           = (Ok (s19_Retrieved r, s19_IntegrityHash r, s19_CursorToken r, s19_SyncToken r), w')"
proof -
  obtain rs ov p1 w1 where get: "sync_get S u p w = (Ok (rs, ov), p1, w1)"
    using assms by (auto simp: Execute19_def split: prod.splits outcome.splits)
  have items: "sp_Items p1 = sp_Items p" using sync_get_params [OF get] by simp
  show thesis
    using assms get items that
    by (auto simp: Execute19_def split: prod.splits outcome.splits)
qed

sublocale sync_env \<subseteq> v19: sync_service "Execute19 sha256 S" reply19 V sha256
proof (unfold_locales, goal_cases)
  case (1 u p w out w')
  then show ?case by (rule Execute19_sources)
next
  case (2 u p w out w')
  then show ?case by (cases rule: Execute19_storageE) (simp_all add: save19_frame)
next
  case (3 u p w out w' x)
  from 3(1) show ?case
  proof (cases rule: Execute19_storageE)
    case (2 w1 o2 w2)
    then show ?thesis
      using save19_writes_own [OF 2(4)] 3(2) saved_ok_sources [OF 2(2)] by fastforce
  qed (use 3(2) in simp)
next
  case (4 u p w out w' x)
  from 4(1) show ?case
    by (cases rule: Execute19_storageE) (use 4(2,3) save19_keeps in auto)
next
  case (5 u p w r w')
  then show ?case by (rule Execute19_OkE) (simp add: reply19_def save19_answers)
next
  case (6 u p w r w' i)
  obtain rs ov p1 w1 ids w2 where get: "sync_get S u p w = (Ok (rs, ov), p1, w1)"
    and sv: "save19 S u (sp_Items p) w1 = (Ok (s19_Saved r, s19_Conflicts r, ids), w2)"
    using 6(1) by (rule Execute19_OkE)
  have "saved_ok u w1 i" using save19_saved_ok [OF sv] 6(2) by (simp add: reply19_def)
  then show ?case using sync_get_params [OF get] saved_ok_sources by blast
next
  case (7 u p w r w')
  from 7(1) show ?case by (rule Execute19_OkE) (use 7(2) respond_page(1) in \<open>simp add: reply19_def\<close>)
next
  case (8 u p w r w')
  then show ?case
    by (rule Execute19_OkE)
      (auto simp: reply19_def dest!: respond_Ok(2) sync_get_params save19_sources intro: same_sources_trans)
next
  case (9 u p w r w')
  from 9(1) show ?case by (rule Execute19_OkE) (use 9(2) respond_page(2) in \<open>simp add: reply19_def\<close>)
next
  case (10 u p w r w')
  then show ?case
    by (rule Execute19_OkE) (drule respond_integrity, simp add: reply19_def, use sync_get_params in fastforce)
next
  case (11 u p w r w')
  from 11(1) show ?case by (rule Execute19_OkE) (use 11(2) respond_page(3) in \<open>simp add: reply19_def\<close>)
next
  case (12 u p w r w')
  from 12(1) show ?case
    by (rule Execute19_OkE) (use 12(2-4) respond_page(4) in \<open>simp add: reply19_def\<close>)
next
  case (13 u p w r w' i)
  from 13(1) show ?case
  proof (rule Execute19_OkE)
    fix rs ov p1 w1 w2 ids
    assume sv: "save19 S u (sp_Items p) w1 = (Ok (s19_Saved r, s19_Conflicts r, ids), w2)"
      and "respond sha256 S u p1 rs ov (s19_Saved r) ids w2
           = (Ok (s19_Retrieved r, s19_IntegrityHash r, s19_CursorToken r, s19_SyncToken r), w')"
    then show ?thesis using save19_stored [OF sv _ 13(3,4)] 13(2) respond_frame by (fastforce simp: reply19_def)
  qed
qed

text \<open>A request that pushes one item.\<close>

lemma Execute19_single:
  assumes ex: "Execute19 h S u p w = (out, w')" and "sp_Items p = [i]"
  obtains "\<not> is_Ok out" "w_db w' = w_db w" "\<not> is_Ok (fst (sync_get S u p w))"
  | w1 o1 w2 where "w_db w1 = w_db w" "same_sources w w1" "save19_item S u i w1 = (o1, w2)" "w_db w' = w_db w2"
      "\<And>sv cf d. o1 = Ok (sv, cf, d) \<Longrightarrow> \<forall>r. out = Ok r \<longrightarrow> s19_Saved r = sv \<and> s19_Conflicts r = cf
          \<and> (\<forall>x \<in> set (s19_Retrieved r). ID x \<notin> set d)"
      "\<not> is_Ok o1 \<Longrightarrow> out = map_outcome_value undefined o1"
proof -
  obtain g p1 w1 where get: "sync_get S u p w = (g, p1, w1)" by (metis prod_cases3)
  note gp = sync_get_params [OF get]
  show thesis
  proof (cases g)
    case (Ok x)
    obtain rs ov where x: "x = (rs, ov)" by force
    obtain o1 w2 where sv: "save19_item S u i w1 = (o1, w2)" by force
    have it: "sp_Items p1 = [i]" using gp assms(2) by simp
    show thesis
    proof (cases o1)
      case o: (Ok y)
      obtain sv' cf d where y: "y = (sv', cf, d)" by (metis prod_cases3)
      obtain o3 w3 where resp: "respond h S u p1 rs ov sv' d w2 = (o3, w3)" by force
      have "w_db w' = w_db w2" using ex get Ok x it sv o y resp respond_frame [OF resp]
        by (auto simp: Execute19_def split: outcome.splits)
      moreover have "\<forall>r. out = Ok r \<longrightarrow> s19_Saved r = sv' \<and> s19_Conflicts r = cf
          \<and> (\<forall>x \<in> set (s19_Retrieved r). ID x \<notin> set d)"
        using ex get Ok x it sv o y resp respond_Ok(1) [of h S u p1 rs ov sv' d w2]
        by (auto simp: Execute19_def split: outcome.splits)
      ultimately show thesis using gp sv o y that(2) [of w1 o1 w2] by simp
    qed (use ex get Ok x it sv gp that(2) [of w1 o1 w2] in \<open>auto simp: Execute19_def\<close>)
  qed (use ex get gp that(1) in \<open>auto simp: Execute19_def\<close>)
qed

text \<open>The panic on an incoming item without a timestamp.\<close>

lemma Execute19_nil_timestamp:
  assumes ex: "Execute19 h S u p w = (out, w')" and p: "sp_Items p = [i]"
    and "FindItemByUserID S (ID i) (ID u) w = Inr x" and "UpdatedAt i = None"
    and "is_Ok (fst (sync_get S u p w))"
  shows "out = Panic ''nil pointer dereference''"
  using ex p
proof (cases rule: Execute19_single)
  case (2 w1 o1 w2)
  have "FindItemByUserID S (ID i) (ID u) w1 = Inr x" using assms(3) 2(1) by (simp add: FindItemByUserID_def)
  then have "o1 = Panic ''nil pointer dereference''"
    using 2(3) assms(4) by (simp add: save19_item_def Let_def)
  then show ?thesis using 2(6) by simp
qed (use assms(5) in simp)

context store
begin

text \<open>No lost update: see \<open>may_replace\<close>.\<close>

lemma Execute19_replaces:
  assumes "Execute19 h S u p w = (out, w')" and "\<forall>i \<in> set (sp_Items p). ID i \<noteq> []"
    and "x \<in> v_items V (w_db w)"
  shows "x \<in> v_items V (w_db w') \<or> may_replace u (sp_Items p) x"
  using assms(1)
proof (cases rule: Execute19_storageE)
  case (2 w1 o2 w2)
  then show ?thesis using save19_replaces [OF 2(4) assms(2)] assms(3) by simp
qed (use assms(3) in simp)

text \<open>
  A single stale item: nothing is written, and the stored version comes back as the conflict, unless
  the storage failed.
\<close>

lemma Execute19_stale:
  assumes ex: "Execute19 h S u p w = (Ok r, w')" and p: "sp_Items p = [i]"
    and x: "x \<in> v_items V (w_db w)" "ID x = ID i" "it_UserID x = ID u"
    and t: "UpdatedAt i = Some a" "UpdatedAt x = Some b" "1000000 \<le> \<bar>a - b\<bar>"
  shows "w_db w' = w_db w \<and> s19_Saved r = []
    \<and> (\<exists>c. s19_Conflicts r = [c]
         \<and> (ci_Type c = ''internal_error''
            \<or> c = \<lparr>ci_UnsavedItem = None, ci_ServerItem = Some x, ci_Type = ''sync_conflict''\<rparr>
              \<and> x \<notin> set (s19_Retrieved r)))"
  using ex p
proof (cases rule: Execute19_single)
  case (2 w1 o1 w2)
  show ?thesis
  proof (cases "FindItemByUserID S (ID i) (ID u) w1")
    case (Inl e)
    then have "\<not> IsNotFound (Some e)" using FindItemByUserID_missing [OF Inl] x 2(1) by auto
    then have "o1 = Ok ([], [\<lparr>ci_UnsavedItem = Some (i\<lparr>it_UserID := ID u\<rparr>), ci_ServerItem = None,
        ci_Type = ''internal_error''\<rparr>], [])" and "w2 = w1"
      using 2(3) Inl by (simp_all add: save19_item_def Let_def)
    then show ?thesis using 2(1,4) 2(5) [OF \<open>o1 = _\<close>] by simp
  next
    case (Inr y)
    then have y: "y = x" using FindItemByUserID_Inr [OF Inr] items.rows_id_eq [OF _ x(1)] x(2) 2(1) by metis
    have "o1 = Ok ([], [\<lparr>ci_UnsavedItem = None, ci_ServerItem = Some x, ci_Type = ''sync_conflict''\<rparr>], [ID x])"
      and "w2 = w1"
      using 2(3) Inr t by (auto simp: y save19_item_def Let_def saveIncoming_iff)
    then show ?thesis using 2(1,4) 2(5) [OF \<open>o1 = _\<close>] by auto
  qed
qed simp

text \<open>The take-over of another user's item.\<close>

lemma Execute19_takes_over:
  assumes ex: "Execute19 h S u p w = (Ok r, w')" and p: "sp_Items p = [i]"
    and x: "x \<in> v_items V (w_db w)" "ID x = ID i" "it_UserID x \<noteq> ID u" and "ID i \<noteq> []"
    and "s19_Saved r \<noteq> []"
  shows "x \<notin> v_items V (w_db w') \<and> (\<exists>y \<in> v_items V (w_db w'). ID y = ID x \<and> it_UserID y = ID u)"
  using ex p
proof (cases rule: Execute19_single)
  case (2 w1 o1 w2)
  from 2(3) show ?thesis
  proof (cases rule: save19_itemE)
    case (saved si)
    then have "v_items V (w_db w') = insert si {x \<in> v_items V (w_db w). ID x \<noteq> ID si}"
      using items.Save_rows [OF saved(2)] 2(1,4) by simp
    then show ?thesis using saved(3) x(2,3) assms(6) by (auto simp: ID_stamped)
  next
    case (failed si e)
    then show ?thesis using 2(5) [OF failed(1)] assms(7) by simp
  next
    case (storage e)
    then show ?thesis using 2(5) [OF storage(1)] assms(7) by simp
  next
    case (stale y a b)
    then show ?thesis using 2(5) [OF stale(1)] assms(7) by simp
  next
    case (panic m y)
    then show ?thesis using 2(6) by simp
  qed
qed simp

end

end
