(* ===== verification/Sync.thy ===== *)
theory Sync
  imports Sync_20161215 Sync_20190520
begin

text \<open>
  \<^verbatim>\<open>NewSync\<close> of \<^verbatim>\<open>internal/server/service/sync.go\<close>, which picks the service for the API version of
  the request. The choice keeps the contract of the two services, so what the contract gives holds for
  every request, whatever version it names.
\<close>

datatype sync_result = R16 sync16 | R19 sync19

definition Sync_Execute ::
  "(bytes \<Rightarrow> bytes) \<Rightarrow> (string list \<Rightarrow> string list) \<Rightarrow> 'db storm \<Rightarrow> user \<Rightarrow> sync_params \<Rightarrow> 'db world
   \<Rightarrow> (err, sync_result) outcome \<times> 'db world" where
  "Sync_Execute sha256 order S u p w =
     (if pa_APIVersion p = ''20200115'' \<or> pa_APIVersion p = ''20190520''
      then (let (r, w') = Execute19 sha256 S u p w in (map_outcome_value R19 r, w'))
      else (let (r, w') = Execute16 sha256 order S u p w in (map_outcome_value R16 r, w')))"

definition reply :: "sync_result \<Rightarrow> sync_reply" where
  "reply r = (case r of R16 a \<Rightarrow> reply16 a | R19 b \<Rightarrow> reply19 b)"

text \<open>A run of the service is a run of one of the two.\<close>

lemma Sync_ExecuteE:
  assumes "Sync_Execute h order S u p w = (out, w')"
  obtains (v16) o16 where "Execute16 h order S u p w = (o16, w')" "out = map_outcome_value R16 o16"
  | (v19) o19 where "Execute19 h S u p w = (o19, w')" "out = map_outcome_value R19 o19"
  using assms by (auto simp: Sync_Execute_def split: if_splits prod.splits)

lemma Sync_Execute_OkE:
  assumes "Sync_Execute h order S u p w = (Ok r, w')"
  obtains (v16) r16 where "Execute16 h order S u p w = (Ok r16, w')" "reply r = reply16 r16"
  | (v19) r19 where "Execute19 h S u p w = (Ok r19, w')" "reply r = reply19 r19"
proof -
  have sym: "Ok x = map_outcome_value f out \<longleftrightarrow> (\<exists>y. out = Ok y \<and> x = f y)" for f out and x :: sync_result
    by (cases out) auto
  show thesis using assms
    by (cases rule: Sync_ExecuteE) (auto simp: sym reply_def intro: v16 v19)
qed

sublocale sync_env \<subseteq> sync: sync_service "Sync_Execute sha256 order S" reply V sha256
proof (unfold_locales, goal_cases)
  case (1 u p w out w')
  then show ?case by (cases rule: Sync_ExecuteE) (auto dest: v16.sources v19.sources)
next
  case (2 u p w out w')
  then show ?case by (cases rule: Sync_ExecuteE) (auto dest: v16.frame v19.frame)
next
  case (3 u p w out w' x)
  from 3(1) show ?case
    by (cases rule: Sync_ExecuteE) (use 3(2) in \<open>auto dest: v16.writes_own v19.writes_own\<close>)
next
  case (4 u p w out w' x)
  from 4(1) show ?case
    by (cases rule: Sync_ExecuteE) (use 4(2,3) in \<open>auto dest: v16.keeps v19.keeps\<close>)
next
  case (5 u p w r w')
  then show ?case by (cases rule: Sync_Execute_OkE) (auto dest: v16.answered v19.answered)
next
  case (6 u p w r w' i)
  from 6(1) show ?case
    by (cases rule: Sync_Execute_OkE) (use 6(2) in \<open>auto dest: v16.saved v19.saved\<close>)
next
  case (7 u p w r w')
  from 7(1) show ?case
    by (cases rule: Sync_Execute_OkE) (use 7(2) v16.retrieved v19.retrieved in simp_all)
next
  case (8 u p w r w')
  then show ?case by (cases rule: Sync_Execute_OkE) (auto dest: v16.token v19.token)
next
  case (9 u p w r w')
  from 9(1) show ?case
    by (cases rule: Sync_Execute_OkE) (use 9(2) v16.cursor v19.cursor in simp_all)
next
  case (10 u p w r w')
  then show ?case by (cases rule: Sync_Execute_OkE) (auto dest: v16.integrity v19.integrity)
next
  case (11 u p w r w')
  from 11(1) show ?case
    by (cases rule: Sync_Execute_OkE) (use 11(2) v16.page v19.page in simp_all)
next
  case (12 u p w r w')
  from 12(1) show ?case
    by (cases rule: Sync_Execute_OkE) (use 12(2-4) v16.everything v19.everything in simp_all)
next
  case (13 u p w r w' i)
  from 13(1) show ?case
    by (cases rule: Sync_Execute_OkE) (use 13(2-4) v16.stored v19.stored in simp_all)
qed

context sync_env
begin

lemma history:
  "sync_run (Sync_Execute sha256 order S) reqs w w' \<Longrightarrow>
     (\<forall>x \<in> v_items V (w_db w'). x \<in> v_items V (w_db w)
        \<or> (\<exists>(u, p) \<in> set reqs. it_UserID x = ID u \<and> pushed (sp_Items p) x))
     \<and> (\<forall>x \<in> v_items V (w_db w). (\<forall>(u, p) \<in> set reqs. \<not> pushed (sp_Items p) x) \<longrightarrow> x \<in> v_items V (w_db w'))"
  using sync.run_writes_own sync.run_keeps by blast

lemmas reply_retrieved = sync.retrieved
lemmas reply_answered = sync.answered
lemmas reply_saved = sync.saved
lemmas reply_skips_saved = sync.token_skips_saved
lemmas reply_cursor_skips_older = sync.pages_skip_older
lemmas reply_integrity = sync.integrity
lemmas reply_page = sync.page
lemmas reply_everything = sync.everything
lemmas reply_stored = sync.stored
lemmas requests_keep = sync.run_keeps

end

end
