(* ===== verification/Sync_Properties.thy ===== *)
theory Sync_Properties
  imports Sync
begin

text \<open>
  The properties of synchronisation, each with a concrete run over the in-memory storage: isolation,
  what a reply holds, tokens and pages, stale updates and conflicts.
\<close>

subsection \<open>Examples\<close>

definition example_item :: "string \<Rightarrow> string \<Rightarrow> time \<Rightarrow> item" where
  "example_item i owner t =
     \<lparr>ID = i, CreatedAt = Some t, UpdatedAt = Some t, it_UserID = owner, it_ItemsKeyID = [],
      it_Content = ''c'', it_ContentType = ''Note'', it_EncryptedItemKey = ''k'', it_Deleted = False\<rparr>"

definition example_user :: "string \<Rightarrow> user" where
  "example_user i = model_NewUser\<lparr>ID := i\<rparr>"

definition example_params :: "string \<Rightarrow> int \<Rightarrow> string \<Rightarrow> string \<Rightarrow> item list \<Rightarrow> sync_params" where
  "example_params api limit st ct is =
     \<lparr>pa_APIVersion = api, pa_UserAgent = [], pa_Session = None, sp_ComputeIntegrity = True, sp_Limit = limit,
      sp_SyncToken = st, sp_CursorToken = ct, sp_ContentType = [], sp_Items = is\<rparr>"

definition example_hash :: "bytes \<Rightarrow> bytes" where "example_hash b = take 4 b"

text \<open>Three notes of alice, ten seconds apart, and one of bob.\<close>

definition example_world :: "memdb world" where
  "example_world = memory_world 100000000000
     (empty_db\<lparr>md_items :=
        [example_item ''n1'' ''alice'' 10000000000, example_item ''n2'' ''alice'' 20000000000,
         example_item ''n3'' ''alice'' 30000000000, example_item ''b1'' ''bob'' 40000000000]\<rparr>)"

definition example_sync ::
  "user \<Rightarrow> sync_params \<Rightarrow> memdb world \<Rightarrow> (err, sync_result) outcome \<times> memdb world" where
  "example_sync = Sync_Execute example_hash rev mem_storm"

lemma example_env: "sync_env mem_storm mem_view rev"
  by unfold_locales simp

text \<open>Alice pushes a new version of her second note and asks for two notes newer than the first instant.\<close>

definition example_request :: sync_params where
  "example_request = example_params ''20200115'' 2 (TokenFromTime 1) [] [example_item ''n2'' ''x'' 20000000000]"

definition example_result :: sync_result where
  "example_result = the_Ok (fst (example_sync (example_user ''alice'') example_request example_world))"

definition example_after :: "memdb world" where
  "example_after = snd (example_sync (example_user ''alice'') example_request example_world)"

lemma example_executes:
  "Sync_Execute example_hash rev mem_storm (example_user ''alice'') example_request example_world
     = (Ok example_result, example_after)"
proof -
  have "is_Ok (fst (example_sync (example_user ''alice'') example_request example_world))" by code_simp
  from is_Ok_result [OF this] show ?thesis
    by (simp add: example_result_def example_after_def example_sync_def)
qed

text \<open>Bob pushes an item under the ID of alice's first note.\<close>

definition example_attack :: sync_params where
  "example_attack = example_params ''20200115'' 0 [] [] [example_item ''n1'' ''x'' 20000000000]"

subsection \<open>Properties\<close>

text \<open>
  C1. Isolation over whole histories: whatever synchronisation requests users make, in any order and
  with any outcome, an item present in the end was present in the beginning or belongs to a user who
  pushed it, and an item whose ID nobody pushed is still there unchanged.
\<close>

theorem sync_isolation:
  assumes "sync_env S V order" and "sync_run (Sync_Execute sha256 order S) reqs w w'"
  shows "(\<forall>x \<in> v_items V (w_db w'). x \<in> v_items V (w_db w)
        \<or> (\<exists>(u, p) \<in> set reqs. it_UserID x = ID u \<and> pushed (sp_Items p) x))
     \<and> (\<forall>x \<in> v_items V (w_db w). (\<forall>(u, p) \<in> set reqs. \<not> pushed (sp_Items p) x) \<longrightarrow> x \<in> v_items V (w_db w'))"
  using sync_env.history [OF assms] .

theorem sync_isolation_witness:
  "example_item ''b1'' ''bob'' 40000000000 \<in> v_items mem_view (w_db example_after)"
proof -
  have run: "sync_run (Sync_Execute example_hash rev mem_storm) [(example_user ''alice'', example_request)]
      example_world example_after"
    by (rule sync_run.run_step [OF sync_run.run_nil, of _ _ _ _ "Ok example_result"]) (rule example_executes)
  have "example_item ''b1'' ''bob'' 40000000000 \<in> v_items mem_view (w_db example_world)"
    by (simp add: example_world_def memory_world_def mem_view_def example_item_def)
  moreover have "\<not> pushed (sp_Items example_request) (example_item ''b1'' ''bob'' 40000000000)" by code_simp
  ultimately show ?thesis using sync_isolation [OF example_env run] by simp
qed

text \<open>
  C9. A successful reply retrieves each of the items the request asks for (the requester's own ones,
  in the asked window of time and of the asked type) at most once and nothing else, and only the
  user's own stamped items are reported as saved, cleared of their content when deleted. The incoming
  items are answered one by one, in their order: each as saved, with its own content, or as rejected, with
  an item of the user under its ID.
\<close>

theorem sync_reply_contents:
  assumes "sync_env S V order" and "Sync_Execute sha256 order S u p w = (Ok r, w')" and "sp_Limit p < int64_max"
  shows "set (rp_retrieved (reply r)) \<subseteq> {i \<in> v_items V (w_db w). it_UserID i = ID u \<and> sync_wanted u p w i}
    \<and> distinct (rp_retrieved (reply r))
    \<and> (\<forall>i \<in> set (rp_saved (reply r)). saved_ok u w i)
    \<and> answers u (sp_Items p) (rp_saved (reply r)) (rp_rejected (reply r))"
proof -
  have "sync_wanted u p w i \<Longrightarrow> it_UserID i = ID u" for i
    by (auto simp: sync_wanted_def wanted_def Let_def split: prod.splits)
  then show ?thesis
    using sync_env.reply_retrieved [OF assms] sync_env.reply_saved [OF assms(1,2)]
      sync_env.reply_answered [OF assms(1,2)] by blast
qed

theorem sync_reply_contents_witness:
  "set (rp_retrieved (reply example_result)) \<subseteq> v_items mem_view (w_db example_world)
   \<and> rp_retrieved (reply example_result) \<noteq> []"
proof -
  have "sp_Limit example_request < int64_max" by code_simp
  note c = sync_reply_contents [OF example_env example_executes this]
  have "rp_retrieved (reply example_result) \<noteq> []" by code_simp
  then show ?thesis using c by auto
qed

text \<open>
  C10. A request with a sync token and a positive limit retrieves at most that many items, and gets a cursor
  token exactly when there are more. Without a sync token the limit is ignored, whatever the cursor: there is no
  cursor token in the reply, and a request that pushes nothing retrieves all it asks for.
\<close>

theorem reply_within_limit:
  assumes "sync_env S V order" and "Sync_Execute sha256 order S u p w = (Ok r, w')" and "sp_Limit p < int64_max"
  shows "(sp_SyncToken p \<noteq> [] \<and> 0 < sp_Limit p \<longrightarrow>
        int (length (rp_retrieved (reply r))) \<le> sp_Limit p
        \<and> (rp_CursorToken (reply r) = [] \<longleftrightarrow> int (card {i \<in> v_items V (w_db w). sync_wanted u p w i}) \<le> sp_Limit p))
    \<and> (sp_SyncToken p = [] \<longrightarrow>
        rp_CursorToken (reply r) = []
        \<and> (sp_Items p = [] \<longrightarrow> set (rp_retrieved (reply r)) = {i \<in> v_items V (w_db w). sync_wanted u p w i}))"
  using sync_env.reply_page [OF assms] sync_env.reply_retrieved [OF assms] sync_env.reply_everything [OF assms]
  by (auto simp: effective_limit_def)

theorem reply_within_limit_witness:
  "length (rp_retrieved (reply example_result)) \<le> 2
   \<and> 2 < card {i \<in> v_items mem_view (w_db example_world). sync_wanted (example_user ''alice'') example_request example_world i}"
proof -
  have p: "sp_Limit example_request < int64_max" "sp_SyncToken example_request \<noteq> []" "0 < sp_Limit example_request"
    and limit: "sp_Limit example_request = 2" and cursor: "rp_CursorToken (reply example_result) \<noteq> []" by code_simp+
  show ?thesis using reply_within_limit [OF example_env example_executes p(1)] p(2,3) limit cursor by simp
qed

text \<open>
  C12. The integrity hash of a reply, when asked for, is the hash of the timestamps of the live items
  the user has in storage after the request, in a canonical order: it depends on nothing else.
\<close>

theorem sync_integrity_hash:
  assumes "sync_env S V order" and "Sync_Execute sha256 order S u p w = (Ok r, w')"
  shows "rp_IntegrityHash (reply r) =
           (if sp_ComputeIntegrity p then signature_of sha256 (live_items V u w') else [])"
  by (rule sync_env.reply_integrity [OF assms])

theorem sync_integrity_hash_witness:
  "rp_IntegrityHash (reply example_result)
     = signature_of example_hash (live_items mem_view (example_user ''alice'') example_after)"
proof -
  have "sp_ComputeIntegrity example_request" by code_simp
  then show ?thesis using sync_integrity_hash [OF example_env example_executes] by simp
qed

text \<open>
  C8. A later request with the sync token of a reply, by whomever and whenever, does not retrieve an
  item as that reply saved it, as long as the clock shows instants of the years a 64-bit nanosecond
  count covers: a client does not get its own changes back.
\<close>

theorem sync_token_skips_saved:
  assumes "sync_env S V order" and "Sync_Execute sha256 order S u p w = (Ok r, w1)"
    and "i \<in> set (rp_saved (reply r))"
    and "\<And>n. zero_time < w_clock w n \<and> in_int64 (w_clock w n + microseconds 1)"
    and "Sync_Execute sha256 order S u' p' w2 = (Ok r', w3)" and "sp_Limit p' < int64_max"
    and "sp_CursorToken p' = []" and "sp_SyncToken p' = rp_SyncToken (reply r)"
  shows "i \<notin> set (rp_retrieved (reply r'))"
  by (rule sync_env.reply_skips_saved [OF assms])

text \<open>A world with a clock that stands still, where every instant is known.\<close>

definition frozen_world :: "memdb world" where
  "frozen_world = example_world\<lparr>w_clock := (\<lambda>n. 100000000000)\<rparr>"

definition push_request :: sync_params where
  "push_request = (example_params ''20200115'' 0 [] [] [example_item ''n2'' ''x'' 20000000000])
     \<lparr>sp_ComputeIntegrity := False, sp_ContentType := ''Tag''\<rparr>"

definition frozen_first :: "(err, sync_result) outcome \<times> memdb world" where
  "frozen_first = example_sync (example_user ''alice'') push_request frozen_world"

definition followup_request :: sync_params where
  "followup_request =
     (example_params ''20200115'' 0 (TokenFromTime 100000001000) [] [])\<lparr>sp_ComputeIntegrity := False\<rparr>"

definition frozen_second :: "(err, sync_result) outcome \<times> memdb world" where
  "frozen_second = example_sync (example_user ''alice'') followup_request (snd frozen_first)"

theorem sync_token_skips_saved_witness:
  "hd (rp_saved (reply (the_Ok (fst frozen_first)))) \<notin> set (rp_retrieved (reply (the_Ok (fst frozen_second))))"
proof -
  have ok: "is_Ok (fst frozen_first)" "is_Ok (fst frozen_second)" by code_simp+
  have "rp_saved (reply (the_Ok (fst frozen_first))) \<noteq> []" by code_simp
  then have saved: "hd (rp_saved (reply (the_Ok (fst frozen_first)))) \<in> set (rp_saved (reply (the_Ok (fst frozen_first))))"
    by (rule hd_in_set)
  have clock: "zero_time < w_clock frozen_world n \<and> in_int64 (w_clock frozen_world n + microseconds 1)" for n
    by (simp add: frozen_world_def zero_time_def in_int64_def int64_min_def int64_max_def microseconds_def)
  have tok: "rp_SyncToken (reply (the_Ok (fst frozen_first))) = TokenFromTime 100000001000" by code_simp
  have p: "sp_Limit followup_request < int64_max" "sp_CursorToken followup_request = []"
      "sp_SyncToken followup_request = rp_SyncToken (reply (the_Ok (fst frozen_first)))"
    by (simp_all add: tok followup_request_def example_params_def int64_max_def)
  have r1: "Sync_Execute example_hash rev mem_storm (example_user ''alice'') push_request frozen_world
      = (Ok (the_Ok (fst frozen_first)), snd frozen_first)"
    using is_Ok_result [OF ok(1)] unfolding frozen_first_def example_sync_def .
  have r2: "Sync_Execute example_hash rev mem_storm (example_user ''alice'') followup_request (snd frozen_first)
      = (Ok (the_Ok (fst frozen_second)), snd frozen_second)"
    using is_Ok_result [OF ok(2)] unfolding frozen_second_def example_sync_def .
  show ?thesis by (rule sync_token_skips_saved [OF example_env r1 saved clock r2 p])
qed

text \<open>
  C11. Pagination does not advance: after a reply with a cursor token, an item older than the cursor's
  instant is neither in that reply nor in the reply to any request with the cursor, whatever its
  limit. The pages are newest first and the cursor asks for items not older than the end of the page.
\<close>

theorem cursor_skips_older:
  assumes "sync_env S V order" and "Sync_Execute sha256 order S u p w = (Ok r, w1)" and "sp_Limit p < int64_max"
    and "rp_CursorToken (reply r) = TokenFromTime t" and "zero_time < t" and "in_int64 t"
    and "\<And>k v. k \<in> v_items V (w_db w) \<Longrightarrow> UpdatedAt k = Some v \<Longrightarrow> in_int64 v"
    and "Sync_Execute sha256 order S u' p' w2 = (Ok r', w3)" and "sp_Limit p' < int64_max"
    and "sp_CursorToken p' = rp_CursorToken (reply r)"
    and "UpdatedAt x = Some s" and "s < t"
  shows "x \<notin> set (rp_retrieved (reply r)) \<and> x \<notin> set (rp_retrieved (reply r'))"
  by (rule sync_env.reply_cursor_skips_older [OF assms])

definition page_request :: "string \<Rightarrow> sync_params" where
  "page_request ct = (example_params ''20200115'' 1 (TokenFromTime 1) ct [])\<lparr>sp_ComputeIntegrity := False\<rparr>"

definition first_page :: "(err, sync_result) outcome \<times> memdb world" where
  "first_page = example_sync (example_user ''alice'') (page_request []) example_world"

definition next_page :: "(err, sync_result) outcome \<times> memdb world" where
  "next_page = example_sync (example_user ''alice'')
     (page_request (rp_CursorToken (reply (the_Ok (fst first_page))))) (snd first_page)"

theorem cursor_skips_older_witness:
  "example_item ''n1'' ''alice'' 10000000000 \<notin> set (rp_retrieved (reply (the_Ok (fst first_page))))
   \<and> example_item ''n1'' ''alice'' 10000000000 \<notin> set (rp_retrieved (reply (the_Ok (fst next_page))))"
proof -
  have ok1: "is_Ok (fst first_page)" by code_simp
  have cur: "rp_CursorToken (reply (the_Ok (fst first_page))) = TokenFromTime 30000000000" by code_simp
  have np: "next_page = example_sync (example_user ''alice'') (page_request (TokenFromTime 30000000000)) (snd first_page)"
    by (simp only: next_page_def cur)
  have "is_Ok (fst (example_sync (example_user ''alice'') (page_request (TokenFromTime 30000000000)) (snd first_page)))"
    by code_simp
  then have ok2: "is_Ok (fst next_page)" by (simp only: np)
  have t: "zero_time < 30000000000" "in_int64 30000000000" by code_simp+
  have stored: "in_int64 v" if "k \<in> v_items mem_view (w_db example_world)" and "UpdatedAt k = Some v" for k v
    using that by (auto simp: example_world_def memory_world_def mem_view_def example_item_def
        in_int64_def int64_min_def int64_max_def)
  have lim: "sp_Limit (page_request ct) < int64_max" for ct
    by (simp add: page_request_def example_params_def int64_max_def)
  have page: "sp_CursorToken (page_request ct) = ct" for ct by (simp add: page_request_def example_params_def)
  have x: "UpdatedAt (example_item ''n1'' ''alice'' 10000000000) = Some 10000000000"
    by (simp add: example_item_def)
  have r1: "Sync_Execute example_hash rev mem_storm (example_user ''alice'') (page_request []) example_world
      = (Ok (the_Ok (fst first_page)), snd first_page)"
    using is_Ok_result [OF ok1] unfolding first_page_def example_sync_def .
  have r2: "Sync_Execute example_hash rev mem_storm (example_user ''alice'')
      (page_request (rp_CursorToken (reply (the_Ok (fst first_page))))) (snd first_page)
      = (Ok (the_Ok (fst next_page)), snd next_page)"
    using is_Ok_result [OF ok2] unfolding next_page_def example_sync_def .
  show ?thesis
    by (rule cursor_skips_older [OF example_env r1 lim cur t stored r2 lim page x]) simp_all
qed

text \<open>
  C6. No lost update with version 20190520: when every incoming item names its ID, a stored item of
  the user disappears only in favour of an incoming item with its ID and its stored timestamp, to
  within a millisecond.
\<close>

theorem no_lost_update:
  assumes "store S V" and "Execute19 sha256 S u p w = (out, w')" and "\<forall>i \<in> set (sp_Items p). ID i \<noteq> []"
    and "x \<in> v_items V (w_db w)" and "it_UserID x = ID u"
  shows "x \<in> v_items V (w_db w')
    \<or> (\<exists>i \<in> set (sp_Items p). ID i = ID x
          \<and> (\<exists>a b. UpdatedAt i = Some a \<and> UpdatedAt x = Some b \<and> \<bar>a - b\<bar> < 1000000))"
  using store.Execute19_replaces [OF assms(1-4)] assms(5) by (auto simp: may_replace_def)

definition stale_request :: sync_params where
  "stale_request = example_params ''20190520'' 0 [] [] [example_item ''n1'' ''x'' 9000000000]"

definition stale_run :: "(err, sync19) outcome \<times> memdb world" where
  "stale_run = Execute19 example_hash mem_storm (example_user ''alice'') stale_request example_world"

lemma n1_stored: "example_item ''n1'' ''alice'' 10000000000 \<in> v_items mem_view (w_db example_world)"
  by (simp add: example_world_def memory_world_def mem_view_def example_item_def)

theorem no_lost_update_witness:
  "example_item ''n1'' ''alice'' 10000000000 \<in> v_items mem_view (w_db (snd stale_run))"
proof -
  let ?x = "example_item ''n1'' ''alice'' 10000000000"
  have run: "Execute19 example_hash mem_storm (example_user ''alice'') stale_request example_world
      = (fst stale_run, snd stale_run)" by (simp add: stale_run_def)
  have "\<forall>i \<in> set (sp_Items stale_request). ID i \<noteq> []" by code_simp
  moreover have "it_UserID ?x = ID (example_user ''alice'')" by code_simp
  moreover have "\<not> (\<exists>i \<in> set (sp_Items stale_request). ID i = ID ?x
      \<and> (\<exists>a b. UpdatedAt i = Some a \<and> UpdatedAt ?x = Some b \<and> \<bar>a - b\<bar> < 1000000))"
    by (simp add: stale_request_def example_params_def example_item_def)
  ultimately show ?thesis using no_lost_update [OF mem_store run _ n1_stored] by blast
qed

text \<open>
  A single update of a stored item whose timestamp is a millisecond or more away from the stored
  one writes nothing and saves nothing: the reply carries the stored version as the conflict, and
  does not retrieve it as well, unless the storage failed to look it up.
\<close>

theorem stale_update_refused:
  assumes "store S V" and "Execute19 sha256 S u p w = (Ok r, w')" and "sp_Items p = [i]"
    and "x \<in> v_items V (w_db w)" and "ID x = ID i" and "it_UserID x = ID u"
    and "UpdatedAt i = Some a" and "UpdatedAt x = Some b" and "1000000 \<le> \<bar>a - b\<bar>"
  shows "w_db w' = w_db w \<and> s19_Saved r = []
    \<and> (\<exists>c. s19_Conflicts r = [c]
         \<and> (ci_Type c = ''internal_error''
            \<or> c = \<lparr>ci_UnsavedItem = None, ci_ServerItem = Some x, ci_Type = ''sync_conflict''\<rparr>
              \<and> x \<notin> set (s19_Retrieved r)))"
  using store.Execute19_stale [OF assms] .

theorem stale_update_refused_witness:
  "w_db (snd stale_run) = w_db example_world \<and> s19_Saved (the_Ok (fst stale_run)) = []"
proof -
  have "is_Ok (fst stale_run)" by code_simp
  then have run: "Execute19 example_hash mem_storm (example_user ''alice'') stale_request example_world
      = (Ok (the_Ok (fst stale_run)), snd stale_run)" unfolding stale_run_def by (rule is_Ok_result)
  have p: "sp_Items stale_request = [example_item ''n1'' ''x'' 9000000000]"
    by (simp add: stale_request_def example_params_def)
  have x: "ID (example_item i o1 t) = i" "it_UserID (example_item i o1 t) = o1"
      "UpdatedAt (example_item i o1 t) = Some t" "ID (example_user o1) = o1" for i o1 t
    by (simp_all add: example_item_def example_user_def)
  show ?thesis
    using stale_update_refused [OF mem_store run p n1_stored, of 9000000000 10000000000] by (simp add: x)
qed

text \<open>
  An incoming item without a timestamp, of a user who has stored an item with its ID, makes the
  service panic on a nil pointer.
\<close>

theorem missing_timestamp_panics:
  assumes "Execute19 sha256 S u p w = (out, w')" and "sp_Items p = [i]"
    and "FindItemByUserID S (ID i) (ID u) w = Inr x" and "UpdatedAt i = None"
    and "is_Ok (fst (sync_get S u p w))"
  shows "out = Panic ''nil pointer dereference''"
  by (rule Execute19_nil_timestamp [OF assms])

definition untimed_request :: sync_params where
  "untimed_request = example_params ''20190520'' 0 [] [] [(example_item ''n1'' ''x'' 0)\<lparr>UpdatedAt := None\<rparr>]"

theorem missing_timestamp_panics_witness:
  "fst (Execute19 example_hash mem_storm (example_user ''alice'') untimed_request example_world)
     = Panic ''nil pointer dereference''"
proof (rule missing_timestamp_panics [OF surjective_pairing])
  show "sp_Items untimed_request = [(example_item ''n1'' ''x'' 0)\<lparr>UpdatedAt := None\<rparr>]"
    by (simp add: untimed_request_def example_params_def)
  show "FindItemByUserID mem_storm (ID ((example_item ''n1'' ''x'' 0)\<lparr>UpdatedAt := None\<rparr>))
      (ID (example_user ''alice'')) example_world = Inr (example_item ''n1'' ''alice'' 10000000000)" by code_simp
  show "is_Ok (fst (sync_get mem_storm (example_user ''alice'') untimed_request example_world))" by code_simp
qed simp

text \<open>
  C13. An item another user owns is taken over by anyone who pushes its ID: when the push is reported
  as saved, the owner's item is gone, and the one stored under the ID belongs to the requester.
\<close>

theorem push_takes_over_foreign_item:
  assumes "store S V" and "Execute19 sha256 S u p w = (Ok r, w')" and "sp_Items p = [i]"
    and "x \<in> v_items V (w_db w)" and "ID x = ID i" and "it_UserID x \<noteq> ID u" and "ID i \<noteq> []"
    and "s19_Saved r \<noteq> []"
  shows "x \<notin> v_items V (w_db w') \<and> (\<exists>y \<in> v_items V (w_db w'). ID y = ID x \<and> it_UserID y = ID u)"
  by (rule store.Execute19_takes_over [OF assms])

definition attack_run :: "(err, sync19) outcome \<times> memdb world" where
  "attack_run = Execute19 example_hash mem_storm (example_user ''bob'') example_attack example_world"

theorem push_takes_over_foreign_item_witness:
  "example_item ''n1'' ''alice'' 10000000000 \<notin> v_items mem_view (w_db (snd attack_run))"
proof -
  have "is_Ok (fst attack_run)" by code_simp
  then have run: "Execute19 example_hash mem_storm (example_user ''bob'') example_attack example_world
      = (Ok (the_Ok (fst attack_run)), snd attack_run)" unfolding attack_run_def by (rule is_Ok_result)
  have "s19_Saved (the_Ok (fst attack_run)) \<noteq> []" by code_simp
  moreover have p: "sp_Items example_attack = [example_item ''n1'' ''x'' 20000000000]"
    by (simp add: example_attack_def example_params_def)
  moreover have x: "ID (example_item i o1 t) = i" "it_UserID (example_item i o1 t) = o1"
      "ID (example_user o1) = o1" for i o1 t
    by (simp_all add: example_item_def example_user_def)
  ultimately show ?thesis
    using push_takes_over_foreign_item [OF mem_store run p n1_stored] by (simp add: x)
qed

text \<open>
  With version 20161215 every item that was both fetched and saved leaves the retrieved ones, and
  the fetched version is reported as a sync conflict exactly when it is more than twenty seconds away
  from the saved one, whatever order Go ranges over the map in.
\<close>

theorem conflicts_reported:
  assumes "store S V" and "Execute16 sha256 order S u p w = (Ok r, w')" and "\<And>ids. set (order ids) = set ids"
    and "sp_Limit p < int64_max" and "sync_get S u p w = (Ok (fetched, overLimit), p1, w1)"
    and "x \<in> set fetched" and "UpdatedAt x = Some b"
    and "items_by_id (s16_Saved r) (ID x) = Some s" and "UpdatedAt s = Some a"
  shows "x \<notin> set (s16_Retrieved r)
    \<and> (\<lparr>ui_Item = x, ui_Message = [], ui_Tag = ''sync_conflict''\<rparr> \<in> set (s16_Unsaved r)
         \<longleftrightarrow> 20000000000 < \<bar>a - b\<bar>)"
  by (rule store.Execute16_conflicts [OF assms])

definition old_request :: sync_params where
  "old_request = example_params ''20161215'' 0 [] [] [example_item ''n1'' ''x'' 0]"

definition old_run :: "(err, sync16) outcome \<times> memdb world" where
  "old_run = Execute16 example_hash rev mem_storm (example_user ''alice'') old_request example_world"

definition old_fetched :: "item list" where
  "old_fetched = fst (the_Ok (fst (sync_get mem_storm (example_user ''alice'') old_request example_world)))"

theorem conflicts_reported_witness:
  "\<lparr>ui_Item = example_item ''n1'' ''alice'' 10000000000, ui_Message = [], ui_Tag = ''sync_conflict''\<rparr>
     \<in> set (s16_Unsaved (the_Ok (fst old_run)))"
proof -
  let ?x = "example_item ''n1'' ''alice'' 10000000000"
  have "is_Ok (fst old_run)" by code_simp
  then have run: "Execute16 example_hash rev mem_storm (example_user ''alice'') old_request example_world
      = (Ok (the_Ok (fst old_run)), snd old_run)" unfolding old_run_def by (rule is_Ok_result)
  have "is_Ok (fst (sync_get mem_storm (example_user ''alice'') old_request example_world))" by code_simp
  from is_Ok_result [OF this] have get: "sync_get mem_storm (example_user ''alice'') old_request example_world
      = (Ok (old_fetched, snd (the_Ok (fst (sync_get mem_storm (example_user ''alice'') old_request example_world)))),
         fst (snd (sync_get mem_storm (example_user ''alice'') old_request example_world)),
         snd (snd (sync_get mem_storm (example_user ''alice'') old_request example_world)))"
    by (simp add: old_fetched_def)
  have lim: "sp_Limit old_request < int64_max" by code_simp
  have mem: "?x \<in> set old_fetched" by code_simp
  have x: "UpdatedAt ?x = Some 10000000000" "ID ?x = ''n1''" by (simp_all add: example_item_def)
  have s: "items_by_id (s16_Saved (the_Ok (fst old_run))) (ID ?x)
      = Some ((example_item ''n1'' ''alice'' 0)\<lparr>UpdatedAt := Some 100000000000\<rparr>)" by code_simp
  have "?x \<notin> set (s16_Retrieved (the_Ok (fst old_run)))
    \<and> (\<lparr>ui_Item = ?x, ui_Message = [], ui_Tag = ''sync_conflict''\<rparr> \<in> set (s16_Unsaved (the_Ok (fst old_run)))
         \<longleftrightarrow> 20000000000 < \<bar>100000000000 - 10000000000 :: int\<bar>)"
    by (rule conflicts_reported [OF mem_store run _ lim get mem x(1) s]) simp_all
  then show ?thesis by simp
qed

end
