(* ===== verification/Sync_Refinement.thy ===== *)
theory Sync_Refinement
  imports Sync_Properties
begin

text \<open>
  What the synchronisation of version 20190520 (\<^verbatim>\<open>internal/server/service/sync_20190520.go\<close>) promises about
  the stored items, as an abstract specification: one table for all users from IDs to items, on which an incoming
  item is a compare-and-swap of the requester's own items. The timestamp an item carries is the version its client
  last saw; when the table has an item of the requester with another one, the table's item is handed back and
  nothing changes. An item of another user is not compared: it is replaced, as an absent one is. The loop \<open>save19\<close>
  over the queries and rows of the storage refines it.
\<close>

type_synonym item_table = "string \<Rightarrow> item option"

definition same_version :: "item \<Rightarrow> item \<Rightarrow> bool" where
  "same_version i x =
     (case (UpdatedAt i, UpdatedAt x) of (Some a, Some b) \<Rightarrow> \<bar>a - b\<bar> < 1000000 | _ \<Rightarrow> False)"

definition compare_and_swap :: "user \<Rightarrow> time \<Rightarrow> item \<Rightarrow> item_table \<Rightarrow> item + item \<times> item_table" where
  "compare_and_swap u now i m =
     (case m (ID i) of
        Some x \<Rightarrow> if it_UserID x = ID u \<and> \<not> same_version i x then Inl x
                 else (let y = (owned_item u i)\<lparr>UpdatedAt := Some now\<rparr> in Inr (y, m(ID i \<mapsto> y)))
      | None \<Rightarrow> (let y = (owned_item u i)\<lparr>UpdatedAt := Some now\<rparr> in Inr (y, m(ID i \<mapsto> y))))"

text \<open>A request is a sequence of them; the clock, read from tick \<open>n\<close> on, is only read for a swap.\<close>

fun swap_all ::
  "user \<Rightarrow> (nat \<Rightarrow> time) \<Rightarrow> nat \<Rightarrow> item list \<Rightarrow> item_table \<Rightarrow> item list \<times> item list \<times> item_table" where
  "swap_all u clock n [] m = ([], [], m)"
| "swap_all u clock n (i # is) m =
     (case compare_and_swap u (clock n) i m of
        Inl x \<Rightarrow> (let (saved, stale, m') = swap_all u clock n is m in (saved, x # stale, m'))
      | Inr (y, m1) \<Rightarrow> (let (saved, stale, m') = swap_all u clock (Suc n) is m1 in (y # saved, stale, m')))"

text \<open>The table a storage stands for.\<close>

definition stores :: "'db view \<Rightarrow> 'db \<Rightarrow> item_table \<Rightarrow> bool" where
  "stores V d m \<longleftrightarrow> v_items V d = ran m \<and> (\<forall>k x. m k = Some x \<longrightarrow> ID x = k)"

lemma stores_lookup: "stores V d m \<Longrightarrow> x \<in> v_items V d \<longleftrightarrow> m (ID x) = Some x"
  by (auto simp: stores_def ran_def)

lemma stores_update:
  assumes "stores V d m" and "v_items V d' = insert y {x \<in> v_items V d. ID x \<noteq> ID y}"
  shows "stores V d' (m(ID y \<mapsto> y))"
  using assms by (auto simp: stores_def ran_def)

text \<open>The conflicts a storage failure gives rise to have other types.\<close>

definition no_failure :: "conflict_item list \<Rightarrow> bool" where
  "no_failure cs = list_all (\<lambda>c. ci_Type c = ''sync_conflict'') cs"

lemma no_failure_simps [simp]:
  "no_failure []" "no_failure (c # cs) \<longleftrightarrow> ci_Type c = ''sync_conflict'' \<and> no_failure cs"
  "no_failure (as @ bs) \<longleftrightarrow> no_failure as \<and> no_failure bs"
  by (auto simp: no_failure_def)

context store
begin

text \<open>One round of the loop is one compare-and-swap.\<close>

lemma save19_item_refines:
  assumes one: "save19_item S u i w = (Ok (sv, cf, del), w')" and "no_failure cf" and "ID i \<noteq> []"
    and m: "stores V (w_db w) m"
  shows "(\<exists>x. compare_and_swap u (w_clock w (w_ticks w)) i m = Inl x \<and> sv = []
        \<and> map ci_ServerItem cf = [Some x] \<and> w' = w)
    \<or> (\<exists>y m'. compare_and_swap u (w_clock w (w_ticks w)) i m = Inr (y, m') \<and> sv = [y] \<and> cf = []
        \<and> stores V (w_db w') m' \<and> w_clock w' = w_clock w \<and> w_ticks w' = Suc (w_ticks w))"
  using one
proof (cases rule: save19_itemE)
  case (saved si)
  let ?y = "(owned_item u i)\<lparr>UpdatedAt := Some (w_clock w (w_ticks w))\<rparr>"
  have y: "si = ?y" using saved(3) assms(3) by (simp add: stamped_def Let_def)
  have rows: "stores V (w_db w') (m(ID i \<mapsto> ?y))"
    using stores_update [OF m items.Save_rows [OF saved(2)]] y by simp
  have "compare_and_swap u (w_clock w (w_ticks w)) i m = Inr (?y, m(ID i \<mapsto> ?y))"
  proof (cases "m (ID i)")
    case (Some x)
    then have x: "x \<in> v_items V (w_db w)" "ID x = ID i" using m by (auto simp: stores_def ran_def)
    have "same_version i x" if "it_UserID x = ID u"
    proof (cases "FindItemByUserID S (ID i) (ID u) w")
      case (Inl e)
      then show ?thesis using FindItemByUserID_missing [OF Inl saved(5) [OF Inl] x(1)] x(2) that by simp
    next
      case (Inr z)
      then have "z = x" using FindItemByUserID_Inr [OF Inr] items.rows_id_eq [OF _ x(1)] x(2) by metis
      then show ?thesis using saved(4) [OF Inr] by (auto simp: same_version_def)
    qed
    then show ?thesis using Some by (auto simp: compare_and_swap_def Let_def)
  qed (simp add: compare_and_swap_def Let_def)
  then show ?thesis using saved(1) y rows Save_result(2,3) [OF saved(2)] by (simp add: same_sources_def)
next
  case (stale x a b)
  note x = FindItemByUserID_Inr [OF stale(3)]
  then have "m (ID i) = Some x" using stores_lookup [OF m, of x] by metis
  then have "compare_and_swap u (w_clock w (w_ticks w)) i m = Inl x"
    using x stale(4-6) by (simp add: compare_and_swap_def same_version_def)
  then show ?thesis using stale(1,2) by simp
qed (use assms(2) in auto)

text \<open>The loop is the sequence.\<close>

lemma save19_refines:
  "save19 S u is w = (Ok (saved, conflicts, del), w') \<Longrightarrow> no_failure conflicts \<Longrightarrow> [] \<notin> ID ` set is \<Longrightarrow>
     stores V (w_db w) m \<Longrightarrow>
     \<exists>stale m'. swap_all u (w_clock w) (w_ticks w) is m = (saved, stale, m')
        \<and> map ci_ServerItem conflicts = map Some stale \<and> stores V (w_db w') m'"
proof (induction "is" arbitrary: w saved conflicts del m)
  case (Cons i "is")
  obtain sv cf d w1 svs cfs ds where one: "save19_item S u i w = (Ok (sv, cf, d), w1)"
    and rest: "save19 S u is w1 = (Ok (svs, cfs, ds), w')" and eqs: "saved = sv @ svs" "conflicts = cf @ cfs"
    using Cons.prems(1) by (rule save19_ConsE)
  have ok: "no_failure cf" "no_failure cfs" "ID i \<noteq> []" "[] \<notin> ID ` set is"
    using Cons.prems(2,3) eqs by auto
  from save19_item_refines [OF one ok(1,3) Cons.prems(4)] show ?case
  proof (elim disjE exE conjE)
    fix x assume x: "compare_and_swap u (w_clock w (w_ticks w)) i m = Inl x" "sv = []"
      "map ci_ServerItem cf = [Some x]" "w1 = w"
    from Cons.IH [OF rest ok(2,4), of m] Cons.prems(4) x eqs show ?thesis by auto
  next
    fix y m1 assume y: "compare_and_swap u (w_clock w (w_ticks w)) i m = Inr (y, m1)" "sv = [y]" "cf = []"
      "stores V (w_db w1) m1" "w_clock w1 = w_clock w" "w_ticks w1 = Suc (w_ticks w)"
    from Cons.IH [OF rest ok(2,4) y(4)] y eqs show ?thesis by auto
  qed
qed simp

lemma Execute19_refines:
  assumes "Execute19 h S u p w = (Ok r, w')" and "no_failure (s19_Conflicts r)" and "[] \<notin> ID ` set (sp_Items p)"
    and "stores V (w_db w) m"
  shows "\<exists>n stale m'. w_ticks w \<le> n \<and> swap_all u (w_clock w) n (sp_Items p) m = (s19_Saved r, stale, m')
    \<and> map ci_ServerItem (s19_Conflicts r) = map Some stale \<and> stores V (w_db w') m'"
  using assms(1)
proof (rule Execute19_OkE)
  fix rs ov p1 w1 w2 ids
  assume get: "sync_get S u p w = (Ok (rs, ov), p1, w1)"
    and sv: "save19 S u (sp_Items p) w1 = (Ok (s19_Saved r, s19_Conflicts r, ids), w2)"
    and resp: "respond h S u p1 rs ov (s19_Saved r) ids w2
           = (Ok (s19_Retrieved r, s19_IntegrityHash r, s19_CursorToken r, s19_SyncToken r), w')"
  have w1: "w_db w1 = w_db w" "w_clock w1 = w_clock w" "w_ticks w \<le> w_ticks w1"
    using sync_get_params [OF get] by (simp_all add: same_sources_def)
  have "w_db w' = w_db w2" using respond_frame [OF resp] by simp
  with save19_refines [OF sv assms(2,3), of m] assms(4) w1 show ?thesis by auto
qed

text \<open>Every storage stands for a table.\<close>

lemma stored_table: "\<exists>m. stores V d m"
proof
  let ?m = "\<lambda>k. if \<exists>x \<in> v_items V d. ID x = k then Some (SOME x. x \<in> v_items V d \<and> ID x = k) else None"
  have "?m (ID x) = Some x" if "x \<in> v_items V d" for x
    using that items.rows_id_eq by (auto intro!: some_equality)
  moreover have "x \<in> v_items V d \<and> ID x = k" if "?m k = Some x" for k x
    using that someI_ex [of "\<lambda>x. x \<in> v_items V d \<and> ID x = k"] by (auto split: if_splits)
  ultimately show "stores V d ?m" unfolding stores_def ran_def by blast
qed

end

subsection \<open>Properties\<close>

text \<open>
  C7. The synchronisation of version 20190520 implements a table from IDs to items, one for all users, in which the
  requester's items are compared and swapped and those of other users are replaced without a comparison: when the
  storage does not fail and every incoming item names its ID, the items it saves, the server's items it hands back
  as conflicts, and the table it leaves are those of the sequence of these operations on the incoming items, stamped
  with successive instants of the clock. The table a storage stands for always exists.
\<close>

theorem sync_refines_compare_and_swap:
  assumes "store S V" and "Execute19 sha256 S u p w = (Ok r, w')" and "no_failure (s19_Conflicts r)"
    and "[] \<notin> ID ` set (sp_Items p)" and "stores V (w_db w) m"
  shows "\<exists>n stale m'. w_ticks w \<le> n \<and> swap_all u (w_clock w) n (sp_Items p) m = (s19_Saved r, stale, m')
    \<and> map ci_ServerItem (s19_Conflicts r) = map Some stale \<and> stores V (w_db w') m'"
  using store.Execute19_refines [OF assms] .

lemma stores_memory:
  "distinct (map ID (md_items d)) \<Longrightarrow> stores mem_view d (map_of (map (\<lambda>i. (ID i, i)) (md_items d)))"
  by (auto simp: stores_def mem_view_def current_rows_idem ran_distinct comp_def image_image dest: map_of_SomeD)

text \<open>Alice sends a fresh version of one of her notes, an outdated one of another, and a new note.\<close>

definition mixed_request :: sync_params where
  "mixed_request = (example_params ''20190520'' 0 [] []
     [example_item ''n2'' ''x'' 20000000000, example_item ''n1'' ''x'' 9000000000, example_item ''n9'' ''x'' 1])
     \<lparr>sp_ComputeIntegrity := False\<rparr>"

definition mixed_run :: "(err, sync19) outcome \<times> memdb world" where
  "mixed_run = Execute19 example_hash mem_storm (example_user ''alice'') mixed_request example_world"

definition example_table :: item_table where
  "example_table = map_of (map (\<lambda>i. (ID i, i)) (md_items (w_db example_world)))"

theorem sync_refines_compare_and_swap_witness:
  "\<exists>n stale m'. swap_all (example_user ''alice'') (w_clock example_world) n (sp_Items mixed_request) example_table
       = (s19_Saved (the_Ok (fst mixed_run)), stale, m')
     \<and> stores mem_view (w_db (snd mixed_run)) m' \<and> length stale = 1"
proof -
  have "is_Ok (fst mixed_run)" by code_simp
  then have run: "Execute19 example_hash mem_storm (example_user ''alice'') mixed_request example_world
      = (Ok (the_Ok (fst mixed_run)), snd mixed_run)" unfolding mixed_run_def by (rule is_Ok_result)
  have cf: "no_failure (s19_Conflicts (the_Ok (fst mixed_run)))"
    and len: "length (s19_Conflicts (the_Ok (fst mixed_run))) = 1" by code_simp+
  have ids: "[] \<notin> ID ` set (sp_Items mixed_request)"
    by (simp add: mixed_request_def example_params_def example_item_def)
  have "stores mem_view (w_db example_world) example_table"
    unfolding example_table_def by (rule stores_memory) (simp add: example_world_def memory_world_def example_item_def)
  from sync_refines_compare_and_swap [OF mem_store run cf ids this] obtain n stale m'
    where r: "swap_all (example_user ''alice'') (w_clock example_world) n (sp_Items mixed_request) example_table
       = (s19_Saved (the_Ok (fst mixed_run)), stale, m')"
      "map ci_ServerItem (s19_Conflicts (the_Ok (fst mixed_run))) = map Some stale"
      "stores mem_view (w_db (snd mixed_run)) m'" by blast
  have "length stale = 1" using r(2) len by (metis length_map)
  with r show ?thesis by blast
qed

end
