(* ===== verification/User_Service.thy ===== *)
theory User_Service
  imports Service
begin

text \<open>
  \<^verbatim>\<open>internal/server/service/user.go\<close>, \<^verbatim>\<open>user_20161215.go\<close> and \<^verbatim>\<open>user_20200115.go\<close>: registration, login,
  updates and the change of the password. The operations take the payload builder of the version
  (\<open>success\<close>), as the code does. Password hashing, JWT signing and PASETO are libraries, fields of the
  parameter \<open>crypto\<close>; the hash draws a salt, its first argument.
\<close>

record crypto = paseto +
  cr_Generate :: "nat \<Rightarrow> string \<Rightarrow> err + string"
  cr_Compare :: "string \<Rightarrow> string \<Rightarrow> err option"
  cr_Mismatched :: err
  cr_SignJWT :: "bytes \<Rightarrow> M \<Rightarrow> err + string"
  cr_SHA256 :: "bytes \<Rightarrow> bytes"

record register_params = params +
  rg_Email :: string
  rg_RegistrationPassword :: string
  rg_PasswordNonce :: string
  rg_PasswordCost :: int
  rg_Version :: string
  rg_Created :: string
  rg_Identifier :: string
  rg_Origination :: string

record login_params = params +
  lg_Email :: string
  lg_Password :: string
  lg_CodeChallenge :: string
  lg_CodeVerifier :: string

record update_user_params = params +
  up_PasswordCost :: int
  up_PasswordNonce :: string
  up_PasswordSalt :: string
  up_Version :: string

record update_password_params = update_user_params +
  pw_Identifier :: string
  pw_CurrentPassword :: string
  pw_NewPassword :: string
  pw_NewEmail :: string

type_synonym 'db success =
  "user \<Rightarrow> params \<Rightarrow> M option \<Rightarrow> 'db world \<Rightarrow> (err, json) outcome \<times> 'db world"

subsection \<open>The operations of every version\<close>

definition registered_user :: "register_params \<Rightarrow> user" where
  "registered_user p =
     (let u = model_NewUser\<lparr>us_Email := rg_Email p, us_PasswordNonce := rg_PasswordNonce p,
                            us_PasswordCost := rg_PasswordCost p\<rparr>
      in if rg_Version p \<noteq> [] then u\<lparr>us_Version := rg_Version p\<rparr> else u)"

definition register ::
  "'db storm \<Rightarrow> 'c crypto_scheme \<Rightarrow> 'db success \<Rightarrow> register_params \<Rightarrow> M option \<Rightarrow> 'db world
   \<Rightarrow> (err, json) outcome \<times> 'db world" where
  "register S cr success p response w =
     (case FindUserByMail S (rg_Email p) w of
        Inr _ \<Rightarrow> (Err (NewWithTagCode 401 [] ''This email is already registered.''), w)
      | Inl e \<Rightarrow>
          if \<not> IsNotFound (Some e) then (Err (Wrap ''could not get access to database'' e), w)
          else
            (let (salt, w1) = Rand w
             in case cr_Generate cr salt (rg_RegistrationPassword p) of
                  Inl e \<Rightarrow> (Err (Wrap ''could not store user password safe'' e), w1)
                | Inr hash \<Rightarrow>
                    (let (now, w2) = Now w1;
                         u = (registered_user p)\<lparr>us_Password := hash, us_PasswordUpdatedAt := time_Unix now\<rparr>;
                         (u1, e, w3) = Save (st_users S) u w2
                     in case e of
                          Some e \<Rightarrow> (Err (Wrap ''could not persist user'' e), w3)
                        | None \<Rightarrow> success u1 (params.truncate p) response w3)))"

definition login ::
  "'db storm \<Rightarrow> 'c crypto_scheme \<Rightarrow> 'db success \<Rightarrow> login_params \<Rightarrow> M option \<Rightarrow> 'db world
   \<Rightarrow> (err, json) outcome \<times> 'db world" where
  "login S cr success p response w =
     (case FindUserByMail S (lg_Email p) w of
        Inl e \<Rightarrow>
          (Err (if IsNotFound (Some e) then NewWithTagCode 401 [] ''Invalid email or password.''
                else Wrap ''could not get user'' e), w)
      | Inr u \<Rightarrow>
          (case cr_Compare cr (us_Password u) (lg_Password p) of
             Some e \<Rightarrow>
               (Err (if e = cr_Mismatched cr then NewWithTagCode 401 [] ''Invalid email or password.''
                     else Wrap ''could not validate password'' e), w)
           | None \<Rightarrow> success u (params.truncate p) response w))"

definition apply_params :: "user \<Rightarrow> 'p update_user_params_scheme \<Rightarrow> user" where
  "apply_params u p =
     (let u1 = (if 0 < up_PasswordCost p then u\<lparr>us_PasswordCost := up_PasswordCost p\<rparr> else u);
          u2 = (if up_PasswordNonce p \<noteq> [] then u1\<lparr>us_PasswordNonce := up_PasswordNonce p\<rparr> else u1);
          u3 = (if up_PasswordSalt p \<noteq> [] then u2\<lparr>us_PasswordSalt := up_PasswordSalt p\<rparr> else u2)
      in if up_Version p \<noteq> [] then u3\<lparr>us_Version := up_Version p\<rparr> else u3)"

definition update_user ::
  "'db storm \<Rightarrow> 'db success \<Rightarrow> user \<Rightarrow> update_user_params \<Rightarrow> M option \<Rightarrow> 'db world
   \<Rightarrow> (err, json) outcome \<times> 'db world" where
  "update_user S success u p response w =
     (let (u1, e, w1) = Save (st_users S) (apply_params u p) w
      in case e of
           Some e \<Rightarrow> (Err (Wrap ''could not persist user'' e), w1)
         | None \<Rightarrow> success u1 (params.truncate p) response w1)"

definition password ::
  "'db storm \<Rightarrow> 'c crypto_scheme \<Rightarrow> 'db success \<Rightarrow> user \<Rightarrow> update_password_params \<Rightarrow> M option \<Rightarrow> 'db world
   \<Rightarrow> (err, json) outcome \<times> 'db world" where
  "password S cr success u p response w =
     (case cr_Compare cr (us_Password u) (pw_CurrentPassword p) of
        Some e \<Rightarrow>
          (Err (if e = cr_Mismatched cr
                then NewWithTagCode 401 [] ''The current password you entered is incorrect. Please try again.''
                else Wrap ''could not validate password'' e), w)
      | None \<Rightarrow>
          (let (salt, w1) = Rand w
           in case cr_Generate cr salt (pw_NewPassword p) of
                Inl e \<Rightarrow> (Err (Wrap ''could not store user password safe'' e), w1)
              | Inr hash \<Rightarrow>
                  (let (now, w2) = Now w1;
                       u1 = u\<lparr>us_Password := hash, us_PasswordUpdatedAt := time_Unix now\<rparr>;
                       u2 = (if pw_NewEmail p \<noteq> [] then u1\<lparr>us_Email := pw_NewEmail p\<rparr> else u1);
                       (u3, e, w3) = Save (st_users S) (apply_params u2 p) w2
                   in case e of
                        Some e \<Rightarrow> (Err (Wrap ''could not persist user'' e), w3)
                      | None \<Rightarrow> success u3 (params.truncate p) response w3)))"

subsection \<open>The payloads of the versions\<close>

text \<open>The process stops when the JWT cannot be signed.\<close>

definition CreateJWT ::
  "'c crypto_scheme \<Rightarrow> manager \<Rightarrow> user \<Rightarrow> 'db world \<Rightarrow> (err, string) outcome \<times> 'db world" where
  "CreateJWT cr m u w =
     (let (now, w1) = Now w;
          claims = [(''user_uuid'', JStr (ID u)), (''iss'', JStr ''github.com/mdouchement/standardfile''),
                    (''iat'', JInt (time_Unix now))]
      in case cr_SignJWT cr (mg_signingKey m) claims of
           Inl e \<Rightarrow> (Panic ''could not generate token'', w1)
         | Inr t \<Rightarrow> (Ok t, w1))"

definition SuccessfulAuthentication16 :: "'c crypto_scheme \<Rightarrow> manager \<Rightarrow> 'db success" where
  "SuccessfulAuthentication16 cr m u p response w =
     (let r0 = (case response of None \<Rightarrow> [] | Some r \<Rightarrow> r)
      in case serializer_User u of
           Err e \<Rightarrow> (Err e, w)
         | Panic x \<Rightarrow> (Panic x, w)
         | Ok ju \<Rightarrow>
             (case CreateJWT cr m u w of
                (Ok t, w1) \<Rightarrow> (Ok (JObj (m_set ''token'' (JStr t) (m_set ''user'' ju r0))), w1)
              | (Err e, w1) \<Rightarrow> (Err e, w1)
              | (Panic x, w1) \<Rightarrow> (Panic x, w1)))"

definition CreateSession ::
  "'db storm \<Rightarrow> manager \<Rightarrow> user \<Rightarrow> params \<Rightarrow> 'db world \<Rightarrow> (err + session) \<times> 'db world" where
  "CreateSession S m u p w =
     (let (s, w1) = Generate m w;
          s1 = s\<lparr>se_UserID := ID u, se_APIVersion := pa_APIVersion p, se_UserAgent := pa_UserAgent p\<rparr>;
          (s2, e, w2) = Save (st_sessions S) s1 w1
      in case e of
           Some _ \<Rightarrow> (Inl (NewWithTagCode 400 [] ''Could not create a session.''), w2)
         | None \<Rightarrow> (Inr s2, w2))"

text \<open>The object under \<open>session\<close>, which the refresh handler renders as well.\<close>

definition session_tokens ::
  "'c paseto_scheme \<Rightarrow> manager \<Rightarrow> session \<Rightarrow> 'db world \<Rightarrow> (err + json) \<times> 'db world" where
  "session_tokens pt m s w =
     (case Token (paseto.truncate pt) m s TypeAccessToken w of
        (Inl e, w1) \<Rightarrow> (Inl (Wrap ''could not generate access token'' e), w1)
      | (Inr access, w1) \<Rightarrow>
          (case Token (paseto.truncate pt) m s TypeRefreshToken w1 of
             (Inl e, w2) \<Rightarrow> (Inl (Wrap ''could not generate refresh token'' e), w2)
           | (Inr refresh, w2) \<Rightarrow>
               (Inr (JObj [(''access_token'', JStr access), (''refresh_token'', JStr refresh),
                           (''access_expiration'', JInt (UnixMilli (AccessTokenExprireAt m s))),
                           (''refresh_expiration'', JInt (UnixMilli (se_ExpireAt s)))]), w2)))"

definition SuccessfulAuthentication20 :: "'db storm \<Rightarrow> 'c crypto_scheme \<Rightarrow> manager \<Rightarrow> 'db success" where
  "SuccessfulAuthentication20 S cr m u p response w =
     (if \<not> UserSupportsSessions u then SuccessfulAuthentication16 cr m u p response w
      else
        (let r0 = (case response of None \<Rightarrow> [] | Some r \<Rightarrow> r);
             (found, w1) = (case pa_Session p of Some s \<Rightarrow> (Inr s, w) | None \<Rightarrow> CreateSession S m u p w)
         in case found of
              Inl e \<Rightarrow> (Err e, w1)
            | Inr s \<Rightarrow>
                (case session_tokens cr m s w1 of
                   (Inl e, w2) \<Rightarrow> (Err e, w2)
                 | (Inr tokens, w2) \<Rightarrow>
                     (case serializer_User u of
                        Err e \<Rightarrow> (Err e, w2)
                      | Panic x \<Rightarrow> (Panic x, w2)
                      | Ok ju \<Rightarrow> (Ok (JObj (m_set ''session'' tokens (m_set ''user'' ju r0))), w2)))))"

definition KeyParams :: "user \<Rightarrow> M" where
  "KeyParams u =
     [(''version'', JStr (us_Version u)), (''identifier'', JStr (us_Email u))]
     @ (if us_Version u = ProtocolVersion2
        then [(''email'', JStr (us_Email u)), (''pw_salt'', JStr (us_PasswordSalt u)),
              (''pw_auth'', JStr (us_PasswordAuth u))]
        else if us_Version u = ProtocolVersion3
        then [(''pw_cost'', JInt (us_PasswordCost u)), (''pw_nonce'', JStr (us_PasswordNonce u))]
        else if us_Version u = ProtocolVersion4 then [(''pw_nonce'', JStr (us_PasswordNonce u))]
        else [])"

subsection \<open>The services\<close>

text \<open>\<open>NewUser\<close> picks the builder of the payload; the key parameters of a password change are computed before it.\<close>

definition user_success :: "'db storm \<Rightarrow> 'c crypto_scheme \<Rightarrow> manager \<Rightarrow> string \<Rightarrow> 'db success" where
  "user_success S cr m version =
     (if version = ''20200115'' then SuccessfulAuthentication20 S cr m else SuccessfulAuthentication16 cr m)"

definition user_Register ::
  "'db storm \<Rightarrow> 'c crypto_scheme \<Rightarrow> manager \<Rightarrow> string \<Rightarrow> register_params \<Rightarrow> 'db world
   \<Rightarrow> (err, json) outcome \<times> 'db world" where
  "user_Register S cr m version p w = register S cr (user_success S cr m version) p None w"

definition user_Login ::
  "'db storm \<Rightarrow> 'c crypto_scheme \<Rightarrow> manager \<Rightarrow> string \<Rightarrow> login_params \<Rightarrow> 'db world
   \<Rightarrow> (err, json) outcome \<times> 'db world" where
  "user_Login S cr m version p w = login S cr (user_success S cr m version) p None w"

definition user_Update ::
  "'db storm \<Rightarrow> 'c crypto_scheme \<Rightarrow> manager \<Rightarrow> string \<Rightarrow> user \<Rightarrow> update_user_params \<Rightarrow> 'db world
   \<Rightarrow> (err, json) outcome \<times> 'db world" where
  "user_Update S cr m version u p w = update_user S (user_success S cr m version) u p None w"

definition user_Password ::
  "'db storm \<Rightarrow> 'c crypto_scheme \<Rightarrow> manager \<Rightarrow> string \<Rightarrow> user \<Rightarrow> update_password_params \<Rightarrow> 'db world
   \<Rightarrow> (err, json) outcome \<times> 'db world" where
  "user_Password S cr m version u p w =
     password S cr (user_success S cr m version) u p
       (if version = ''20200115'' then Some [(''key_params'', JObj (KeyParams u))] else None) w"

subsection \<open>The contract of the payload builders\<close>

text \<open>
  What the operations rely on: building the payload keeps users, items and challenges, and adds
  sessions of the user only.
\<close>

locale payload_builder =
  fixes success :: "'db success" and V :: "'db view"
  assumes success_frame: "success u p r w = (out, w') \<Longrightarrow>
        v_users V (w_db w') = v_users V (w_db w) \<and> v_items V (w_db w') = v_items V (w_db w)
        \<and> v_pkces V (w_db w') = v_pkces V (w_db w)"
    and success_sessions: "success u p r w = (out, w') \<Longrightarrow> x \<in> v_sessions V (w_db w') \<Longrightarrow>
        x \<in> v_sessions V (w_db w) \<or> se_UserID x = ID u"
    and success_sources: "success u p r w = (out, w') \<Longrightarrow> same_sources w w'"

text \<open>Where the sources of randomness are not read, they stay as they are.\<close>

lemma same_sources_Rand [simp]: "same_sources w (snd (Rand w))"
  by (simp add: same_sources_def Rand_def)

lemma Token_frame: "Token pt m s t w = (r, w') \<Longrightarrow> w_db w' = w_db w \<and> same_sources w w'"
  by (auto simp: Token_def Let_def Now_def Rand_def same_sources_def)

lemma session_tokens_frame:
  assumes "session_tokens pt m s w = (r, w')"
  shows "w_db w' = w_db w \<and> same_sources w w'"
proof -
  obtain a w1 where a: "Token (paseto.truncate pt) m s TypeAccessToken w = (a, w1)" by force
  obtain b w2 where b: "Token (paseto.truncate pt) m s TypeRefreshToken w1 = (b, w2)" by force
  have "w' = w1 \<or> w' = w2"
    using assms a b by (auto simp: session_tokens_def split: sum.splits)
  then show ?thesis using Token_frame [OF a] Token_frame [OF b] same_sources_trans by auto
qed

lemma CreateJWT_frame: "CreateJWT cr m u w = (r, w') \<Longrightarrow> w_db w' = w_db w \<and> same_sources w w'"
  by (auto simp: CreateJWT_def Let_def Now_def same_sources_def split: sum.splits)

lemma SuccessfulAuthentication16_frame:
  "SuccessfulAuthentication16 cr m u p r w = (out, w') \<Longrightarrow> w_db w' = w_db w \<and> same_sources w w'"
  by (auto simp: SuccessfulAuthentication16_def Let_def dest: CreateJWT_frame
      split: outcome.splits prod.splits)

context store
begin

lemma CreateSession_frame:
  assumes "CreateSession S m u p w = (r, w')"
  shows "v_users V (w_db w') = v_users V (w_db w) \<and> v_items V (w_db w') = v_items V (w_db w)
    \<and> v_pkces V (w_db w') = v_pkces V (w_db w) \<and> same_sources w w'
    \<and> (\<forall>x \<in> v_sessions V (w_db w'). x \<in> v_sessions V (w_db w) \<or> se_UserID x = ID u)"
proof -
  obtain s w1 where g: "Generate m w = (s, w1)" by force
  let ?s = "s\<lparr>se_UserID := ID u, se_APIVersion := pa_APIVersion p, se_UserAgent := pa_UserAgent p\<rparr>"
  obtain s2 e w2 where sv: "Save (st_sessions S) ?s w1 = (s2, e, w2)" by (metis prod_cases3)
  have w': "w' = w2" using assms g sv by (auto simp: CreateSession_def split: option.splits)
  have s2: "se_UserID s2 = ID u" using Save_result(1) [OF sv] by simp
  have src: "same_sources w w2"
    using Generate_result(2) [OF g] Save_result(3) [OF sv] by (rule same_sources_trans)
  show ?thesis
  proof (cases e)
    case None
    have "writes (st_sessions S) (w_db w1) (w_db w2)" by (rule writes_Save [OF sv [unfolded None]])
    then show ?thesis
      using frame_sessions sessions.Save_rows [OF sv [unfolded None]] w' src s2 Generate_result(1) [OF g]
      by (auto simp: forget_current_def)
  next
    case (Some x)
    then show ?thesis using Save_result(5) [OF sv Some] w' src Generate_result(1) [OF g] by simp
  qed
qed

lemma SuccessfulAuthentication20_frame:
  assumes "SuccessfulAuthentication20 S cr m u p r w = (out, w')"
  shows "v_users V (w_db w') = v_users V (w_db w) \<and> v_items V (w_db w') = v_items V (w_db w)
    \<and> v_pkces V (w_db w') = v_pkces V (w_db w) \<and> same_sources w w'
    \<and> (\<forall>x \<in> v_sessions V (w_db w'). x \<in> v_sessions V (w_db w) \<or> se_UserID x = ID u)"
proof (cases "UserSupportsSessions u")
  case False
  then show ?thesis using assms SuccessfulAuthentication16_frame [of cr m u p r w out w']
    by (simp add: SuccessfulAuthentication20_def)
next
  case True
  define sess where "sess = (case pa_Session p of Some s \<Rightarrow> (Inr s, w) | None \<Rightarrow> CreateSession S m u p w)"
  obtain found w1 where sess_eq: "sess = (found, w1)" by force
  have f1: "v_users V (w_db w1) = v_users V (w_db w) \<and> v_items V (w_db w1) = v_items V (w_db w)
    \<and> v_pkces V (w_db w1) = v_pkces V (w_db w) \<and> same_sources w w1
    \<and> (\<forall>x \<in> v_sessions V (w_db w1). x \<in> v_sessions V (w_db w) \<or> se_UserID x = ID u)"
    using sess_eq CreateSession_frame [of m u p w found w1] by (auto simp: sess_def split: option.splits)
  have "w_db w' = w_db w1 \<and> same_sources w1 w'"
  proof (cases found)
    case (Inl e)
    then show ?thesis using assms True sess_eq by (simp add: SuccessfulAuthentication20_def sess_def)
  next
    case (Inr s)
    obtain t w2 where t: "session_tokens cr m s w1 = (t, w2)" by force
    then have "w' = w2"
      using assms True sess_eq Inr
      by (auto simp: SuccessfulAuthentication20_def sess_def split: sum.splits outcome.splits)
    then show ?thesis using session_tokens_frame [OF t] by simp
  qed
  then show ?thesis using f1 same_sources_trans by auto
qed

end

sublocale store \<subseteq> payload: payload_builder "user_success S cr m version" V for cr m version
proof (unfold_locales, goal_cases)
  case (1 u p r w out w')
  then show ?case
    using SuccessfulAuthentication20_frame [of cr m u p r w out w'] SuccessfulAuthentication16_frame [of cr m u p r w out w']
    by (auto simp: user_success_def split: if_splits)
next
  case (2 u p r w out w' x)
  then show ?case
    using SuccessfulAuthentication20_frame [of cr m u p r w out w'] SuccessfulAuthentication16_frame [of cr m u p r w out w']
    by (auto simp: user_success_def split: if_splits)
next
  case (3 u p r w out w')
  then show ?case
    using SuccessfulAuthentication20_frame [of cr m u p r w out w'] SuccessfulAuthentication16_frame [of cr m u p r w out w']
    by (auto simp: user_success_def split: if_splits)
qed

subsection \<open>What the operations do\<close>

context store
begin

text \<open>A session is added only by a version and for an account that have sessions, and only when there is none yet.\<close>

lemma CreateSession_saves:
  assumes "CreateSession S m u p w = (Inr s, w')"
  shows "\<exists>x. se_UserID x = ID u \<and> v_sessions V (w_db w') = insert x {y \<in> v_sessions V (w_db w). ID y \<noteq> ID x}"
proof -
  obtain s0 w1 where g: "Generate m w = (s0, w1)" by force
  let ?s = "s0\<lparr>se_UserID := ID u, se_APIVersion := pa_APIVersion p, se_UserAgent := pa_UserAgent p\<rparr>"
  obtain s2 e w2 where sv: "Save (st_sessions S) ?s w1 = (s2, e, w2)" by (metis prod_cases3)
  have "e = None" "w' = w2" using assms g sv by (auto simp: CreateSession_def split: option.splits)
  moreover have "se_UserID s2 = ID u" using Save_result(1) [OF sv] by simp
  ultimately show ?thesis
    using sessions.Save_rows [of ?s w1 s2 w2] sv Generate_result(1) [OF g]
    by (intro exI [of _ "forget_current s2"]) (simp add: forget_current_def)
qed

lemma user_success_sessions:
  assumes "user_success S cr m version u p r w = (Ok j, w')"
  shows "if version = ''20200115'' \<and> UserSupportsSessions u \<and> pa_Session p = None
    then \<exists>s. se_UserID s = ID u \<and> v_sessions V (w_db w') = insert s {x \<in> v_sessions V (w_db w). ID x \<noteq> ID s}
    else v_sessions V (w_db w') = v_sessions V (w_db w)"
proof (cases "version = ''20200115'' \<and> UserSupportsSessions u")
  case False
  then have "SuccessfulAuthentication16 cr m u p r w = (Ok j, w')"
    using assms by (auto simp: user_success_def SuccessfulAuthentication20_def split: if_splits)
  from SuccessfulAuthentication16_frame [OF this] False show ?thesis by auto
next
  case True
  define sess where "sess = (case pa_Session p of Some s \<Rightarrow> (Inr s, w) | None \<Rightarrow> CreateSession S m u p w)"
  obtain found w1 where sess_eq: "sess = (found, w1)" by force
  obtain s where s: "found = Inr s"
    using assms True sess_eq
    by (cases found) (auto simp: user_success_def SuccessfulAuthentication20_def sess_def)
  obtain t w2 where t: "session_tokens cr m s w1 = (t, w2)" by force
  then have "w' = w2"
    using assms True sess_eq s
    by (auto simp: user_success_def SuccessfulAuthentication20_def sess_def split: sum.splits outcome.splits)
  then have "w_db w' = w_db w1" using session_tokens_frame [OF t] by simp
  then show ?thesis using sess_eq s True CreateSession_saves [of m u p w s w1]
    by (auto simp: sess_def split: option.splits)
qed

lemma register_OkE:
  assumes "register S cr success p response w = (Ok j, w')"
  obtains e salt hash u w3 where "FindUserByMail S (rg_Email p) w = Inl e" "IsNotFound (Some e)"
    and "cr_Generate cr salt (rg_RegistrationPassword p) = Inr hash"
    and "u = stamped ((registered_user p)\<lparr>us_Password := hash,
               us_PasswordUpdatedAt := time_Unix (w_clock w (w_ticks w))\<rparr>) (snd (Now (snd (Rand w))))"
    and "v_users V (w_db w3) = insert u {x \<in> v_users V (w_db w). ID x \<noteq> ID u}"
    and "v_items V (w_db w3) = v_items V (w_db w)" and "v_sessions V (w_db w3) = v_sessions V (w_db w)"
    and "v_pkces V (w_db w3) = v_pkces V (w_db w)"
    and "success u (params.truncate p) response w3 = (Ok j, w')"
proof -
  let ?w2 = "snd (Now (snd (Rand w)))"
  obtain e where f: "FindUserByMail S (rg_Email p) w = Inl e" "IsNotFound (Some e)"
    using assms by (auto simp: register_def split: sum.splits if_splits)
  obtain hash where h: "cr_Generate cr (fst (Rand w)) (rg_RegistrationPassword p) = Inr hash"
    using assms f by (auto simp: register_def Let_def split: sum.splits prod.splits)
  let ?u = "(registered_user p)\<lparr>us_Password := hash, us_PasswordUpdatedAt := time_Unix (w_clock w (w_ticks w))\<rparr>"
  obtain u e3 w3 where sv: "Save (st_users S) ?u ?w2 = (u, e3, w3)" by (metis prod_cases3)
  have "e3 = None" and "success u (params.truncate p) response w3 = (Ok j, w')"
    using assms f h sv by (auto simp: register_def Let_def Now_def Rand_def split: option.splits)
  then show thesis
    using that [OF f h _ _ _ _ _ \<open>success u _ _ w3 = _\<close>] users.Save_rows [of ?u ?w2 u w3] Save_result(1) [OF sv] sv
      frame_users [OF writes_Save] by simp
qed

lemma registered_user_fields [simp]:
  "us_Email (registered_user p) = rg_Email p" "ID (registered_user p) = []"
  "us_Version (registered_user p) = (if rg_Version p = [] then ProtocolVersion2 else rg_Version p)"
  by (simp_all add: registered_user_def model_NewUser_def Let_def)

lemma login_cases:
  assumes "login S cr success p response w = (out, w')"
  obtains (refused) e where "out = Err e" "w' = w"
    | (accepted) u where "u \<in> v_users V (w_db w)" "us_Email u = lg_Email p"
        "cr_Compare cr (us_Password u) (lg_Password p) = None"
        "success u (params.truncate p) response w = (out, w')"
proof (cases "FindUserByMail S (lg_Email p) w")
  case (Inl e)
  then obtain x where "out = Err x" "w' = w" using assms by (auto simp: login_def)
  then show thesis by (rule refused)
next
  case (Inr u)
  then show thesis
    using assms accepted [of u] refused FindUserByMail_Inr [OF Inr]
    by (cases "cr_Compare cr (us_Password u) (lg_Password p)") (auto simp: login_def)
qed

lemma apply_params_fields [simp]:
  "ID (apply_params u p) = ID u" "us_Password (apply_params u p) = us_Password u"
  "us_PasswordUpdatedAt (apply_params u p) = us_PasswordUpdatedAt u" "us_Email (apply_params u p) = us_Email u"
  "CreatedAt (apply_params u p) = CreatedAt u"
  by (simp_all add: apply_params_def Let_def)

lemma password_OkE:
  assumes "password S cr success u p response w = (Ok j, w')"
  obtains salt hash u1 w3 where "cr_Compare cr (us_Password u) (pw_CurrentPassword p) = None"
    and "cr_Generate cr salt (pw_NewPassword p) = Inr hash"
    and "us_Password u1 = hash" "us_PasswordUpdatedAt u1 = time_Unix (w_clock w (w_ticks w))"
    and "ID u \<noteq> [] \<Longrightarrow> ID u1 = ID u"
    and "us_Email u1 = (if pw_NewEmail p = [] then us_Email u else pw_NewEmail p)"
    and "v_users V (w_db w3) = insert u1 {x \<in> v_users V (w_db w). ID x \<noteq> ID u1}"
    and "success u1 (params.truncate p) response w3 = (Ok j, w')"
proof -
  let ?w2 = "snd (Now (snd (Rand w)))"
  have c: "cr_Compare cr (us_Password u) (pw_CurrentPassword p) = None"
    using assms by (auto simp: password_def split: option.splits)
  obtain hash where h: "cr_Generate cr (fst (Rand w)) (pw_NewPassword p) = Inr hash"
    using assms c by (auto simp: password_def Let_def split: sum.splits prod.splits)
  let ?u = "u\<lparr>us_Password := hash, us_PasswordUpdatedAt := time_Unix (w_clock w (w_ticks w))\<rparr>"
  let ?u2 = "if pw_NewEmail p \<noteq> [] then ?u\<lparr>us_Email := pw_NewEmail p\<rparr> else ?u"
  obtain u3 e3 w3 where sv: "Save (st_users S) (apply_params ?u2 p) ?w2 = (u3, e3, w3)" by (metis prod_cases3)
  have "e3 = None" and ok: "success u3 (params.truncate p) response w3 = (Ok j, w')"
    using assms c h sv by (auto simp: password_def Let_def Now_def Rand_def split: option.splits)
  then show thesis
    using that [OF c h _ _ _ _ _ ok] users.Save_rows [of "apply_params ?u2 p" ?w2 u3 w3] Save_result(1) [OF sv] sv
    by (simp add: ID_stamped)
qed

lemma user_Register_creates:
  assumes "user_Register S cr m version p w = (Ok j, w')"
  shows "(\<forall>x \<in> v_users V (w_db w). us_Email x \<noteq> rg_Email p)
    \<and> (\<exists>u salt. us_Email u = rg_Email p \<and> cr_Generate cr salt (rg_RegistrationPassword p) = Inr (us_Password u)
         \<and> us_Version u = (if rg_Version p = [] then ''002'' else rg_Version p)
         \<and> v_users V (w_db w') = insert u {x \<in> v_users V (w_db w). ID x \<noteq> ID u}
         \<and> v_items V (w_db w') = v_items V (w_db w) \<and> v_pkces V (w_db w') = v_pkces V (w_db w)
         \<and> (if version = ''20200115'' \<and> UserSupportsSessions u \<and> pa_Session p = None
            then \<exists>s. se_UserID s = ID u
                   \<and> v_sessions V (w_db w') = insert s {x \<in> v_sessions V (w_db w). ID x \<noteq> ID s}
            else v_sessions V (w_db w') = v_sessions V (w_db w)))"
proof -
  obtain e salt hash u w3 where f: "FindUserByMail S (rg_Email p) w = Inl e" "IsNotFound (Some e)"
    and h: "cr_Generate cr salt (rg_RegistrationPassword p) = Inr hash"
    and u: "u = stamped ((registered_user p)\<lparr>us_Password := hash,
               us_PasswordUpdatedAt := time_Unix (w_clock w (w_ticks w))\<rparr>) (snd (Now (snd (Rand w))))"
    and rows: "v_users V (w_db w3) = insert u {x \<in> v_users V (w_db w). ID x \<noteq> ID u}"
      "v_items V (w_db w3) = v_items V (w_db w)" "v_sessions V (w_db w3) = v_sessions V (w_db w)"
      "v_pkces V (w_db w3) = v_pkces V (w_db w)"
    and succ: "user_success S cr m version u (params.truncate p) None w3 = (Ok j, w')"
    using assms unfolding user_Register_def by (rule register_OkE)
  have "us_Email u = rg_Email p" "us_Password u = hash"
    "us_Version u = (if rg_Version p = [] then ''002'' else rg_Version p)"
    using u by (simp_all add: ProtocolVersion2_def)
  then show ?thesis
    using FindUserByMail_missing [OF f] h rows payload.success_frame [OF succ] user_success_sessions [OF succ]
    by (intro conjI exI [of _ u] exI [of _ salt]) (auto simp: params.defs)
qed

lemma user_Login_cases:
  assumes "user_Login S cr m version p w = (out, w')"
  shows "(\<exists>e. out = Err e) \<and> w' = w
    \<or> (\<exists>u \<in> v_users V (w_db w). us_Email u = lg_Email p \<and> cr_Compare cr (us_Password u) (lg_Password p) = None
         \<and> v_users V (w_db w') = v_users V (w_db w) \<and> v_items V (w_db w') = v_items V (w_db w)
         \<and> (\<forall>x \<in> v_sessions V (w_db w'). x \<in> v_sessions V (w_db w) \<or> se_UserID x = ID u))"
  using assms unfolding user_Login_def
proof (cases rule: login_cases)
  case (accepted u)
  then show ?thesis
    using payload.success_frame [OF accepted(4)] payload.success_sessions [OF accepted(4)] by blast
qed simp

lemma login_same_user:
  assumes u: "u \<in> v_users V (w_db w)" "us_Email u = lg_Email p" "lg_Email p \<noteq> []"
    and unique: "\<And>x. x \<in> v_users V (w_db w) \<Longrightarrow> us_Email x = us_Email u \<Longrightarrow> x = u"
    and ok: "cr_Compare cr (us_Password u) (lg_Password p) = None"
  shows "login S cr success p response w = success u (params.truncate p) response w
    \<or> (\<exists>e. login S cr success p response w = (Err (Wrap ''could not get user'' e), w))"
proof (cases "FindUserByMail S (lg_Email p) w")
  case (Inl e)
  then have "\<not> IsNotFound (Some e)" using FindUserByMail_missing [OF Inl] u by blast
  then show ?thesis using Inl by (simp add: login_def)
next
  case (Inr x)
  then have "x = u" using FindUserByMail_Inr [OF Inr] unique u(2) by simp
  then show ?thesis using Inr ok by (simp add: login_def)
qed

text \<open>Whoever registers can log in with the same email and password, while the users stay the same.\<close>

lemma register_then_login:
  assumes reg: "user_Register S cr m version p w = (Ok j, w1)" and "rg_Email p \<noteq> []"
    and law: "\<And>salt pw hash. cr_Generate cr salt pw = Inr hash \<Longrightarrow> cr_Compare cr hash pw = None"
    and users: "v_users V (w_db w2) = v_users V (w_db w1)"
    and l: "lg_Email q = rg_Email p" "lg_Password q = rg_RegistrationPassword p"
  shows "(\<exists>u \<in> v_users V (w_db w1). us_Email u = rg_Email p
      \<and> user_Login S cr m version q w2 = user_success S cr m version u (params.truncate q) None w2)
    \<or> (\<exists>e. user_Login S cr m version q w2 = (Err (Wrap ''could not get user'' e), w2))"
proof -
  obtain u salt where new: "\<forall>x \<in> v_users V (w_db w). us_Email x \<noteq> rg_Email p" "us_Email u = rg_Email p"
      "cr_Generate cr salt (rg_RegistrationPassword p) = Inr (us_Password u)"
      "v_users V (w_db w1) = insert u {x \<in> v_users V (w_db w). ID x \<noteq> ID u}"
    using user_Register_creates [OF reg] by blast
  have "cr_Compare cr (us_Password u) (lg_Password q) = None" using law [OF new(3)] l(2) by simp
  moreover have "\<And>x. x \<in> v_users V (w_db w2) \<Longrightarrow> us_Email x = us_Email u \<Longrightarrow> x = u"
    using new users by auto
  ultimately have "login S cr (user_success S cr m version) q None w2
        = user_success S cr m version u (params.truncate q) None w2
      \<or> (\<exists>e. login S cr (user_success S cr m version) q None w2 = (Err (Wrap ''could not get user'' e), w2))"
    using new users l assms(2) by (intro login_same_user) auto
  then show ?thesis using new unfolding user_Login_def by auto
qed

lemma password_revokes_JWT:
  assumes "user_Password S cr m version u p w = (Ok j, w1)" and "ID u \<noteq> []"
    and users: "v_users V (w_db w2) = v_users V (w_db w1)"
    and claims: "claims ''user_uuid'' = Some (CString (ID u))" "claim_iat (claims ''iat'') = Some iat"
    and before: "iat < time_Unix (w_clock w (w_ticks w))"
  shows "manager_JWT S claims w2 \<noteq> Ok x"
proof
  assume ok: "manager_JWT S claims w2 = Ok x"
  obtain u1 w3 where u1: "us_PasswordUpdatedAt u1 = time_Unix (w_clock w (w_ticks w))" "ID u1 = ID u"
    and rows: "v_users V (w_db w3) = insert u1 {x \<in> v_users V (w_db w). ID x \<noteq> ID u1}"
    and succ: "user_success S cr m version u1 (params.truncate p)
      (if version = ''20200115'' then Some [(''key_params'', JObj (KeyParams u))] else None) w3 = (Ok j, w1)"
    by (rule password_OkE [OF assms(1) [unfolded user_Password_def]]) (use assms(2) in auto)
  have "v_users V (w_db w1) = v_users V (w_db w3)" using payload.success_frame [OF succ] by simp
  moreover have "x \<in> v_users V (w_db w2)" "ID x = ID u" "us_PasswordUpdatedAt x \<le> iat"
    using manager_JWT_Ok [OF ok] claims by auto
  ultimately have "x = u1" using users rows u1(2) by auto
  then show False using u1(1) before \<open>us_PasswordUpdatedAt x \<le> iat\<close> by simp
qed

end

text \<open>The key parameters a payload carries are those of the user before the change.\<close>

lemma user_success_keeps_field:
  assumes "user_success S cr m version u p (Some r) w = (Ok j, w')" and "k \<noteq> ''user''" "k \<noteq> ''token''" "k \<noteq> ''session''"
  shows "obj_field j k = map_of r k"
  using assms
  by (auto simp: user_success_def SuccessfulAuthentication20_def SuccessfulAuthentication16_def Let_def map_of_m_set
      split: if_splits outcome.splits prod.splits sum.splits)

subsection \<open>Properties\<close>

text \<open>A hash that keeps the salt and the password, and tokens that keep their claims, for concrete runs.\<close>

definition example_crypto :: crypto where
  "example_crypto =
     \<lparr>pt_Encrypt = (\<lambda>n key c footer. Inr (pc_Subject c @ '':'' @ pc_Jti c)),
      pt_Decrypt = (\<lambda>t key. Inl (ErrLib ''not a token'')),
      cr_Generate = (\<lambda>salt pw. Inr (''h:'' @ pw)),
      cr_Compare = (\<lambda>hash pw. if hash = ''h:'' @ pw then None else Some (ErrLib ''mismatch'')),
      cr_Mismatched = ErrLib ''mismatch'', cr_SignJWT = (\<lambda>key claims. Inr ''jwt''), cr_SHA256 = (\<lambda>b. b)\<rparr>"

definition empty_params :: "string \<Rightarrow> params" where
  "empty_params api = \<lparr>pa_APIVersion = api, pa_UserAgent = [], pa_Session = None\<rparr>"

definition example_registration :: register_params where
  "example_registration =
     \<lparr>pa_APIVersion = ''20161215'', pa_UserAgent = [], pa_Session = None, rg_Email = ''a@b'',
      rg_RegistrationPassword = ''pw'', rg_PasswordNonce = ''n'', rg_PasswordCost = 1, rg_Version = ''003'',
      rg_Created = [], rg_Identifier = [], rg_Origination = []\<rparr>"

definition example_login :: login_params where
  "example_login = \<lparr>pa_APIVersion = ''20161215'', pa_UserAgent = [], pa_Session = None, lg_Email = ''a@b'',
     lg_Password = ''pw'', lg_CodeChallenge = [], lg_CodeVerifier = []\<rparr>"

definition account_start :: "memdb world" where
  "account_start = memory_world 90000000000 empty_db"

definition registration_run :: "(err, json) outcome \<times> memdb world" where
  "registration_run = user_Register mem_storm example_crypto example_manager ''20161215'' example_registration account_start"

lemma registration_runs:
  "user_Register mem_storm example_crypto example_manager ''20161215'' example_registration account_start
     = (Ok (the_Ok (fst registration_run)), snd registration_run)"
proof -
  have "is_Ok (fst registration_run)" by code_simp
  then show ?thesis unfolding registration_run_def by (rule is_Ok_result)
qed

text \<open>
  C24. A successful registration creates exactly one user, with the given email, which no user had, the
  hash of the given password and the given protocol version (002 when none is given); every other
  user, every item and every challenge stays. In version 20200115 the registration of an account that supports
  sessions, protocol 004, also adds one session, which is that user's, unless the request came with one; any other
  registration leaves the sessions alone.
\<close>

theorem register_creates_user:
  assumes "store S V" and "user_Register S cr m version p w = (Ok j, w')"
  shows "(\<forall>x \<in> v_users V (w_db w). us_Email x \<noteq> rg_Email p)
    \<and> (\<exists>u salt. us_Email u = rg_Email p \<and> cr_Generate cr salt (rg_RegistrationPassword p) = Inr (us_Password u)
         \<and> us_Version u = (if rg_Version p = [] then ''002'' else rg_Version p)
         \<and> v_users V (w_db w') = insert u {x \<in> v_users V (w_db w). ID x \<noteq> ID u}
         \<and> v_items V (w_db w') = v_items V (w_db w) \<and> v_pkces V (w_db w') = v_pkces V (w_db w)
         \<and> (if version = ''20200115'' \<and> UserSupportsSessions u \<and> pa_Session p = None
            then \<exists>s. se_UserID s = ID u
                   \<and> v_sessions V (w_db w') = insert s {x \<in> v_sessions V (w_db w). ID x \<noteq> ID s}
            else v_sessions V (w_db w') = v_sessions V (w_db w)))"
  by (rule store.user_Register_creates [OF assms])

theorem register_creates_user_witness:
  "\<exists>u \<in> v_users mem_view (w_db (snd registration_run)). us_Email u = ''a@b'' \<and> us_Version u = ''003''"
  using register_creates_user [OF mem_store registration_runs]
  by (auto simp: example_registration_def)

text \<open>
  C23. Whoever registered can log in: with the same email and password the login builds the payload of
  the registered user, as long as the users are as the registration left them; only a failure of the
  storage can prevent it. What is assumed of the password library is that a hash matches its password.
\<close>

theorem registered_user_logs_in:
  assumes "store S V" and "user_Register S cr m version p w = (Ok j, w1)" and "rg_Email p \<noteq> []"
    and "\<And>salt pw hash. cr_Generate cr salt pw = Inr hash \<Longrightarrow> cr_Compare cr hash pw = None"
    and "v_users V (w_db w2) = v_users V (w_db w1)"
    and "lg_Email q = rg_Email p" and "lg_Password q = rg_RegistrationPassword p"
  shows "(\<exists>u \<in> v_users V (w_db w1). us_Email u = rg_Email p
      \<and> user_Login S cr m version q w2 = user_success S cr m version u (params.truncate q) None w2)
    \<or> (\<exists>e. user_Login S cr m version q w2 = (Err (Wrap ''could not get user'' e), w2))"
  by (rule store.register_then_login [OF assms])

theorem registered_user_logs_in_witness:
  "\<exists>u \<in> v_users mem_view (w_db (snd registration_run)). us_Email u = ''a@b''"
proof -
  let ?w = "snd registration_run"
  have law: "\<And>salt pw hash. cr_Generate example_crypto salt pw = Inr hash \<Longrightarrow> cr_Compare example_crypto hash pw = None"
    by (auto simp: example_crypto_def)
  have ok: "is_Ok (fst (user_Login mem_storm example_crypto example_manager ''20161215'' example_login ?w))"
    by code_simp
  have "(\<exists>u \<in> v_users mem_view (w_db ?w). us_Email u = rg_Email example_registration
      \<and> user_Login mem_storm example_crypto example_manager ''20161215'' example_login ?w
        = user_success mem_storm example_crypto example_manager ''20161215'' u (params.truncate example_login) None ?w)
    \<or> (\<exists>e. user_Login mem_storm example_crypto example_manager ''20161215'' example_login ?w
        = (Err (Wrap ''could not get user'' e), ?w))"
    by (rule registered_user_logs_in [OF mem_store registration_runs _ law])
      (simp_all add: example_registration_def example_login_def)
  then show ?thesis using ok by (auto simp: example_registration_def)
qed

text \<open>
  C22. A login that is not refused outright belongs to a stored user with this email whose password
  hash matches the given password; it changes no user and no item, and the sessions it adds are that
  user's. A refused login changes nothing.
\<close>

theorem login_authenticates:
  assumes "store S V" and "user_Login S cr m version p w = (out, w')"
  shows "(\<exists>e. out = Err e) \<and> w' = w
    \<or> (\<exists>u \<in> v_users V (w_db w). us_Email u = lg_Email p \<and> cr_Compare cr (us_Password u) (lg_Password p) = None
         \<and> v_users V (w_db w') = v_users V (w_db w) \<and> v_items V (w_db w') = v_items V (w_db w)
         \<and> (\<forall>x \<in> v_sessions V (w_db w'). x \<in> v_sessions V (w_db w) \<or> se_UserID x = ID u))"
  by (rule store.user_Login_cases [OF assms])

theorem login_authenticates_witness:
  "snd (user_Login mem_storm example_crypto example_manager ''20161215'' (example_login\<lparr>lg_Password := ''x''\<rparr>)
      account_start) = account_start"
proof -
  let ?r = "user_Login mem_storm example_crypto example_manager ''20161215'' (example_login\<lparr>lg_Password := ''x''\<rparr>)
      account_start"
  have "v_users mem_view (w_db account_start) = {}"
    by (simp add: account_start_def memory_world_def empty_db_def mem_view_def)
  then show ?thesis using login_authenticates [OF mem_store surjective_pairing [of ?r]] by simp
qed

text \<open>
  C25. A successful change of the password, made with the current one, revokes the JWTs issued in an
  earlier second: as long as the users are as the change left them, such a JWT is not accepted.
\<close>

theorem password_change_revokes_JWT:
  assumes "store S V" and "user_Password S cr m version u p w = (Ok j, w1)" and "ID u \<noteq> []"
    and "v_users V (w_db w2) = v_users V (w_db w1)"
    and "claims ''user_uuid'' = Some (CString (ID u))" and "claim_iat (claims ''iat'') = Some iat"
    and "iat < time_Unix (w_clock w (w_ticks w))"
  shows "manager_JWT S claims w2 \<noteq> Ok x"
  by (rule store.password_revokes_JWT [OF assms])

definition account_user :: user where
  "account_user = model_NewUser\<lparr>ID := ''alice'', CreatedAt := Some 0, UpdatedAt := Some 0, us_Email := ''a@b'',
     us_Password := ''h:old'', us_Version := ''004'', us_PasswordNonce := ''n1''\<rparr>"

definition account_world :: "memdb world" where
  "account_world = memory_world 90000000000 (empty_db\<lparr>md_users := [account_user]\<rparr>)"

definition example_change :: update_password_params where
  "example_change = \<lparr>pa_APIVersion = ''20161215'', pa_UserAgent = [], pa_Session = None, up_PasswordCost = 0,
     up_PasswordNonce = ''n2'', up_PasswordSalt = [], up_Version = [], pw_Identifier = [],
     pw_CurrentPassword = ''old'', pw_NewPassword = ''new'', pw_NewEmail = []\<rparr>"

definition change_run :: "(err, json) outcome \<times> memdb world" where
  "change_run = user_Password mem_storm example_crypto example_manager ''20161215'' account_user example_change account_world"

theorem password_change_revokes_JWT_witness:
  "manager_JWT mem_storm [''user_uuid'' \<mapsto> CString ''alice'', ''iat'' \<mapsto> CFloat 60] (snd change_run) \<noteq> Ok account_user"
proof -
  have "is_Ok (fst change_run)" by code_simp
  then have run: "user_Password mem_storm example_crypto example_manager ''20161215'' account_user example_change
      account_world = (Ok (the_Ok (fst change_run)), snd change_run)" unfolding change_run_def by (rule is_Ok_result)
  have "60 < time_Unix (w_clock account_world (w_ticks account_world))" by code_simp
  then show ?thesis
    by (intro password_change_revokes_JWT [OF mem_store run _ refl])
      (simp_all add: account_user_def claim_iat_def)
qed

text \<open>
  The key parameters in the reply to a change of the password with version 20200115 are those from
  before the change: computed ahead of it, they keep the former nonce, salt and email.
\<close>

theorem password_reply_key_params:
  assumes "user_Password S cr m ''20200115'' u p w = (Ok j, w')"
  shows "obj_field j ''key_params'' = Some (JObj (KeyParams u))"
proof -
  have "\<exists>u3 w3. user_success S cr m ''20200115'' u3 (params.truncate p)
      (Some [(''key_params'', JObj (KeyParams u))]) w3 = (Ok j, w')"
    using assms
    by (auto simp: user_Password_def password_def Let_def split: option.splits sum.splits prod.splits)
  then show ?thesis using user_success_keeps_field by fastforce
qed

definition session_change_run :: "(err, json) outcome \<times> memdb world" where
  "session_change_run = user_Password mem_storm example_crypto example_manager ''20200115'' account_user
     (example_change\<lparr>pa_Session := Some example_session\<rparr>) account_world"

theorem password_reply_key_params_witness:
  "obj_field (the_Ok (fst session_change_run)) ''key_params''
     = Some (JObj [(''version'', JStr ''004''), (''identifier'', JStr ''a@b''), (''pw_nonce'', JStr ''n1'')])"
proof -
  have "is_Ok (fst session_change_run)" by code_simp
  then have "user_Password mem_storm example_crypto example_manager ''20200115'' account_user
      (example_change\<lparr>pa_Session := Some example_session\<rparr>) account_world
      = (Ok (the_Ok (fst session_change_run)), snd session_change_run)"
    unfolding session_change_run_def by (rule is_Ok_result)
  from password_reply_key_params [OF this] show ?thesis
    by (simp add: KeyParams_def account_user_def protocol_version_defs)
qed

end
