(* ===== verification/Middlewares.thy ===== *)
theory Middlewares
  imports Sync User_Service
begin

text \<open>
  \<^verbatim>\<open>internal/server/middlewares\<close>: binding of request bodies, rendering of errors, and the
  authentication middleware, with the responses the handlers give. The web framework and its
  middleware packages are parameters: the default binder, the check of a PASETO or of a JWT, and the
  constructor of the framework's errors. The framework recovers panics into an internal error; here a
  panic is an outcome.
\<close>

datatype response =
    R_JSON int json
  | R_NoContent int
  | R_Sync int sync_result
  | R_String int string
  | R_HTML int string

text \<open>What the handlers read of \<^verbatim>\<open>echo.Context\<close>: the keys set by the middleware and the request.\<close>

record ctx =
  cx_User :: "user option"
  cx_Session :: "session option"
  cx_UserAgent :: string
  cx_Param_id :: string
  cx_QueryParam_email :: string

type_synonym 'db handler = "ctx \<Rightarrow> 'db world \<Rightarrow> (err, response) outcome \<times> 'db world"

subsection \<open>Binder\<close>

definition Bind ::
  "(int \<Rightarrow> string \<Rightarrow> err) \<Rightarrow> (string \<Rightarrow> err + 'p) \<Rightarrow> string \<Rightarrow> int \<Rightarrow> string \<Rightarrow> err + 'p" where
  "Bind newHTTPError defaultBind verb contentLength contentType =
     (if contentLength = 0 \<and> verb \<in> {''POST'', ''PATCH'', ''PUT''}
      then Inl (newHTTPError 400 ''Request body can't be empty'')
      else defaultBind (if contentType = [] then ''application/json'' else contentType))"

subsection \<open>Errors\<close>

definition internal_error :: "'db world \<Rightarrow> response \<times> 'db world" where
  "internal_error w =
     (let (i, w1) = NewV4 w
      in (R_JSON 500 (JObj [(''error'', JObj [(''message'', JStr (''Unexpected error (id: '' @ i @ '')''))])]), w1))"

text \<open>The switch is on the type of the error itself: a wrapped \<^verbatim>\<open>SFError\<close> is an internal error.\<close>

definition HTTPErrorHandler :: "err \<Rightarrow> bool \<Rightarrow> 'db world \<Rightarrow> response option \<times> 'db world" where
  "HTTPErrorHandler e committed w =
     (if committed then (None, w)
      else case e of
             HTTPError code message _ \<Rightarrow>
               (Some (R_JSON code (JObj [(''error'', JObj [(''message'', JStr message)])])), w)
           | SFError _ _ _ \<Rightarrow>
               (if sferror_StatusCode e < 500 then (Some (R_JSON (sferror_StatusCode e) (sferror_json e)), w)
                else (let (r, w1) = internal_error w in (Some r, w1)))
           | _ \<Rightarrow> (let (r, w1) = internal_error w in (Some r, w1)))"

subsection \<open>Authentication\<close>

text \<open>
  \<open>strings.ToLower\<close> on ASCII letters: no other character has a lower case among the letters of the
  word it is compared with.
\<close>

definition ascii_lower :: "string \<Rightarrow> string" where
  "ascii_lower s = map (\<lambda>c. if CHR ''A'' \<le> c \<and> c \<le> CHR ''Z'' then char_of (of_char c + 32 :: nat) else c) s"

definition bearer_token :: "string \<Rightarrow> string" where
  "bearer_token authorization =
     (let parts = split_on CHR '' '' authorization
      in if ascii_lower (hd parts) \<noteq> ''bearer'' then []
         else case tl parts of [] \<Rightarrow> [] | t # _ \<Rightarrow> t)"

definition has_prefix :: "string \<Rightarrow> string \<Rightarrow> bool" where
  "has_prefix p s = (take (length p) s = p)"

fun contains :: "string \<Rightarrow> string \<Rightarrow> bool" where
  "contains [] sub = (sub = [])"
| "contains (c # s) sub = (has_prefix sub (c # s) \<or> contains s sub)"

definition unauthorized :: response where
  "unauthorized =
     R_JSON 401 (JObj [(''error'', JObj [(''tag'', JStr ''invalid-auth''),
                                          (''message'', JStr ''Invalid login credentials.'')])])"

text \<open>
  \<open>paseto_mw\<close> is the PASETO package at an instant on the authorization header of the request: its error, and the
  token it has put into the context; \<open>jwt_mw\<close> is the JWT package: its error or the claims it has put there. An
  expired PASETO goes on to the session's own validation.
\<close>

type_synonym paseto_check = "time \<Rightarrow> string \<Rightarrow> err option \<times> paseto_claims option"
type_synonym jwt_check = "time \<Rightarrow> string \<Rightarrow> err + jwt_claims"

text \<open>No error, or only that the token has expired.\<close>

definition tolerated :: "err option \<Rightarrow> bool" where
  "tolerated e =
     (case e of None \<Rightarrow> True | Some x \<Rightarrow> contains (err_Error x) ''token has expired: token validation error'')"

definition paseto_auth ::
  "paseto_check \<Rightarrow> 'db storm \<Rightarrow> manager \<Rightarrow> 'db handler \<Rightarrow> string \<Rightarrow> 'db handler" where
  "paseto_auth paseto_mw S m handle authorization c w =
     (let (now, w0) = Now w
      in case paseto_mw now authorization of
        (e, tk) \<Rightarrow>
          if \<not> tolerated e then (Ok unauthorized, w0)
          else
            (case tk of
               None \<Rightarrow> (Panic ''interface conversion'', w0)
             | Some claims \<Rightarrow>
                 (case Validate S m (pc_Subject claims) (pc_Jti claims) w0 of
                    (Inl x, w1) \<Rightarrow> (Err x, w1)
                  | (Inr s, w1) \<Rightarrow>
                      (case UserFromToken S m (PasetoToken claims) w1 of
                         (Err x, w2) \<Rightarrow> (Err x, w2)
                       | (Panic x, w2) \<Rightarrow> (Panic x, w2)
                       | (Ok u, w2) \<Rightarrow> handle (c\<lparr>cx_Session := Some s, cx_User := Some u\<rparr>) w2))))"

definition jwt_auth ::
  "jwt_check \<Rightarrow> 'db storm \<Rightarrow> manager \<Rightarrow> 'db handler \<Rightarrow> string \<Rightarrow> 'db handler" where
  "jwt_auth jwt_mw S m handle authorization c w =
     (let (now, w0) = Now w
      in case jwt_mw now authorization of
        Inl _ \<Rightarrow> (Ok unauthorized, w0)
      | Inr claims \<Rightarrow>
          (case UserFromToken S m (JWTToken claims) w0 of
             (Err x, w1) \<Rightarrow> (Err x, w1)
           | (Panic x, w1) \<Rightarrow> (Panic x, w1)
           | (Ok u, w1) \<Rightarrow> handle (c\<lparr>cx_User := Some u\<rparr>) w1))"

definition Session_middleware ::
  "paseto_check \<Rightarrow> jwt_check \<Rightarrow> 'db storm \<Rightarrow> manager \<Rightarrow> 'db handler \<Rightarrow> string \<Rightarrow> 'db handler" where
  "Session_middleware paseto_mw jwt_mw S m handle authorization c w =
     (let token = bearer_token authorization
      in if token = [] then (Ok unauthorized, w)
         else if has_prefix ''v2.local.'' token then paseto_auth paseto_mw S m handle authorization c w
         else jwt_auth jwt_mw S m handle authorization c w)"

subsection \<open>What the middleware lets through\<close>

text \<open>
  The handler behind the middleware runs at most once, for the user its credential authenticates: the PASETO in
  the header, as the package reads it, names a stored session of this user by its ID and its access token, and
  neither the session nor the access token has expired; or the JWT in the header names the user and was not issued
  before the last change of the password. The instants are those of readings of the clock by the request.
\<close>

definition by_session ::
  "paseto_check \<Rightarrow> manager \<Rightarrow> 'db view \<Rightarrow> string \<Rightarrow> user \<Rightarrow> session \<Rightarrow> 'db world \<Rightarrow> bool" where
  "by_session paseto_mw m V authorization u s w \<longleftrightarrow>
     has_prefix ''v2.local.'' (bearer_token authorization)
     \<and> (\<exists>n e claims. w_ticks w \<le> n \<and> paseto_mw (w_clock w n) authorization = (e, Some claims) \<and> tolerated e
          \<and> ID s = pc_Subject claims \<and> se_AccessToken s = pc_Jti claims)
     \<and> s \<in> v_sessions V (w_db w) \<and> se_UserID s = ID u
     \<and> (\<exists>n. w_ticks w \<le> n \<and> w_clock w n \<le> se_ExpireAt s \<and> w_clock w (Suc n) \<le> AccessTokenExprireAt m s)"

definition by_jwt :: "jwt_check \<Rightarrow> string \<Rightarrow> user \<Rightarrow> 'db world \<Rightarrow> bool" where
  "by_jwt jwt_mw authorization u w \<longleftrightarrow>
     bearer_token authorization \<noteq> [] \<and> \<not> has_prefix ''v2.local.'' (bearer_token authorization)
     \<and> (\<exists>n claims iat. w_ticks w \<le> n \<and> jwt_mw (w_clock w n) authorization = Inr claims
          \<and> claims ''user_uuid'' = Some (CString (ID u)) \<and> claim_iat (claims ''iat'') = Some iat
          \<and> us_PasswordUpdatedAt u \<le> iat)"

definition authenticated ::
  "paseto_check \<Rightarrow> jwt_check \<Rightarrow> manager \<Rightarrow> 'db view \<Rightarrow> string \<Rightarrow> ctx \<Rightarrow> ctx \<Rightarrow> 'db world \<Rightarrow> bool" where
  "authenticated paseto_mw jwt_mw m V authorization c c' w \<longleftrightarrow>
     (\<exists>u \<in> v_users V (w_db w). cx_User c' = Some u
        \<and> ((\<exists>s. cx_Session c' = Some s \<and> by_session paseto_mw m V authorization u s w)
           \<or> cx_Session c' = cx_Session c \<and> by_jwt jwt_mw authorization u w))
     \<and> cx_UserAgent c' = cx_UserAgent c \<and> cx_Param_id c' = cx_Param_id c"

lemma manager_Paseto_frame: "manager_Paseto S m t w = (r, w') \<Longrightarrow> w_db w' = w_db w \<and> same_sources w w'"
  by (auto simp: manager_Paseto_def dest: Validate_frame split: prod.splits sum.splits)

text \<open>
  Either the handler does not run, whatever it is, and the storage is left alone, or the result is the
  handler's, for an authenticated context and the storage as it was.
\<close>

definition guards ::
  "(ctx \<Rightarrow> 'db world \<Rightarrow> bool) \<Rightarrow> ('db handler \<Rightarrow> 'db handler) \<Rightarrow> ctx \<Rightarrow> 'db world \<Rightarrow> bool" where
  "guards allowed mw c w \<longleftrightarrow>
     (\<exists>out w'. w_db w' = w_db w \<and> same_sources w w' \<and> (\<forall>handle. mw handle c w = (out, w')))
     \<or> (\<exists>c' w'. w_db w' = w_db w \<and> same_sources w w' \<and> allowed c' w
          \<and> (\<forall>handle. mw handle c w = handle c' w'))"

lemma guards_stop: "w_db w' = w_db w \<Longrightarrow> same_sources w w' \<Longrightarrow> (\<And>handle. mw handle c w = (out, w')) \<Longrightarrow> guards P mw c w"
  by (auto simp: guards_def)

lemma guards_pass:
  "w_db w' = w_db w \<Longrightarrow> same_sources w w' \<Longrightarrow> P c' w \<Longrightarrow>
     (\<And>handle. mw handle c w = handle c' w') \<Longrightarrow> guards P mw c w"
  by (auto simp: guards_def)

context store
begin

lemma session_user_authenticated:
  assumes now: "Now w = (t, w0)" and v: "Validate S m (pc_Subject claims) (pc_Jti claims) w0 = (Inr s, w1)"
    and u: "manager_Paseto S m claims w1 = (Ok x, w2)"
    and mw: "paseto_mw t authorization = (e, Some claims)" "tolerated e"
    and token: "has_prefix ''v2.local.'' (bearer_token authorization)"
  shows "authenticated paseto_mw jwt_mw m V authorization c (c\<lparr>cx_Session := Some s, cx_User := Some x\<rparr>) w"
proof -
  have w0: "t = w_clock w (w_ticks w)" "w0 = w\<lparr>w_ticks := Suc (w_ticks w)\<rparr>" using now by (auto simp: Now_def)
  have s: "s \<in> v_sessions V (w_db w)" "ID s = pc_Subject claims" "se_AccessToken s = pc_Jti claims"
    using validation.accepts [OF v] by (auto simp: live_session_def w0)
  have times: "w_clock w (Suc (w_ticks w)) \<le> se_ExpireAt s"
      "w_clock w (Suc (Suc (w_ticks w))) \<le> AccessTokenExprireAt m s"
    using Validate_Inr(4,5) [OF v] by (simp_all add: w0)
  obtain s' where s': "live_session V s' w1" "ID s' = pc_Subject claims" "x \<in> v_users V (w_db w1)"
      "ID x = se_UserID s'"
    using manager_Paseto_Ok [OF u] by blast
  have db: "w_db w1 = w_db w" using Validate_frame [OF v] by (simp add: w0)
  have "s' \<in> v_sessions V (w_db w)" using s'(1) db by (simp add: live_session_def)
  then have "s' = s" using s sessions.rows_id_eq s'(2) by simp
  moreover have "\<exists>n e claims. w_ticks w \<le> n \<and> paseto_mw (w_clock w n) authorization = (e, Some claims) \<and> tolerated e
      \<and> ID s = pc_Subject claims \<and> se_AccessToken s = pc_Jti claims"
    using mw s by (intro exI [of _ "w_ticks w"] exI [of _ e] exI [of _ claims]) (simp add: w0)
  moreover have "\<exists>n. w_ticks w \<le> n \<and> w_clock w n \<le> se_ExpireAt s \<and> w_clock w (Suc n) \<le> AccessTokenExprireAt m s"
    using times by (intro exI [of _ "Suc (w_ticks w)"]) simp
  ultimately show ?thesis using s' s(1) db token by (simp add: authenticated_def by_session_def)
qed

lemma paseto_auth_guards:
  assumes "has_prefix ''v2.local.'' (bearer_token authorization)"
  shows "guards (authenticated paseto_mw jwt_mw m V authorization c)
    (\<lambda>handle. paseto_auth paseto_mw S m handle authorization) c w"
proof -
  obtain t w0 where now: "Now w = (t, w0)" by force
  have w0: "w_db w0 = w_db w" "same_sources w w0" using now by (auto simp: Now_def same_sources_def)
  obtain e tk where mw: "paseto_mw t authorization = (e, tk)" by force
  show ?thesis
  proof (cases "tolerated e")
    case False
    then show ?thesis using w0 by (intro guards_stop [of w0]) (simp_all add: paseto_auth_def now mw)
  next
    case valid: True
    show ?thesis
    proof (cases tk)
      case None
      with valid show ?thesis
        using w0 by (intro guards_stop [of w0]) (simp_all add: paseto_auth_def now mw)
    next
      case (Some claims)
      obtain r w1 where v: "Validate S m (pc_Subject claims) (pc_Jti claims) w0 = (r, w1)" by force
      obtain r2 w2 where u: "manager_Paseto S m claims w1 = (r2, w2)" by force
      have q: "w_db w1 = w_db w" "same_sources w w1" "w_db w2 = w_db w" "same_sources w w2"
        using w0 Validate_frame [OF v] manager_Paseto_frame [OF u] by (auto intro: same_sources_trans)
      note def = paseto_auth_def now mw valid Some v u UserFromToken_def
      show ?thesis
      proof (cases r)
        case (Inl x)
        then show ?thesis using q by (intro guards_stop [of w1]) (simp_all add: def)
      next
        case (Inr s)
        show ?thesis
        proof (cases r2)
          case (Ok x)
          then show ?thesis
            using q Inr session_user_authenticated [where paseto_mw = paseto_mw,
                OF now v [unfolded Inr] u [unfolded Ok] mw [unfolded Some] valid assms]
            by (intro guards_pass [of w2]) (simp_all add: def)
        qed (use q Inr in \<open>intro guards_stop [of w2]; simp add: def\<close>)+
      qed
    qed
  qed
qed

lemma jwt_auth_guards:
  assumes "bearer_token authorization \<noteq> []" and "\<not> has_prefix ''v2.local.'' (bearer_token authorization)"
  shows "guards (authenticated paseto_mw jwt_mw m V authorization c)
    (\<lambda>handle. jwt_auth jwt_mw S m handle authorization) c w"
proof (cases "jwt_mw (w_clock w (w_ticks w)) authorization")
  case (Inl e)
  then show ?thesis
    by (intro guards_stop [of "w\<lparr>w_ticks := Suc (w_ticks w)\<rparr>"]) (auto simp: jwt_auth_def Now_def same_sources_def)
next
  case (Inr claims)
  show ?thesis
  proof (cases "manager_JWT S claims (w\<lparr>w_ticks := Suc (w_ticks w)\<rparr>)")
    case (Ok x)
    have "\<exists>n claims iat. w_ticks w \<le> n \<and> jwt_mw (w_clock w n) authorization = Inr claims
        \<and> claims ''user_uuid'' = Some (CString (ID x)) \<and> claim_iat (claims ''iat'') = Some iat
        \<and> us_PasswordUpdatedAt x \<le> iat"
      using manager_JWT_Ok [OF Ok] Inr
      by (intro exI [of _ "w_ticks w"] exI [of _ claims]) auto
    then have "authenticated paseto_mw jwt_mw m V authorization c (c\<lparr>cx_User := Some x\<rparr>) w"
      using manager_JWT_Ok [OF Ok] assms by (simp add: authenticated_def by_jwt_def)
    then show ?thesis using Inr Ok
      by (intro guards_pass [of "w\<lparr>w_ticks := Suc (w_ticks w)\<rparr>"])
        (auto simp: jwt_auth_def UserFromToken_def Now_def same_sources_def)
  qed (use Inr in \<open>intro guards_stop [of "w\<lparr>w_ticks := Suc (w_ticks w)\<rparr>"];
      auto simp: jwt_auth_def UserFromToken_def Now_def same_sources_def\<close>)+
qed

lemma Session_middleware_guards:
  "guards (authenticated paseto_mw jwt_mw m V authorization c)
     (\<lambda>handle. Session_middleware paseto_mw jwt_mw S m handle authorization) c w"
proof (cases "bearer_token authorization = []")
  case True
  then show ?thesis by (intro guards_stop [of w]) (simp_all add: Session_middleware_def)
next
  case False
  then show ?thesis
    using paseto_auth_guards [of authorization paseto_mw jwt_mw m c w] jwt_auth_guards [of authorization paseto_mw jwt_mw m c w]
    by (cases "has_prefix ''v2.local.'' (bearer_token authorization)")
      (simp_all add: Session_middleware_def Let_def guards_def)
qed

end

end
