(* ===== verification/Pkce.thy ===== *)
theory Pkce
  imports Database
begin

text \<open>
  \<^verbatim>\<open>internal/server/service/pkce.go\<close>: the proof-key-for-code-exchange challenges. A challenge is
  stored for one hour by the parameters request and consumed by the login request. The hash function
  is a parameter. The locale \<open>challenge_service\<close> is the contract of the service towards the login
  handlers: a challenge is accepted only while it is pending, and accepting it ends that. The
  single-use property is proved once from the contract; the store contract provides it.
\<close>

definition ComputeChallenge :: "(bytes \<Rightarrow> bytes) \<Rightarrow> string \<Rightarrow> string" where
  "ComputeChallenge sha256 codeVerifier =
     b64_encode url_alphabet False (hex_encode (sha256 codeVerifier))"

definition new_pkce :: "string \<Rightarrow> time \<Rightarrow> pkce" where
  "new_pkce codeChallenge expireAt =
     \<lparr>ID = [], CreatedAt = None, UpdatedAt = None, pk_CodeChallenge = codeChallenge, pk_ExpireAt = expireAt\<rparr>"

definition StoreChallenge :: "'db storm \<Rightarrow> string \<Rightarrow> 'db world \<Rightarrow> err option \<times> 'db world" where
  "StoreChallenge S codeChallenge w =
     (case RevokeExpiredChallenges S w of
        (Some e, w1) \<Rightarrow> (Some e, w1)
      | (None, w1) \<Rightarrow>
          (let (now, w2) = Now w1;
               (_, e, w3) = Save (st_pkces S) (new_pkce codeChallenge (now + hours 1)) w2
           in (e, w3)))"

definition CheckChallenge :: "'db storm \<Rightarrow> string \<Rightarrow> 'db world \<Rightarrow> err option \<times> 'db world" where
  "CheckChallenge S codeChallenge w =
     (case RevokeExpiredChallenges S w of
        (Some e, w1) \<Rightarrow> (Some e, w1)
      | (None, w1) \<Rightarrow>
          (case FindPKCE S codeChallenge w1 of
             Inl e \<Rightarrow> (Some e, w1)
           | Inr _ \<Rightarrow> RemovePKCE S codeChallenge w1))"

subsection \<open>The contract of the service\<close>

datatype challenge_event = Stored string | Accepted string | Refused string

text \<open>
  The histories of a server: any interleaving of stored challenges, checks and of other steps, which
  leave the pending challenges alone.
\<close>

inductive challenge_run ::
  "(string \<Rightarrow> 'w \<Rightarrow> err option \<times> 'w) \<Rightarrow> (string \<Rightarrow> 'w \<Rightarrow> err option \<times> 'w) \<Rightarrow> ('w \<Rightarrow> string set)
   \<Rightarrow> challenge_event list \<Rightarrow> 'w \<Rightarrow> bool"
  for store_ch check_ch pending where
  init: "pending w = {} \<Longrightarrow> challenge_run store_ch check_ch pending [] w"
| stored: "challenge_run store_ch check_ch pending evs w \<Longrightarrow> store_ch c w = (None, w')
    \<Longrightarrow> challenge_run store_ch check_ch pending (Stored c # evs) w'"
| not_stored: "challenge_run store_ch check_ch pending evs w \<Longrightarrow> store_ch c w = (Some e, w')
    \<Longrightarrow> challenge_run store_ch check_ch pending evs w'"
| accepted: "challenge_run store_ch check_ch pending evs w \<Longrightarrow> check_ch c w = (None, w')
    \<Longrightarrow> challenge_run store_ch check_ch pending (Accepted c # evs) w'"
| refused: "challenge_run store_ch check_ch pending evs w \<Longrightarrow> check_ch c w = (Some e, w')
    \<Longrightarrow> challenge_run store_ch check_ch pending (Refused c # evs) w'"
| other: "challenge_run store_ch check_ch pending evs w \<Longrightarrow> pending w' = pending w
    \<Longrightarrow> challenge_run store_ch check_ch pending evs w'"

inductive_cases challenge_run_accepted:
  "challenge_run store_ch check_ch pending (Accepted c # evs) w"

locale challenge_service =
  fixes store_ch check_ch :: "string \<Rightarrow> 'w \<Rightarrow> err option \<times> 'w" and pending :: "'w \<Rightarrow> string set"
  assumes store_pending: "store_ch c w = (None, w') \<Longrightarrow> pending w' \<subseteq> insert c (pending w)"
    and store_failed: "store_ch c w = (Some e, w') \<Longrightarrow> pending w' \<subseteq> pending w"
    and check_pending: "check_ch c w = (None, w') \<Longrightarrow> c \<in> pending w \<and> pending w' \<subseteq> pending w - {c}"
    and check_failed: "check_ch c w = (Some e, w') \<Longrightarrow> pending w' \<subseteq> pending w"
begin

text \<open>A pending challenge has been stored more often than accepted.\<close>

lemma pending_balance:
  "challenge_run store_ch check_ch pending evs w \<Longrightarrow>
     count_list evs (Accepted c) + (if c \<in> pending w then 1 else 0) \<le> count_list evs (Stored c)"
proof (induction evs w rule: challenge_run.induct)
  case (stored evs w d w')
  then show ?case using store_pending [OF stored(2)] by (auto split: if_splits)
next
  case (not_stored evs w d e w')
  then show ?case using store_failed [OF not_stored(2)] by (auto split: if_splits)
next
  case (accepted evs w d w')
  then show ?case using check_pending [OF accepted(2)] by (auto split: if_splits)
next
  case (refused evs w d e w')
  then show ?case using check_failed [OF refused(2)] by (auto split: if_splits)
qed auto

lemma accepted_at_most_stored:
  "challenge_run store_ch check_ch pending evs w \<Longrightarrow>
     count_list evs (Accepted c) \<le> count_list evs (Stored c)"
  using pending_balance [of evs w c] by simp

end

subsection \<open>The service keeps it\<close>

definition challenges :: "'db view \<Rightarrow> 'db world \<Rightarrow> string set" where
  "challenges V w = pk_CodeChallenge ` v_pkces V (w_db w)"

context store
begin

lemma CheckChallenge_accepts_rows:
  assumes "CheckChallenge S c w = (None, w')"
  shows "(\<exists>p \<in> v_pkces V (w_db w). pk_CodeChallenge p = c \<and> w_clock w (w_ticks w) < pk_ExpireAt p)
    \<and> v_pkces V (w_db w') =
        {p \<in> v_pkces V (w_db w). w_clock w (w_ticks w) < pk_ExpireAt p \<and> pk_CodeChallenge p \<noteq> c}"
proof -
  obtain w1 where rev: "RevokeExpiredChallenges S w = (None, w1)"
    using assms by (auto simp: CheckChallenge_def split: prod.splits option.splits)
  then obtain p where p: "FindPKCE S c w1 = Inr p" and rem: "RemovePKCE S c w1 = (None, w')"
    using assms by (auto simp: CheckChallenge_def split: sum.splits)
  show ?thesis
    using FindPKCE_Inr [OF p] RemovePKCE_None [OF rem] RevokeExpired_None [OF rev] by auto
qed

lemma CheckChallenge_subset:
  assumes "CheckChallenge S c w = (e, w')"
  shows "v_pkces V (w_db w') \<subseteq> v_pkces V (w_db w)"
proof -
  obtain x w1 where rev: "RevokeExpiredChallenges S w = (x, w1)" by force
  have sub: "v_pkces V (w_db w1) \<subseteq> v_pkces V (w_db w)"
    using rev RevokeExpired_None [of w w1] RevokeExpired_Some [of w _ w1] by (cases x) auto
  have "w' = w1 \<or> RemovePKCE S c w1 = (e, w')"
    using assms rev by (auto simp: CheckChallenge_def split: option.splits sum.splits)
  then show ?thesis using sub RemovePKCE_subset [of c w1 e w'] by blast
qed

lemma StoreChallenge_rows:
  assumes "StoreChallenge S c w = (None, w')"
  obtains p where "pk_CodeChallenge p = c"
    and "pk_ExpireAt p = w_clock w (Suc (w_ticks w)) + hours 1"
    and "v_pkces V (w_db w') = insert p
      {x \<in> v_pkces V (w_db w). w_clock w (w_ticks w) < pk_ExpireAt x \<and> ID x \<noteq> ID p}"
    and "w_ticks w' = w_ticks w + 3" and "same_sources w w'"
proof -
  obtain w1 where rev: "RevokeExpiredChallenges S w = (None, w1)"
    using assms by (auto simp: StoreChallenge_def split: prod.splits option.splits)
  have src: "same_sources w w1" and ticks: "w_ticks w1 = Suc (w_ticks w)"
    using RevokeExpired_sources [OF rev] by auto
  let ?t = "w_clock w1 (w_ticks w1)" and ?w2 = "snd (Now w1)"
  obtain p where save: "Save (st_pkces S) (new_pkce c (?t + hours 1)) ?w2 = (p, None, w')"
    using assms rev by (auto simp: StoreChallenge_def Now_def split: prod.splits)
  note r = Save_result [OF save]
  have t: "?t = w_clock w (Suc (w_ticks w))" using src ticks by (simp add: same_sources_def)
  show thesis
  proof (rule that)
    show "pk_CodeChallenge p = c" and "pk_ExpireAt p = w_clock w (Suc (w_ticks w)) + hours 1"
      using r(1) t by (simp_all add: new_pkce_def)
    show "v_pkces V (w_db w') = insert p
        {x \<in> v_pkces V (w_db w). w_clock w (w_ticks w) < pk_ExpireAt x \<and> ID x \<noteq> ID p}"
      using pkces.Save_rows [OF save] RevokeExpired_None [OF rev] by auto
    show "w_ticks w' = w_ticks w + 3" using r(2) ticks by simp
    show "same_sources w w'"
      using src r(3) same_sources_Now [of w1] by (blast intro: same_sources_trans)
  qed
qed

lemma StoreChallenge_failed:
  assumes "StoreChallenge S c w = (Some e, w')"
  shows "v_pkces V (w_db w') \<subseteq> v_pkces V (w_db w)"
proof -
  obtain x w1 where rev: "RevokeExpiredChallenges S w = (x, w1)" by force
  have sub: "v_pkces V (w_db w1) \<subseteq> v_pkces V (w_db w)"
    using rev RevokeExpired_None [of w w1] RevokeExpired_Some [of w _ w1] by (cases x) auto
  show ?thesis
  proof (cases x)
    case (Some y)
    then show ?thesis using assms rev sub by (simp add: StoreChallenge_def)
  next
    case None
    let ?m = "new_pkce c (w_clock w1 (w_ticks w1) + hours 1)" and ?w2 = "snd (Now w1)"
    obtain p where "Save (st_pkces S) ?m ?w2 = (p, Some e, w')"
      using assms rev None by (auto simp: StoreChallenge_def Now_def split: prod.splits)
    then show ?thesis using pkces.Save_rows_failed sub by fastforce
  qed
qed

end

sublocale store \<subseteq> challenge: challenge_service "StoreChallenge S" "CheckChallenge S" "challenges V"
proof (unfold_locales, goal_cases)
  case (1 c w w')
  then obtain p where "pk_CodeChallenge p = c"
    and "v_pkces V (w_db w') = insert p
      {x \<in> v_pkces V (w_db w). w_clock w (w_ticks w) < pk_ExpireAt x \<and> ID x \<noteq> ID p}"
    by (rule StoreChallenge_rows)
  then show ?case by (auto simp: challenges_def)
next
  case (2 c w e w')
  then show ?case unfolding challenges_def by (intro image_mono StoreChallenge_failed)
next
  case (3 c w w')
  then show ?case using CheckChallenge_accepts_rows [OF 3] by (auto simp: challenges_def)
next
  case (4 c w e w')
  then show ?case unfolding challenges_def by (intro image_mono CheckChallenge_subset)
qed

context store
begin

lemma challenge_history:
  "challenge_run (StoreChallenge S) (CheckChallenge S) (challenges V) evs w \<Longrightarrow>
     count_list evs (Accepted c) \<le> count_list evs (Stored c)"
  by (rule challenge.accepted_at_most_stored)

text \<open>Only a storage failure can refuse a challenge that has just been stored.\<close>

lemma stored_challenge_found:
  assumes "StoreChallenge S c w = (None, w1)"
    and "w_clock w1 (w_ticks w1) < w_clock w (Suc (w_ticks w)) + hours 1"
    and "CheckChallenge S c w1 = (Some e, w2)"
  shows "\<not> IsNotFound (Some e)"
proof
  assume nf: "IsNotFound (Some e)"
  obtain p where p: "pk_CodeChallenge p = c" "p \<in> v_pkces V (w_db w1)"
      "w_clock w1 (w_ticks w1) < pk_ExpireAt p"
    using assms(2) by (rule_tac StoreChallenge_rows [OF assms(1)]) auto
  obtain x w3 where rev: "RevokeExpiredChallenges S w1 = (x, w3)" by force
  show False
  proof (cases x)
    case (Some y)
    then show False using assms(3) rev nf
      by (auto simp: CheckChallenge_def RevokeExpiredChallenges_def Now_def IsNotFound_def
          split: sum.splits if_splits)
  next
    case None
    then have in3: "p \<in> v_pkces V (w_db w3)" using RevokeExpired_None [of w1 w3] rev p by auto
    show False
    proof (cases "FindPKCE S c w3")
      case (Inl e')
      then have "e' = e" using assms(3) rev None by (simp add: CheckChallenge_def)
      then show False using FindPKCE_missing [OF Inl _ in3] nf p(1) by simp
    next
      case (Inr q)
      then have "RemovePKCE S c w3 = (Some e, w2)" using assms(3) rev None by (simp add: CheckChallenge_def)
      then obtain e0 where e0: "b_delete (st_pkces S) [q_Eq ''CodeChallenge'' (VStr c)] (w_db w3) = Inl e0"
        and "Cause e0 = ErrNotFound"
        using nf by (auto simp: RemovePKCE_def IsNotFound_def split: sum.splits)
      then have "\<not> matches_all (v_re V) (pkce_field p) [q_Eq ''CodeChallenge'' (VStr c)]"
        using pkces.delete_missing [OF _ _ in3] by blast
      then show False using p(1) by (simp add: field_defs)
    qed
  qed
qed

end

subsection \<open>Properties\<close>

text \<open>
  A challenge is accepted only if it is stored and not expired at the instant of the check; an
  accepted challenge is consumed, every expired one is deleted with it, and every other challenge
  stays.
\<close>

theorem CheckChallenge_accepts:
  assumes "store S V" and "CheckChallenge S c w = (None, w')"
  shows "(\<exists>p \<in> v_pkces V (w_db w). pk_CodeChallenge p = c \<and> w_clock w (w_ticks w) < pk_ExpireAt p)
    \<and> v_pkces V (w_db w') =
        {p \<in> v_pkces V (w_db w). w_clock w (w_ticks w) < pk_ExpireAt p \<and> pk_CodeChallenge p \<noteq> c}"
  using store.CheckChallenge_accepts_rows [OF assms] .

definition pkce_example :: "memdb world" where
  "pkce_example = memory_world 1000
     (empty_db\<lparr>md_pkces := [(new_pkce ''c'' 5000)\<lparr>ID := ''1''\<rparr>, (new_pkce ''d'' 10)\<lparr>ID := ''2''\<rparr>]\<rparr>)"

theorem CheckChallenge_accepts_witness:
  "fst (CheckChallenge mem_storm ''c'' pkce_example) = None
   \<and> v_pkces mem_view (w_db (snd (CheckChallenge mem_storm ''c'' pkce_example))) = {}"
proof -
  have ok: "fst (CheckChallenge mem_storm ''c'' pkce_example) = None" by code_simp
  have "{p \<in> v_pkces mem_view (w_db pkce_example). w_clock pkce_example (w_ticks pkce_example) < pk_ExpireAt p
      \<and> pk_CodeChallenge p \<noteq> ''c''} = {}"
    by (auto simp: mem_view_def pkce_example_def memory_world_def new_pkce_def)
  with ok CheckChallenge_accepts [OF mem_store pair_fst_eq [OF ok]] show ?thesis by simp
qed

text \<open>
  In every history of a server that starts without challenges, however its steps interleave, a
  challenge has been accepted at most as often as it was stored: no login can replay a challenge.
\<close>

theorem challenge_single_use:
  assumes "store S V"
    and "challenge_run (StoreChallenge S) (CheckChallenge S) (challenges V) evs w"
  shows "count_list evs (Accepted c) \<le> count_list evs (Stored c)"
  using store.challenge_history [OF assms] .

definition pkce_start :: "memdb world" where
  "pkce_start = memory_world 1000 empty_db"

definition pkce_stored :: "memdb world" where
  "pkce_stored = snd (StoreChallenge mem_storm ''c'' pkce_start)"

theorem challenge_single_use_witness:
  "count_list [Accepted ''c'', Stored ''c''] (Accepted ''c'')
     \<le> count_list [Accepted ''c'', Stored ''c''] (Stored ''c'')"
proof -
  have "challenges mem_view pkce_start = {}"
    by (simp add: challenges_def mem_view_def pkce_start_def memory_world_def empty_db_def)
  then have "challenge_run (StoreChallenge mem_storm) (CheckChallenge mem_storm) (challenges mem_view) [] pkce_start"
    by (rule challenge_run.init)
  moreover have st: "fst (StoreChallenge mem_storm ''c'' pkce_start) = None" by code_simp
  ultimately have "challenge_run (StoreChallenge mem_storm) (CheckChallenge mem_storm) (challenges mem_view)
      [Stored ''c''] pkce_stored"
    unfolding pkce_stored_def by (rule challenge_run.stored [OF _ pair_fst_eq])
  moreover have ch: "fst (CheckChallenge mem_storm ''c'' pkce_stored) = None" by code_simp
  ultimately have "challenge_run (StoreChallenge mem_storm) (CheckChallenge mem_storm) (challenges mem_view)
      [Accepted ''c'', Stored ''c''] (snd (CheckChallenge mem_storm ''c'' pkce_stored))"
    by (rule challenge_run.accepted [OF _ pair_fst_eq])
  then show ?thesis by (rule challenge_single_use [OF mem_store])
qed

text \<open>
  A challenge that was stored is found by a check within the hour: the check can then fail only
  because the storage does, never because the challenge is unknown.
\<close>

theorem stored_challenge_is_known:
  assumes "store S V" and "StoreChallenge S c w = (None, w1)"
    and "w_clock w1 (w_ticks w1) < w_clock w (Suc (w_ticks w)) + hours 1"
  shows "\<not> IsNotFound (fst (CheckChallenge S c w1))"
proof (cases "fst (CheckChallenge S c w1)")
  case (Some e)
  then show ?thesis
    using store.stored_challenge_found [OF assms(1-3) pair_fst_eq [OF Some]] by simp
qed (simp add: IsNotFound_def)

theorem stored_challenge_is_known_witness:
  "\<not> IsNotFound (fst (CheckChallenge mem_storm ''c'' pkce_stored))"
proof -
  have "fst (StoreChallenge mem_storm ''c'' pkce_start) = None" by code_simp
  then have "StoreChallenge mem_storm ''c'' pkce_start = (None, pkce_stored)"
    unfolding pkce_stored_def by (rule pair_fst_eq)
  moreover have "w_clock pkce_stored (w_ticks pkce_stored)
      < w_clock pkce_start (Suc (w_ticks pkce_start)) + hours 1" by code_simp
  ultimately show ?thesis by (rule stored_challenge_is_known [OF mem_store])
qed

end
