(* ===== verification/Handlers.thy ===== *)
theory Handlers
  imports Middlewares Pkce
begin

text \<open>
  \<^verbatim>\<open>internal/server/auth_handler.go\<close>, \<^verbatim>\<open>session_handler.go\<close> and \<^verbatim>\<open>item_handler.go\<close>. A handler takes what
  binding the request gave (\<open>bound\<close>), the context the middleware left and the world; a nil user or
  session it dereferences is a panic.
\<close>

subsection \<open>Responses\<close>

definition fail :: "int \<Rightarrow> string \<Rightarrow> 'db world \<Rightarrow> (err, response) outcome \<times> 'db world" where
  "fail code message w = (Ok (R_JSON code (sferror_json (sferror_New message))), w)"

definition fail_tagged :: "int \<Rightarrow> string \<Rightarrow> string \<Rightarrow> 'db world \<Rightarrow> (err, response) outcome \<times> 'db world" where
  "fail_tagged code tag message w = (Ok (R_JSON code (sferror_json (NewWithTagCode code tag message))), w)"

definition render :: "(err, json) outcome \<times> 'db world \<Rightarrow> (err, response) outcome \<times> 'db world" where
  "render r = (map_outcome_value (R_JSON 200) (fst r), snd r)"

definition in_context :: "ctx \<Rightarrow> 'p params_scheme \<Rightarrow> 'p params_scheme" where
  "in_context c p = p\<lparr>pa_UserAgent := cx_UserAgent c, pa_Session := cx_Session c\<rparr>"

subsection \<open>Registration, parameters and login\<close>

definition auth_Register ::
  "'db storm \<Rightarrow> 'c crypto_scheme \<Rightarrow> manager \<Rightarrow> err + register_params \<Rightarrow> 'db handler" where
  "auth_Register S cr m bound c w =
     (case bound of
        Inl _ \<Rightarrow> fail 401 ''Could not get user's params.'' w
      | Inr p0 \<Rightarrow>
          (let p = in_context c p0
           in if rg_Email p = [] then fail 401 ''No email provided.'' w
              else if rg_RegistrationPassword p = [] then fail 401 ''No password provided.'' w
              else if rg_PasswordNonce p = [] then fail 401 ''No nonce provided.'' w
              else if VersionLesser APIVersion20200115 (pa_APIVersion p) \<and> rg_PasswordCost p \<le> 0
              then fail 401 ''No password cost provided.'' w
              else render (user_Register S cr m (pa_APIVersion p) p w)))"

text \<open>The digest is an array of bytes, which JSON renders as a list of numbers.\<close>

definition auth_params ::
  "'db storm \<Rightarrow> (bytes \<Rightarrow> bytes) \<Rightarrow> string \<Rightarrow> string \<Rightarrow> 'db world \<Rightarrow> (err, response) outcome \<times> 'db world" where
  "auth_params S sha256 hostname email w =
     (case FindUserByMail S email w of
        Inl _ \<Rightarrow>
          (Ok (R_JSON 200 (JObj
             [(''identifier'', JStr email),
              (''nonce'', JList (map (\<lambda>b. JInt (int (of_char b))) (sha256 (email @ hostname)))),
              (''version'', JStr ProtocolVersion4)])), w)
      | Inr u \<Rightarrow>
          (Ok (R_JSON 200 (JObj
             ([(''identifier'', JStr (us_Email u)), (''version'', JStr (us_Version u))]
              @ (if us_Version u = ProtocolVersion2
                 then [(''pw_cost'', JInt (us_PasswordCost u)), (''pw_salt'', JStr (us_PasswordSalt u))]
                 else if us_Version u = ProtocolVersion3
                 then [(''pw_cost'', JInt (us_PasswordCost u)), (''pw_nonce'', JStr (us_PasswordNonce u))]
                 else if us_Version u = ProtocolVersion4 then [(''pw_nonce'', JStr (us_PasswordNonce u))]
                 else [])))), w))"

definition auth_Params :: "'db storm \<Rightarrow> (bytes \<Rightarrow> bytes) \<Rightarrow> string \<Rightarrow> 'db handler" where
  "auth_Params S sha256 hostname c w =
     (if cx_QueryParam_email c = [] then fail 401 ''No email provided.'' w
      else auth_params S sha256 hostname (cx_QueryParam_email c) w)"

definition auth_ParamsPKCE ::
  "'db storm \<Rightarrow> (bytes \<Rightarrow> bytes) \<Rightarrow> string \<Rightarrow> err + login_params \<Rightarrow> 'db handler" where
  "auth_ParamsPKCE S sha256 hostname bound c w =
     (case bound of
        Inl _ \<Rightarrow> fail 400 ''Could not get credentials.'' w
      | Inr p0 \<Rightarrow>
          (let p = in_context c p0
           in if lg_Email p = [] then fail 400 ''Please provide an email address.'' w
              else if lg_CodeChallenge p = [] then fail 400 ''Please provide the code challenge parameter'' w
              else (case StoreChallenge S (lg_CodeChallenge p) w of
                      (Some _, w1) \<Rightarrow> fail 400 ''Could not store code challenge.'' w1
                    | (None, w1) \<Rightarrow> auth_params S sha256 hostname (lg_Email p) w1)))"

definition auth_login ::
  "'db storm \<Rightarrow> 'c crypto_scheme \<Rightarrow> manager \<Rightarrow> login_params \<Rightarrow> 'db world
   \<Rightarrow> (err, response) outcome \<times> 'db world" where
  "auth_login S cr m p w = render (user_Login S cr m (pa_APIVersion p) p w)"

definition auth_Login ::
  "'db storm \<Rightarrow> 'c crypto_scheme \<Rightarrow> manager \<Rightarrow> err + login_params \<Rightarrow> 'db handler" where
  "auth_Login S cr m bound c w =
     (case bound of
        Inl _ \<Rightarrow> fail 400 ''Could not get credentials.'' w
      | Inr p0 \<Rightarrow>
          (let p = in_context c p0
           in if lg_Email p = [] \<or> lg_Password p = [] then fail 400 ''No email or password provided.'' w
              else auth_login S cr m p w))"

definition auth_LoginPKCE ::
  "'db storm \<Rightarrow> 'c crypto_scheme \<Rightarrow> manager \<Rightarrow> err + login_params \<Rightarrow> 'db handler" where
  "auth_LoginPKCE S cr m bound c w =
     (case bound of
        Inl _ \<Rightarrow> fail 400 ''Could not get credentials.'' w
      | Inr p0 \<Rightarrow>
          (let p = in_context c p0
           in if lg_Email p = [] \<or> lg_Password p = [] \<or> lg_CodeVerifier p = []
              then fail 401 ''Invalid login credentials.'' w
              else (case CheckChallenge S (ComputeChallenge (cr_SHA256 cr) (lg_CodeVerifier p)) w of
                      (Some _, w1) \<Rightarrow> fail 400 ''Could not get credentials.'' w1
                    | (None, w1) \<Rightarrow> auth_login S cr m p w1)))"

subsection \<open>Logout and updates\<close>

definition auth_Logout :: "'db storm \<Rightarrow> 'db handler" where
  "auth_Logout S c w =
     (case cx_Session c of
        None \<Rightarrow> (Ok (R_NoContent 204), w)
      | Some s \<Rightarrow>
          (case Delete (st_sessions S) s w of
             (Some e, w1) \<Rightarrow> (if IsNotFound (Some e) then Err e else Ok (R_NoContent 204), w1)
           | (None, w1) \<Rightarrow> (Ok (R_NoContent 204), w1)))"

definition auth_Update ::
  "'db storm \<Rightarrow> 'c crypto_scheme \<Rightarrow> manager \<Rightarrow> err + update_user_params \<Rightarrow> 'db handler" where
  "auth_Update S cr m bound c w =
     (case bound of
        Inl _ \<Rightarrow> fail 401 ''Could not get parameters.'' w
      | Inr p0 \<Rightarrow>
          (let p = in_context c p0
           in case cx_User c of
                None \<Rightarrow> (Panic ''nil pointer dereference'', w)
              | Some u \<Rightarrow> render (user_Update S cr m (pa_APIVersion p) u p w)))"

definition auth_UpdatePassword ::
  "'db storm \<Rightarrow> 'c crypto_scheme \<Rightarrow> manager \<Rightarrow> err + update_password_params \<Rightarrow> 'db handler" where
  "auth_UpdatePassword S cr m bound c w =
     (case bound of
        Inl _ \<Rightarrow> fail 401 ''Could not get parameters.'' w
      | Inr p0 \<Rightarrow>
          (let p = in_context c p0
           in if pw_CurrentPassword p = []
              then fail 401 ''Your current password is required to change your password. Please update your application if you do not see this option.'' w
              else if pw_NewPassword p = []
              then fail 401 ''Your new password is required to change your password. Please update your application if you do not see this option.'' w
              else (case cx_User c of
                      None \<Rightarrow> (Panic ''nil pointer dereference'', w)
                    | Some u \<Rightarrow>
                        if cx_Param_id c \<noteq> [] \<and> cx_Param_id c \<noteq> ID u
                        then fail 401 ''The given ID is not the user's one.'' w
                        else (case user_Password S cr m (pa_APIVersion p) u p w of
                                (Ok j, w1) \<Rightarrow> (Ok (R_JSON 200 j), w1)
                              | (Panic x, w1) \<Rightarrow> (Panic x, w1)
                              | (Err e, w1) \<Rightarrow>
                                  if IsAlreadyExists (Some e)
                                  then fail 401 ''The email you entered is already taken. Please try again.'' w1
                                  else (Err e, w1)))))"

subsection \<open>Sessions\<close>

record refresh_params =
  rf_AccessToken :: string
  rf_RefreshToken :: string

fun mark_current :: "string \<Rightarrow> session list \<Rightarrow> session list" where
  "mark_current i [] = []"
| "mark_current i (s # ss) = (if ID s = i then s\<lparr>se_Current := True\<rparr> # ss else s # mark_current i ss)"

definition sess_List :: "'db storm \<Rightarrow> 'db handler" where
  "sess_List S c w =
     (case cx_User c of
        None \<Rightarrow> (Panic ''nil pointer dereference'', w)
      | Some u \<Rightarrow>
          (case FindActiveSessionsByUserID S (ID u) w of
             (Inl e, w1) \<Rightarrow>
               if \<not> IsNotFound (Some e) then (Err (Wrap ''could not get active sessions'' e), w1)
               else (Ok (R_JSON 200 (JList [])), w1)
           | (Inr ss, w1) \<Rightarrow>
               (case (ss, cx_Session c) of
                  ([], _) \<Rightarrow> (map_outcome_value (R_JSON 200) (serializer_Sessions []), w1)
                | (_, None) \<Rightarrow> (Panic ''nil pointer dereference'', w1)
                | (_, Some s) \<Rightarrow> (map_outcome_value (R_JSON 200) (serializer_Sessions (mark_current (ID s) ss)), w1))))"

definition sess_Refresh :: "'db storm \<Rightarrow> 'c paseto_scheme \<Rightarrow> manager \<Rightarrow> err + refresh_params \<Rightarrow> 'db handler" where
  "sess_Refresh S pt m bound c w =
     (case bound of
        Inl _ \<Rightarrow> fail_tagged 400 ''invalid-parameters'' ''Invalid request body.'' w
      | Inr p \<Rightarrow>
          if rf_AccessToken p = [] \<or> rf_RefreshToken p = []
          then fail_tagged 400 ''invalid-parameters'' ''Please provide all required parameters.'' w
          else
            (case (ParseToken (paseto.truncate pt) m (rf_AccessToken p), ParseToken (paseto.truncate pt) m (rf_RefreshToken p)) of
               (Inr (sida, access), Inr (sidr, refresh)) \<Rightarrow>
                 if sida \<noteq> sidr
                 then fail_tagged 400 ''invalid-parameters'' ''The provided parameters are not valid.'' w
                 else
                   (case FindSessionByTokens S sida access refresh w of
                      Inl e \<Rightarrow>
                        if IsNotFound (Some e)
                        then fail_tagged 400 ''invalid-parameters'' ''The provided parameters are not valid.'' w
                        else (Err (Wrap ''could not get refresh session'' e), w)
                    | Inr s \<Rightarrow>
                        (case Regenerate S m s w of
                           (_, Some e, w1) \<Rightarrow>
                             fail_tagged 400 ''expired-refresh-token'' ''The refresh token has expired.'' w1
                         | (s1, None, w1) \<Rightarrow>
                             (case session_tokens pt m s1 w1 of
                                (Inl e, w2) \<Rightarrow> (Err e, w2)
                              | (Inr tokens, w2) \<Rightarrow> (Ok (R_JSON 200 (JObj [(''session'', tokens)])), w2))))
             | _ \<Rightarrow> fail_tagged 400 ''invalid-parameters'' ''The provided parameters are not valid.'' w))"

text \<open>\<open>bound\<close> is the session ID of the body, read only when the path has none.\<close>

definition sess_Delete :: "'db storm \<Rightarrow> err + string \<Rightarrow> 'db handler" where
  "sess_Delete S bound c w =
     (let given = (if cx_Param_id c = [] then bound else Inr (cx_Param_id c))
      in case given of
           Inl _ \<Rightarrow> fail 400 ''Could not get session UUID.'' w
         | Inr i \<Rightarrow>
             if i = [] then fail 400 ''Please provide the session identifier.'' w
             else
               (case cx_Session c of
                  None \<Rightarrow> (Panic ''nil pointer dereference'', w)
                | Some current \<Rightarrow>
                    if i = ID current then fail 400 ''You can not delete your current session.'' w
                    else
                      (case cx_User c of
                         None \<Rightarrow> (Panic ''nil pointer dereference'', w)
                       | Some u \<Rightarrow>
                           (case FindSessionByUserID S i (ID u) w of
                              Inl e \<Rightarrow>
                                if IsNotFound (Some e)
                                then fail 400 ''No session exists with the provided identifier.'' w
                                else (Err (Wrap ''could not get user session'' e), w)
                            | Inr s \<Rightarrow>
                                (case Delete (st_sessions S) s w of
                                   (Some e, w1) \<Rightarrow> (Err e, w1)
                                 | (None, w1) \<Rightarrow> (Ok (R_NoContent 204), w1))))))"

text \<open>The loop over the sessions; a nil current session is dereferenced at the first of them.\<close>

fun delete_others :: "'db storm \<Rightarrow> session option \<Rightarrow> session list \<Rightarrow> 'db world \<Rightarrow> (err, response) outcome \<times> 'db world" where
  "delete_others S current [] w = (Ok (R_NoContent 204), w)"
| "delete_others S current (s # ss) w =
     (case current of
        None \<Rightarrow> (Panic ''nil pointer dereference'', w)
      | Some cur \<Rightarrow>
          if ID s = ID cur then delete_others S current ss w
          else (case Delete (st_sessions S) s w of
                  (Some e, w1) \<Rightarrow> (Err e, w1)
                | (None, w1) \<Rightarrow> delete_others S current ss w1))"

definition sess_DeleteAll :: "'db storm \<Rightarrow> 'db handler" where
  "sess_DeleteAll S c w =
     (case cx_User c of
        None \<Rightarrow> (Panic ''nil pointer dereference'', w)
      | Some u \<Rightarrow>
          (case FindSessionsByUserID S (ID u) w of
             Inl e \<Rightarrow> if \<not> IsNotFound (Some e) then (Err e, w) else (Ok (R_NoContent 204), w)
           | Inr ss \<Rightarrow> delete_others S (cx_Session c) ss w))"

subsection \<open>Items\<close>

definition item_Sync ::
  "(bytes \<Rightarrow> bytes) \<Rightarrow> (string list \<Rightarrow> string list) \<Rightarrow> 'db storm \<Rightarrow> err + sync_params \<Rightarrow> 'db handler" where
  "item_Sync sha256 order S bound c w =
     (case bound of
        Inl _ \<Rightarrow> fail 400 ''Could not get syncing params.'' w
      | Inr p0 \<Rightarrow>
          (case cx_User c of
             None \<Rightarrow> (Panic ''nil pointer dereference'', w)
           | Some u \<Rightarrow>
               (case Sync_Execute sha256 order S u (in_context c p0) w of
                  (Ok r, w1) \<Rightarrow> (Ok (R_Sync 200 r), w1)
                | (Err e, w1) \<Rightarrow> (Err e, w1)
                | (Panic x, w1) \<Rightarrow> (Panic x, w1))))"

definition item_Backup :: "'db handler" where "item_Backup c w = (Ok (R_NoContent 200), w)"
definition item_Delete :: "'db handler" where "item_Delete c w = (Ok (R_NoContent 204), w)"

subsection \<open>Elimination rules\<close>

lemma fail_simps [simp]:
  "fail code msg w = (Ok r, w') \<longleftrightarrow> r = R_JSON code (sferror_json (sferror_New msg)) \<and> w' = w"
  "fail code msg w = (Err e, w') \<longleftrightarrow> False" "fail code msg w = (Panic x, w') \<longleftrightarrow> False"
  "fail_tagged code tag msg w = (Ok r, w') \<longleftrightarrow> r = R_JSON code (sferror_json (NewWithTagCode code tag msg)) \<and> w' = w"
  "fail_tagged code tag msg w = (Err e, w') \<longleftrightarrow> False" "fail_tagged code tag msg w = (Panic x, w') \<longleftrightarrow> False"
  "snd (fail code msg w) = w" "snd (fail_tagged code tag msg w) = w"
  by (auto simp: fail_def fail_tagged_def)

lemma render_Ok: "render r = (Ok x, w') \<longleftrightarrow> (\<exists>j. r = (Ok j, w') \<and> x = R_JSON 200 j)"
  by (cases r) (auto simp: render_def)

lemma render_world [simp]: "snd (render r) = snd r"
  by (simp add: render_def)

lemma auth_LoginPKCE_200:
  assumes "auth_LoginPKCE S cr m bound c w = (Ok (R_JSON 200 j), w')"
  obtains p0 p w1 where "bound = Inr p0" "p = in_context c p0"
    and "CheckChallenge S (ComputeChallenge (cr_SHA256 cr) (lg_CodeVerifier p)) w = (None, w1)"
    and "user_Login S cr m (pa_APIVersion p) p w1 = (Ok j, w')"
  using assms
  by (auto simp: auth_LoginPKCE_def auth_login_def Let_def render_Ok split: sum.splits if_splits option.splits prod.splits)

lemma sess_Delete_204:
  assumes run: "sess_Delete S bound c w = (Ok (R_NoContent 204), w')"
  obtains i current u s where "cx_Session c = Some current" "cx_User c = Some u" "i \<noteq> ID current"
    and "(if cx_Param_id c = [] then bound else Inr (cx_Param_id c)) = Inr i"
    and "FindSessionByUserID S i (ID u) w = Inr s" "Delete (st_sessions S) s w = (None, w')"
proof -
  define given where "given = (if cx_Param_id c = [] then bound else Inr (cx_Param_id c))"
  note run = run [unfolded sess_Delete_def Let_def, folded given_def]
  obtain i where i: "given = Inr i" "i \<noteq> []" using run by (cases given) (auto split: if_splits)
  obtain current where cur: "cx_Session c = Some current" "i \<noteq> ID current"
    using run i by (auto split: option.splits if_splits)
  obtain u where u: "cx_User c = Some u" using run i cur by (auto split: option.splits)
  obtain s where s: "FindSessionByUserID S i (ID u) w = Inr s"
    using run i cur u by (auto split: sum.splits if_splits)
  obtain e w1 where d: "Delete (st_sessions S) s w = (e, w1)" by force
  have "e = None \<and> w1 = w'" using run i cur u s d by (auto split: option.splits)
  then show thesis using that [OF cur(1) u cur(2) _ s] i d given_def by simp
qed

lemma sess_Refresh_200:
  assumes "sess_Refresh S pt m bound c w = (Ok (R_JSON 200 j), w')"
  obtains p sid access refresh s s1 w1 where "bound = Inr p"
    and "ParseToken (paseto.truncate pt) m (rf_AccessToken p) = Inr (sid, access)"
    and "ParseToken (paseto.truncate pt) m (rf_RefreshToken p) = Inr (sid, refresh)"
    and "FindSessionByTokens S sid access refresh w = Inr s"
    and "Regenerate S m s w = (s1, None, w1)" "w_db w' = w_db w1"
proof -
  obtain p where p: "bound = Inr p" using assms by (cases bound) (auto simp: sess_Refresh_def)
  obtain sid access sidr refresh where t: "ParseToken (paseto.truncate pt) m (rf_AccessToken p) = Inr (sid, access)"
      "ParseToken (paseto.truncate pt) m (rf_RefreshToken p) = Inr (sidr, refresh)" "sid = sidr"
    using assms p by (auto simp: sess_Refresh_def split: sum.splits if_splits)
  obtain s where s: "FindSessionByTokens S sid access refresh w = Inr s"
    using assms p t by (auto simp: sess_Refresh_def split: sum.splits if_splits)
  obtain s1 e w1 where r: "Regenerate S m s w = (s1, e, w1)" by (metis prod_cases3)
  have "e = None" using assms p t s r by (auto simp: sess_Refresh_def split: if_splits option.splits)
  moreover obtain k w2 where k: "session_tokens pt m s1 w1 = (k, w2)" by force
  ultimately have "w2 = w'" using assms p t s r by (auto simp: sess_Refresh_def split: if_splits sum.splits)
  then show thesis using that [OF p t(1) t(2) [folded t(3)] s] r \<open>e = None\<close> session_tokens_frame [OF k] by simp
qed

lemma delete_others_rows:
  assumes "bucket (st_sessions S) rows re fld conflict persist"
    and "delete_others S (Some cur) ss w = (Ok (R_NoContent 204), w')"
  shows "rows (w_db w') = {x \<in> rows (w_db w). ID x = ID cur \<or> ID x \<notin> ID ` set ss}"
  using assms(2)
proof (induction ss arbitrary: w)
  case (Cons s ss)
  show ?case
  proof (cases "ID s = ID cur")
    case True
    then show ?thesis using Cons.IH [of w] Cons.prems by auto
  next
    case False
    then obtain w1 where d: "Delete (st_sessions S) s w = (None, w1)"
      and rest: "delete_others S (Some cur) ss w1 = (Ok (R_NoContent 204), w')"
      using Cons.prems by (auto split: option.splits prod.splits)
    have step: "rows (w_db w1) = {x \<in> rows (w_db w). ID x \<noteq> ID s}"
      by (rule bucket.Delete_rows [OF assms(1) d])
    show ?thesis unfolding Cons.IH [OF rest] step using False by auto
  qed
qed simp

end
