(* ===== verification/Server.thy ===== *)
theory Server
  imports Handlers
begin

text \<open>
  \<^verbatim>\<open>internal/server/server.go\<close> and \<^verbatim>\<open>subscription_handler.go\<close>: the routes, which of them are behind the
  session middleware, and what serving a request does. The routing of a path to one of the routes, the
  decoding of bodies, the JSON library of the subscription payload and the recovery of panics belong to
  the web framework and other packages; they are the fields of \<open>server\<close>.
\<close>

subsection \<open>Requests and the server\<close>

text \<open>\<open>rq_id\<close> is the path parameter, empty on a route that has none.\<close>

record request =
  rq_Method :: string
  rq_Authorization :: string
  rq_UserAgent :: string
  rq_ContentLength :: int
  rq_ContentType :: string
  rq_id :: string
  rq_email :: string
  rq_Body :: bytes

record decoders =
  de_Register :: "request \<Rightarrow> string \<Rightarrow> err + register_params"
  de_Login :: "request \<Rightarrow> string \<Rightarrow> err + login_params"
  de_Update :: "request \<Rightarrow> string \<Rightarrow> err + update_user_params"
  de_UpdatePassword :: "request \<Rightarrow> string \<Rightarrow> err + update_password_params"
  de_Refresh :: "request \<Rightarrow> string \<Rightarrow> err + refresh_params"
  de_DeleteSession :: "request \<Rightarrow> string \<Rightarrow> err + string"
  de_Sync :: "request \<Rightarrow> string \<Rightarrow> err + sync_params"

text \<open>\<open>fj_Set path key v j\<close> sets the key of the object at the path, when there is one.\<close>

record 'v fastjson =
  fj_ParseBytes :: "bytes \<Rightarrow> err + 'v"
  fj_Set :: "string list \<Rightarrow> string \<Rightarrow> string \<Rightarrow> 'v \<Rightarrow> 'v"
  fj_String :: "'v \<Rightarrow> string"

record ('db, 'v) server =
  sv_Database :: "'db storm"
  sv_Crypto :: crypto
  sv_Sessions :: manager
  sv_Version :: string
  sv_NoRegistration :: bool
  sv_ShowRealVersion :: bool
  sv_SubscriptionPayload :: bytes
  sv_FeaturesPayload :: bytes
  sv_Hostname :: string
  sv_Paseto_mw :: paseto_check
  sv_JWT_mw :: jwt_check
  sv_Decode :: decoders
  sv_NewHTTPError :: "int \<Rightarrow> string \<Rightarrow> err"
  sv_Recover :: "string \<Rightarrow> err"
  sv_Order :: "string list \<Rightarrow> string list"
  sv_Fastjson :: "'v fastjson"

subsection \<open>Subscription handlers\<close>

definition SubscriptionV1 :: "('db, 'v) server \<Rightarrow> 'db handler" where
  "SubscriptionV1 sv c w =
     (case fj_ParseBytes (sv_Fastjson sv) (sv_SubscriptionPayload sv) of
        Inl e \<Rightarrow> (Err e, w)
      | Inr v \<Rightarrow>
          (case cx_User c of
             None \<Rightarrow> (Panic ''nil pointer dereference'', w)
           | Some u \<Rightarrow>
               (let set = fj_Set (sv_Fastjson sv)
                in (Ok (R_String 200 (fj_String (sv_Fastjson sv)
                     (set [''data'', ''user''] ''email'' (us_Email u)
                       (set [''data'', ''user''] ''uuid'' (ID u)
                         (set [''meta'', ''auth''] ''userUuid'' (ID u) v))))), w))))"

definition Features :: "('db, 'v) server \<Rightarrow> 'db handler" where
  "Features sv c w =
     (case fj_ParseBytes (sv_Fastjson sv) (sv_FeaturesPayload sv) of
        Inl e \<Rightarrow> (Err e, w)
      | Inr v \<Rightarrow>
          (case cx_User c of
             None \<Rightarrow> (Panic ''nil pointer dereference'', w)
           | Some u \<Rightarrow>
               (let set = fj_Set (sv_Fastjson sv)
                in (Ok (R_String 200 (fj_String (sv_Fastjson sv)
                     (set [''data''] ''userUuid'' (ID u)
                       (set [''meta'', ''auth''] ''userUuid'' (ID u) v)))), w))))"

subsection \<open>Routes\<close>

datatype endpoint =
    E_Version | E_Register | E_Params | E_Login | E_Logout | E_Update | E_UpdatePassword
  | E_Refresh | E_Sessions | E_DeleteSession | E_DeleteSessions | E_Sync | E_Backup | E_DeleteItems
  | E_LoginPKCE | E_ParamsPKCE | E_Subscriptions | E_SubscriptionV1 | E_Features

record route =
  ro_Method :: string
  ro_Path :: string
  ro_Restricted :: bool
  ro_Endpoint :: endpoint

definition open_route :: "string \<Rightarrow> string \<Rightarrow> endpoint \<Rightarrow> route" where
  "open_route verb path e = \<lparr>ro_Method = verb, ro_Path = path, ro_Restricted = False, ro_Endpoint = e\<rparr>"

definition restricted_route :: "string \<Rightarrow> string \<Rightarrow> endpoint \<Rightarrow> route" where
  "restricted_route verb path e = \<lparr>ro_Method = verb, ro_Path = path, ro_Restricted = True, ro_Endpoint = e\<rparr>"

definition EchoEngine :: "('db, 'v) server \<Rightarrow> route list" where
  "EchoEngine sv =
     [open_route ''GET'' ''/version'' E_Version]
     @ (if \<not> sv_NoRegistration sv
        then [open_route ''POST'' ''/auth'' E_Register, open_route ''POST'' ''/v1/users'' E_Register] else [])
     @ [open_route ''GET'' ''/auth/params'' E_Params,
        open_route ''POST'' ''/auth/sign_in'' E_Login,
        restricted_route ''POST'' ''/auth/sign_out'' E_Logout,
        restricted_route ''POST'' ''/auth/update'' E_Update,
        restricted_route ''POST'' ''/auth/change_pw'' E_UpdatePassword,
        open_route ''GET'' ''/v1/login-params'' E_Params,
        open_route ''POST'' ''/v1/login'' E_Login,
        restricted_route ''POST'' ''/v1/logout'' E_Logout,
        restricted_route ''PUT'' ''/v1/users/:id/attributes/credentials'' E_UpdatePassword,
        open_route ''POST'' ''/session/refresh'' E_Refresh,
        restricted_route ''GET'' ''/sessions'' E_Sessions,
        restricted_route ''DELETE'' ''/session'' E_DeleteSession,
        restricted_route ''DELETE'' ''/session/all'' E_DeleteSessions,
        open_route ''POST'' ''/v1/sessions/refresh'' E_Refresh,
        restricted_route ''GET'' ''/v1/sessions'' E_Sessions,
        restricted_route ''DELETE'' ''/v1/sessions/:id'' E_DeleteSession,
        restricted_route ''DELETE'' ''/v1/sessions'' E_DeleteSessions,
        restricted_route ''POST'' ''/items/sync'' E_Sync,
        restricted_route ''POST'' ''/items/backup'' E_Backup,
        restricted_route ''DELETE'' ''/items'' E_DeleteItems,
        restricted_route ''POST'' ''/v1/items'' E_Sync,
        open_route ''POST'' ''/v2/login'' E_LoginPKCE,
        open_route ''POST'' ''/v2/login-params'' E_ParamsPKCE]
     @ (if sv_SubscriptionPayload sv \<noteq> []
        then [open_route ''GET'' ''/v2/subscriptions'' E_Subscriptions,
              restricted_route ''GET'' ''/v1/users/:id/subscription'' E_SubscriptionV1,
              restricted_route ''GET'' ''/v1/users/:id/features'' E_Features] else [])"

definition version_handler :: "('db, 'v) server \<Rightarrow> 'db handler" where
  "version_handler sv c w =
     (Ok (R_JSON 200 (JObj [(''version'', JStr (if sv_ShowRealVersion sv then sv_Version sv else ''n/a''))])), w)"

text \<open>\<open>c.Bind(&params)\<close>.\<close>

definition bind :: "('db, 'v) server \<Rightarrow> (request \<Rightarrow> string \<Rightarrow> err + 'p) \<Rightarrow> request \<Rightarrow> err + 'p" where
  "bind sv decode rq =
     Bind (sv_NewHTTPError sv) (decode rq) (rq_Method rq) (rq_ContentLength rq) (rq_ContentType rq)"

definition endpoint_handler :: "('db, 'v) server \<Rightarrow> request \<Rightarrow> endpoint \<Rightarrow> 'db handler" where
  "endpoint_handler sv rq e =
     (let S = sv_Database sv; cr = sv_Crypto sv; m = sv_Sessions sv; de = sv_Decode sv
      in case e of
           E_Version \<Rightarrow> version_handler sv
         | E_Register \<Rightarrow> auth_Register S cr m (bind sv (de_Register de) rq)
         | E_Params \<Rightarrow> auth_Params S (cr_SHA256 cr) (sv_Hostname sv)
         | E_Login \<Rightarrow> auth_Login S cr m (bind sv (de_Login de) rq)
         | E_Logout \<Rightarrow> auth_Logout S
         | E_Update \<Rightarrow> auth_Update S cr m (bind sv (de_Update de) rq)
         | E_UpdatePassword \<Rightarrow> auth_UpdatePassword S cr m (bind sv (de_UpdatePassword de) rq)
         | E_Refresh \<Rightarrow> sess_Refresh S cr m (bind sv (de_Refresh de) rq)
         | E_Sessions \<Rightarrow> sess_List S
         | E_DeleteSession \<Rightarrow> sess_Delete S (bind sv (de_DeleteSession de) rq)
         | E_DeleteSessions \<Rightarrow> sess_DeleteAll S
         | E_Sync \<Rightarrow> item_Sync (cr_SHA256 cr) (sv_Order sv) S (bind sv (de_Sync de) rq)
         | E_Backup \<Rightarrow> item_Backup
         | E_DeleteItems \<Rightarrow> item_Delete
         | E_LoginPKCE \<Rightarrow> auth_LoginPKCE S cr m (bind sv (de_Login de) rq)
         | E_ParamsPKCE \<Rightarrow> auth_ParamsPKCE S (cr_SHA256 cr) (sv_Hostname sv) (bind sv (de_Login de) rq)
         | E_Subscriptions \<Rightarrow> (\<lambda>c w. (Ok (R_HTML 500 ''getaddrinfo EAI_AGAIN payments''), w))
         | E_SubscriptionV1 \<Rightarrow> SubscriptionV1 sv
         | E_Features \<Rightarrow> Features sv)"

definition request_ctx :: "request \<Rightarrow> ctx" where
  "request_ctx rq =
     \<lparr>cx_User = None, cx_Session = None, cx_UserAgent = rq_UserAgent rq, cx_Param_id = rq_id rq,
      cx_QueryParam_email = rq_email rq\<rparr>"

definition run_route ::
  "('db, 'v) server \<Rightarrow> route \<Rightarrow> request \<Rightarrow> 'db world \<Rightarrow> (err, response) outcome \<times> 'db world" where
  "run_route sv ro rq w =
     (let handle = endpoint_handler sv rq (ro_Endpoint ro)
      in if ro_Restricted ro
         then Session_middleware (sv_Paseto_mw sv) (sv_JWT_mw sv) (sv_Database sv) (sv_Sessions sv) handle
                (rq_Authorization rq) (request_ctx rq) w
         else handle (request_ctx rq) w)"

definition serve :: "('db, 'v) server \<Rightarrow> route \<Rightarrow> request \<Rightarrow> 'db world \<Rightarrow> response option \<times> 'db world" where
  "serve sv ro rq w =
     (case run_route sv ro rq w of
        (Ok r, w1) \<Rightarrow> (Some r, w1)
      | (Err e, w1) \<Rightarrow> HTTPErrorHandler e False w1
      | (Panic x, w1) \<Rightarrow> HTTPErrorHandler (sv_Recover sv x) False w1)"

end
