(* ===== verification/Server_Invariant.thy ===== *)
theory Server_Invariant
  imports Server
begin

text \<open>
  The invariant of the storage under requests: users have an email and no two share one, and items and
  sessions belong to stored users. Every handler preserves it from a context whose user, if there is
  one, is stored, and the middleware hands the handlers such contexts only; so every request preserves
  it, and every history of requests.
\<close>

definition accounts_ok :: "'db view \<Rightarrow> 'db \<Rightarrow> bool" where
  "accounts_ok V d \<longleftrightarrow>
     (\<forall>u \<in> v_users V d. us_Email u \<noteq> [])
     \<and> inj_on us_Email (v_users V d)
     \<and> it_UserID ` v_items V d \<subseteq> ID ` v_users V d
     \<and> se_UserID ` v_sessions V d \<subseteq> ID ` v_users V d"

definition known_user :: "'db view \<Rightarrow> ctx \<Rightarrow> 'db \<Rightarrow> bool" where
  "known_user V c d \<longleftrightarrow> (\<forall>u. cx_User c = Some u \<longrightarrow> u \<in> v_users V d)"

text \<open>
  The contract of a handler towards a predicate of the storage: it keeps it, from every context whose user
  is stored.
\<close>

definition preserves :: "'db view \<Rightarrow> ('db \<Rightarrow> bool) \<Rightarrow> 'db handler \<Rightarrow> bool" where
  "preserves V P h \<longleftrightarrow> (\<forall>c w. P (w_db w) \<longrightarrow> known_user V c (w_db w) \<longrightarrow> P (w_db (snd (h c w))))"

lemma preservesI:
  "(\<And>c w out w'. h c w = (out, w') \<Longrightarrow> P (w_db w) \<Longrightarrow> known_user V c (w_db w) \<Longrightarrow> P (w_db w')) \<Longrightarrow> preserves V P h"
  by (metis preserves_def prod.collapse)

lemma preservesD:
  "preserves V P h \<Longrightarrow> h c w = (out, w') \<Longrightarrow> P (w_db w) \<Longrightarrow> known_user V c (w_db w) \<Longrightarrow> P (w_db w')"
  by (metis preserves_def snd_conv)

text \<open>
  The predicates considered: the invariant with the items left as they are, which every handler but
  synchronisation keeps, and the invariant with the set of the accounts, which every handler but
  registration keeps.
\<close>

definition accounts_at :: "'db view \<Rightarrow> item set \<Rightarrow> 'db \<Rightarrow> bool" where
  "accounts_at V I d \<longleftrightarrow> accounts_ok V d \<and> v_items V d = I"

definition accounts_are :: "'db view \<Rightarrow> string set \<Rightarrow> 'db \<Rightarrow> bool" where
  "accounts_are V U d \<longleftrightarrow> accounts_ok V d \<and> ID ` v_users V d = U \<and> [] \<notin> U"

text \<open>A write that keeps the users' IDs preserves it when what it adds belongs to stored users.\<close>

lemma accounts_ok_extend:
  assumes ok: "accounts_ok V d" and ids: "ID ` v_users V d \<subseteq> ID ` v_users V d'"
    and "\<And>u. u \<in> v_users V d' \<Longrightarrow> us_Email u \<noteq> []" and "inj_on us_Email (v_users V d')"
    and items: "\<And>i. i \<in> v_items V d' \<Longrightarrow> i \<in> v_items V d \<or> it_UserID i \<in> ID ` v_users V d'"
    and sessions: "\<And>s. s \<in> v_sessions V d' \<Longrightarrow> s \<in> v_sessions V d \<or> se_UserID s \<in> ID ` v_users V d'"
  shows "accounts_ok V d'"
proof -
  have "it_UserID i \<in> ID ` v_users V d'" if "i \<in> v_items V d'" for i
    using items [OF that] ok ids unfolding accounts_ok_def by blast
  moreover have "se_UserID s \<in> ID ` v_users V d'" if "s \<in> v_sessions V d'" for s
    using sessions [OF that] ok ids unfolding accounts_ok_def by blast
  ultimately show ?thesis using assms(3,4) unfolding accounts_ok_def by blast
qed

lemma accounts_ok_same_users:
  assumes "accounts_ok V d" and "v_users V d' = v_users V d"
    and "\<And>i. i \<in> v_items V d' \<Longrightarrow> i \<in> v_items V d \<or> it_UserID i \<in> ID ` v_users V d"
    and "\<And>s. s \<in> v_sessions V d' \<Longrightarrow> s \<in> v_sessions V d \<or> se_UserID s \<in> ID ` v_users V d"
  shows "accounts_ok V d'"
  by (rule accounts_ok_extend [OF assms(1)]) (use assms in \<open>auto simp: accounts_ok_def\<close>)

text \<open>
  What the handlers rely on of such a predicate: it holds on when the users and items stay and new sessions
  belong to users, and when a stored user is saved with an email; a registration needs more, that it holds
  on when any user with an email is saved.
\<close>

locale request_invariant = store S V for S :: "'db storm" and V :: "'db view" +
  fixes P :: "'db \<Rightarrow> bool"
  assumes inv_same: "P d \<Longrightarrow> v_users V d' = v_users V d \<Longrightarrow> v_items V d' = v_items V d \<Longrightarrow>
        (\<And>s. s \<in> v_sessions V d' \<Longrightarrow> s \<in> v_sessions V d \<or> se_UserID s \<in> ID ` v_users V d) \<Longrightarrow> P d'"
    and inv_ok: "P d \<Longrightarrow> accounts_ok V d"
    and inv_save: "Save (st_users S) u w = (u', e, w') \<Longrightarrow> us_Email u \<noteq> [] \<Longrightarrow> P (w_db w) \<Longrightarrow>
        ID u \<in> ID ` v_users V (w_db w) \<Longrightarrow> P (w_db w')"

locale registering_invariant = request_invariant +
  assumes inv_register: "Save (st_users S) u w = (u', e, w') \<Longrightarrow> us_Email u \<noteq> [] \<Longrightarrow> P (w_db w) \<Longrightarrow> P (w_db w')"

context store
begin

lemma save_user_ok:
  assumes "Save (st_users S) u w = (u', e, w')" and "us_Email u \<noteq> []" and "accounts_ok V (w_db w)"
  shows "accounts_ok V (w_db w') \<and> v_items V (w_db w') = v_items V (w_db w)"
proof (cases e)
  case (Some x)
  then show ?thesis using Save_result(5) [OF assms(1) Some] assms(3) by simp
next
  case None
  note sv = assms(1) [unfolded None]
  have u': "us_Email u' = us_Email u" using Save_result(1) [OF sv] by simp
  have rows: "v_users V (w_db w') = insert u' {x \<in> v_users V (w_db w). ID x \<noteq> ID u'}"
    by (rule users.Save_rows [OF sv])
  have "\<not> email_conflict u' x" if "x \<in> v_users V (w_db w)" "ID x \<noteq> ID u'" for x
    using users.save_no_conflict [OF Save_result(4) [OF sv]] that by simp
  then have email: "us_Email x \<noteq> us_Email u'" if "x \<in> v_users V (w_db w)" "ID x \<noteq> ID u'" for x
    using that assms(2) u' by (metis email_conflict_def)
  have other: "v_items V (w_db w') = v_items V (w_db w)" "v_sessions V (w_db w') = v_sessions V (w_db w)"
    using frame_users [OF writes_Save [OF sv]] by auto
  have old: "inj_on us_Email {x \<in> v_users V (w_db w). ID x \<noteq> ID u'}"
    using assms(3) unfolding accounts_ok_def by (elim conjE inj_on_subset) auto
  have "inj_on us_Email (insert u' {x \<in> v_users V (w_db w). ID x \<noteq> ID u'})"
    unfolding inj_on_insert using old email [THEN not_sym] by auto
  moreover have "us_Email x \<noteq> []" if "x \<in> v_users V (w_db w')" for x
    using that assms(2,3) u' unfolding rows accounts_ok_def by auto
  moreover have "ID ` v_users V (w_db w) \<subseteq> ID ` v_users V (w_db w')" unfolding rows by auto
  ultimately have "accounts_ok V (w_db w')"
    using accounts_ok_extend [OF assms(3), of "w_db w'"] unfolding rows other by blast
  then show ?thesis using other by simp
qed

text \<open>Saving a stored user leaves the accounts the same.\<close>

lemma save_known_user:
  assumes "Save (st_users S) u w = (u', e, w')" and "ID u \<in> ID ` v_users V (w_db w)" and "ID u \<noteq> []"
  shows "ID ` v_users V (w_db w') = ID ` v_users V (w_db w)"
proof (cases e)
  case (Some x)
  then show ?thesis using Save_result(5) [OF assms(1) Some] by simp
next
  case None
  note sv = assms(1) [unfolded None]
  have "ID u' = ID u" using Save_result(1) [OF sv] assms(3) by (simp add: ID_stamped)
  then show ?thesis using users.Save_rows [OF sv] assms(2) by auto
qed

end

sublocale store \<subseteq> at: registering_invariant S V "accounts_at V I" for I
proof (unfold_locales, goal_cases)
  case (1 d d')
  then show ?case using accounts_ok_same_users [of V d d'] by (simp add: accounts_at_def)
next
  case (2 d)
  then show ?case by (simp add: accounts_at_def)
next
  case (3 u w u' e w')
  then show ?case using save_user_ok [OF 3(1,2)] by (simp add: accounts_at_def)
next
  case (4 u w u' e w')
  then show ?case using save_user_ok [OF 4(1,2)] by (simp add: accounts_at_def)
qed

sublocale store \<subseteq> are: request_invariant S V "accounts_are V U" for U
proof (unfold_locales, goal_cases)
  case (1 d d')
  then show ?case using accounts_ok_same_users [of V d d'] by (simp add: accounts_are_def)
next
  case (2 d)
  then show ?case by (simp add: accounts_are_def)
next
  case (3 u w u' e w')
  then have "ID u \<noteq> []" by (auto simp: accounts_are_def)
  then show ?case using 3 save_user_ok [OF 3(1,2)] save_known_user [OF 3(1,4)] by (simp add: accounts_are_def)
qed

context request_invariant
begin

text \<open>What the services' writes do to the predicate.\<close>

lemma success_ok:
  assumes "user_success S cr m version u p r w = (out, w')" and "u \<in> v_users V (w_db w)"
    and "P (w_db w)"
  shows "P (w_db w')"
proof (rule inv_same [OF assms(3)])
  fix s assume "s \<in> v_sessions V (w_db w')"
  then show "s \<in> v_sessions V (w_db w) \<or> se_UserID s \<in> ID ` v_users V (w_db w)"
    using payload.success_sessions [OF assms(1)] assms(2) by (metis imageI)
qed (use payload.success_frame [OF assms(1)] in simp_all)

lemma delete_session_ok:
  assumes "Delete (st_sessions S) s w = (e, w')" and "P (w_db w)"
  shows "P (w_db w') \<and> v_users V (w_db w') = v_users V (w_db w)"
proof (cases e)
  case (Some x)
  then show ?thesis using Delete_result(4) [OF assms(1) Some] assms(2) by simp
next
  case None
  have "v_users V (w_db w') = v_users V (w_db w) \<and> v_items V (w_db w') = v_items V (w_db w)"
    using frame_sessions [OF writes_Delete [OF assms(1) [unfolded None]]] by simp
  then show ?thesis
    using sessions.Delete_subset [OF assms(1)] by (intro conjI inv_same [OF assms(2)]) auto
qed

lemma regenerate_ok:
  assumes re: "Regenerate S m s w = (s', e, w')" and "s \<in> v_sessions V (w_db w)" "P (w_db w)"
  shows "P (w_db w')"
proof (cases "w_db w' = w_db w")
  case False
  obtain a w2 where a: "SecureToken 8 (snd (Now w)) = (a, w2)" by force
  obtain r w3 where r: "SecureToken 8 w2 = (r, w3)" by force
  have db: "w_db w3 = w_db w"
    using SecureToken_result(3) [OF a] SecureToken_result(3) [OF r] by simp
  let ?s = "s\<lparr>se_AccessToken := a, se_RefreshToken := r,
      se_ExpireAt := w_clock w3 (w_ticks w3) + mg_refreshTokenExpirationTime m\<rparr>"
  have exp: "\<not> se_ExpireAt s < w_clock w (w_ticks w)"
    using re False by (auto simp: Regenerate_def isSessionExpired_def Now_def)
  obtain s0 e0 w0 where sv0: "Save (st_sessions S) ?s (snd (Now w3)) = (s0, e0, w0)" by (metis prod_cases3)
  then have sv: "Save (st_sessions S) ?s (snd (Now w3)) = (s', e0, w')"
    using re a r exp by (simp add: Regenerate_def isSessionExpired_def Now_def)
  have "e0 = None" using Save_result(5) [OF sv] db False by (cases e0) auto
  note sv = sv [unfolded this]
  have "se_UserID s' = se_UserID s" using Save_result(1) [OF sv] by simp
  moreover have "v_sessions V (w_db w') = insert (forget_current s') {x \<in> v_sessions V (w_db w). ID x \<noteq> ID s'}"
    using sessions.Save_rows [OF sv] db by simp
  moreover have "v_users V (w_db w') = v_users V (w_db w) \<and> v_items V (w_db w') = v_items V (w_db w)"
    using frame_sessions [OF writes_Save [OF sv]] db by simp
  moreover have "se_UserID s \<in> ID ` v_users V (w_db w)" using assms(2) inv_ok [OF assms(3)] by (auto simp: accounts_ok_def)
  ultimately show ?thesis by (intro inv_same [OF assms(3)]) (auto simp: forget_current_def)
qed (use assms(3) in simp)

lemma challenge_write_ok:
  assumes "P (w_db w)" and "w_db w' = w_db w \<or> writes (st_pkces S) (w_db w) (w_db w')"
  shows "P (w_db w') \<and> v_users V (w_db w') = v_users V (w_db w)"
  using pkce_writes_frame [OF assms(2)] by (intro conjI inv_same [OF assms(1)]) auto

lemma stored_email: "P d \<Longrightarrow> u \<in> v_users V d \<Longrightarrow> us_Email u \<noteq> []"
  using inv_ok by (auto simp: accounts_ok_def)

subsection \<open>The services\<close>

text \<open>Saving a user and building the payload of the saved user.\<close>

lemma save_then_success_ok:
  assumes "Save (st_users S) u w = (u', e, w1)" and "P (w_db w1)"
    and "(case e of Some x \<Rightarrow> (Err (Wrap msg x), w1) | None \<Rightarrow> user_success S cr m version u' p r w1) = (out, w')"
  shows "P (w_db w')"
proof (cases e)
  case None
  then have "u' \<in> v_users V (w_db w1)" using users.Save_rows [of u w u' w1] assms(1) by simp
  then show ?thesis using assms(2,3) None success_ok by auto
qed (use assms(2,3) in auto)

lemma user_Login_ok:
  assumes "user_Login S cr m version p w = (out, w')" and "P (w_db w)"
  shows "P (w_db w')"
  using assms(1) [unfolded user_Login_def] by (cases rule: login_cases) (use assms(2) success_ok in auto)

lemma user_Update_ok:
  assumes "user_Update S cr m version u p w = (out, w')" and "u \<in> v_users V (w_db w)" and "P (w_db w)"
  shows "P (w_db w')"
proof -
  obtain u1 e w1 where sv: "Save (st_users S) (apply_params u p) w = (u1, e, w1)" by (metis prod_cases3)
  then have rest: "(case e of Some e \<Rightarrow> (Err (Wrap ''could not persist user'' e), w1)
      | None \<Rightarrow> user_success S cr m version u1 (params.truncate p) None w1) = (out, w')"
    using assms(1) by (simp add: user_Update_def update_user_def)
  have "P (w_db w1)" by (rule inv_save [OF sv]) (use assms(2,3) stored_email in simp_all)
  then show ?thesis by (rule save_then_success_ok [OF sv _ rest])
qed

lemma user_Password_ok:
  assumes "user_Password S cr m version u p w = (out, w')" and "u \<in> v_users V (w_db w)" and "P (w_db w)"
  shows "P (w_db w')"
proof (cases "w_db w' = w_db w")
  case False
  let ?w2 = "snd (Now (snd (Rand w)))"
  have c: "cr_Compare cr (us_Password u) (pw_CurrentPassword p) = None"
    using assms(1) False by (auto simp: user_Password_def password_def split: option.splits)
  obtain hash where h: "cr_Generate cr (fst (Rand w)) (pw_NewPassword p) = Inr hash"
    using assms(1) c False
    by (cases "cr_Generate cr (fst (Rand w)) (pw_NewPassword p)")
      (auto simp: user_Password_def password_def Let_def Rand_def)
  let ?u = "u\<lparr>us_Password := hash, us_PasswordUpdatedAt := time_Unix (w_clock w (w_ticks w))\<rparr>"
  let ?u2 = "if pw_NewEmail p \<noteq> [] then ?u\<lparr>us_Email := pw_NewEmail p\<rparr> else ?u"
  let ?r = "if version = ''20200115'' then Some [(''key_params'', JObj (KeyParams u))] else None"
  obtain u3 e3 w3 where sv: "Save (st_users S) (apply_params ?u2 p) ?w2 = (u3, e3, w3)" by (metis prod_cases3)
  have rest: "(case e3 of Some e \<Rightarrow> (Err (Wrap ''could not persist user'' e), w3)
      | None \<Rightarrow> user_success S cr m version u3 (params.truncate p) ?r w3) = (out, w')"
    using assms(1) c h sv by (simp add: user_Password_def password_def Let_def Now_def Rand_def)
  have "P (w_db w3)" by (rule inv_save [OF sv]) (use assms(2,3) stored_email in simp_all)
  then show ?thesis by (rule save_then_success_ok [OF sv _ rest])
qed (use assms(3) in simp)

end

subsection \<open>The handlers\<close>

text \<open>A handler that writes nothing, and one whose every answer comes from a service.\<close>

lemma preserves_reading: "(\<And>c w. w_db (snd (h c w)) = w_db w) \<Longrightarrow> preserves V P h"
  by (simp add: preserves_def)

lemma render_world_eq: "render r = (out, w') \<Longrightarrow> \<exists>o0. r = (o0, w')"
  by (metis prod.collapse render_world snd_conv)

lemma in_context_params [simp]:
  "pa_UserAgent (in_context c p) = cx_UserAgent c" "pa_Session (in_context c p) = cx_Session c"
  by (simp_all add: in_context_def)

context request_invariant
begin

lemma auth_login_ok: "auth_login S cr m p w = (out, w') \<Longrightarrow> P (w_db w) \<Longrightarrow> P (w_db w')"
  by (auto simp: auth_login_def dest!: render_world_eq user_Login_ok)

lemma auth_Login_preserves: "preserves V P (auth_Login S cr m bound)"
  by (rule preservesI) (auto simp: auth_Login_def Let_def fail_def dest: auth_login_ok split: sum.splits if_splits)

lemma auth_params_world: "snd (auth_params S h host email w) = w"
  by (simp add: auth_params_def split: sum.splits)

lemma auth_Params_preserves: "preserves V P (auth_Params S h host)"
  by (rule preserves_reading) (simp add: auth_Params_def auth_params_world)

lemma CheckChallenge_ok:
  assumes "CheckChallenge S ch w = (e, w')" and "P (w_db w)"
  shows "P (w_db w')"
proof -
  obtain x w1 where rev: "RevokeExpiredChallenges S w = (x, w1)" by force
  have "P (w_db w1)" using challenge_write_ok [OF assms(2) RevokeExpired_writes [OF rev]] by simp
  moreover have "w' = w1 \<or> RemovePKCE S ch w1 = (e, w')"
    using assms(1) rev by (auto simp: CheckChallenge_def split: option.splits sum.splits)
  ultimately show ?thesis using challenge_write_ok RemovePKCE_writes by blast
qed

lemma StoreChallenge_ok:
  assumes "StoreChallenge S ch w = (e, w')" and "P (w_db w)"
  shows "P (w_db w')"
proof -
  obtain x w1 where rev: "RevokeExpiredChallenges S w = (x, w1)" by force
  have ok1: "P (w_db w1)" using challenge_write_ok [OF assms(2) RevokeExpired_writes [OF rev]] by simp
  let ?p = "new_pkce ch (w_clock w1 (w_ticks w1) + hours 1)"
  obtain p' e0 w2 where sv: "Save (st_pkces S) ?p (snd (Now w1)) = (p', e0, w2)" by (metis prod_cases3)
  have "w' = w1 \<or> w' = w2" using assms(1) rev sv by (auto simp: StoreChallenge_def Now_def split: option.splits)
  moreover have "w_db w2 = w_db w1 \<or> writes (st_pkces S) (w_db w1) (w_db w2)"
    using Save_result(5) [OF sv] writes_Save [of "st_pkces S" ?p "snd (Now w1)" p' w2] sv by (cases e0) auto
  ultimately show ?thesis using challenge_write_ok [OF ok1] ok1 by blast
qed

lemma auth_ParamsPKCE_preserves: "preserves V P (auth_ParamsPKCE S h host bound)"
proof (rule preservesI)
  fix c w out w'
  assume run: "auth_ParamsPKCE S h host bound c w = (out, w')" and ok: "P (w_db w)"
  have "w' = w \<or> (\<exists>ch e. StoreChallenge S ch w = (e, w'))"
    using run auth_params_world
    by (auto simp: auth_ParamsPKCE_def Let_def fail_def split: sum.splits if_splits prod.splits option.splits) (metis snd_conv)
  then show "P (w_db w')" using ok StoreChallenge_ok by blast
qed

lemma auth_LoginPKCE_preserves: "preserves V P (auth_LoginPKCE S cr m bound)"
proof (rule preservesI)
  fix c w out w'
  assume run: "auth_LoginPKCE S cr m bound c w = (out, w')" and ok: "P (w_db w)"
  have "w' = w \<or> (\<exists>ch e w1 p. CheckChallenge S ch w = (e, w1) \<and> (w' = w1 \<or> auth_login S cr m p w1 = (out, w')))"
    using run
    by (auto simp: auth_LoginPKCE_def Let_def fail_def split: sum.splits if_splits prod.splits option.splits)
  then show "P (w_db w')" using ok CheckChallenge_ok auth_login_ok by blast
qed

lemma auth_Logout_preserves: "preserves V P (auth_Logout S)"
  by (rule preservesI) (auto simp: auth_Logout_def dest: delete_session_ok split: option.splits prod.splits)

lemma auth_Update_preserves: "preserves V P (auth_Update S cr m bound)"
proof (rule preservesI)
  fix c w out w'
  assume run: "auth_Update S cr m bound c w = (out, w')" and ok: "P (w_db w)"
    and known: "known_user V c (w_db w)"
  have "w' = w \<or> (\<exists>u p o0. cx_User c = Some u \<and> user_Update S cr m (pa_APIVersion p) u p w = (o0, w'))"
    using run by (auto simp: auth_Update_def Let_def fail_def dest!: render_world_eq split: sum.splits option.splits)
  then show "P (w_db w')" using ok known user_Update_ok by (auto simp: known_user_def)
qed

lemma auth_UpdatePassword_preserves: "preserves V P (auth_UpdatePassword S cr m bound)"
proof (rule preservesI)
  fix c w out w'
  assume run: "auth_UpdatePassword S cr m bound c w = (out, w')" and ok: "P (w_db w)"
    and known: "known_user V c (w_db w)"
  have "w' = w \<or> (\<exists>u p o0. cx_User c = Some u \<and> user_Password S cr m (pa_APIVersion p) u p w = (o0, w'))"
    using run
    by (auto simp: auth_UpdatePassword_def Let_def fail_def
        split: sum.splits option.splits if_splits prod.splits outcome.splits)
  then show "P (w_db w')" using ok known user_Password_ok by (auto simp: known_user_def)
qed

lemma sess_List_preserves: "preserves V P (sess_List S)"
proof (rule preservesI)
  fix c w out w'
  assume run: "sess_List S c w = (out, w')" and ok: "P (w_db w)"
  have db: "w_db (snd (FindActiveSessionsByUserID S i w)) = w_db w" for i
    by (simp add: FindActiveSessionsByUserID_def Let_def Now_def)
  have "w' = w \<or> (\<exists>i. w' = snd (FindActiveSessionsByUserID S i w))"
  proof (cases "cx_User c")
    case (Some u)
    obtain r w1 where f: "FindActiveSessionsByUserID S (ID u) w = (r, w1)" by force
    then have "w' = w1" using run Some by (auto simp: sess_List_def split: sum.splits if_splits list.splits option.splits)
    then show ?thesis using f by (metis snd_conv)
  qed (use run in \<open>simp add: sess_List_def\<close>)
  then show "P (w_db w')" using ok db by fastforce
qed

lemma sess_Refresh_preserves: "preserves V P (sess_Refresh S pt m bound)"
proof (rule preservesI)
  fix c w out w'
  assume run: "sess_Refresh S pt m bound c w = (out, w')" and ok: "P (w_db w)"
  show "P (w_db w')"
  proof (cases "w_db w' = w_db w")
    case False
    obtain p where p: "bound = Inr p" using run False by (cases bound) (auto simp: sess_Refresh_def fail_tagged_def)
    obtain sid access refresh where t: "ParseToken (paseto.truncate pt) m (rf_AccessToken p) = Inr (sid, access)"
        "ParseToken (paseto.truncate pt) m (rf_RefreshToken p) = Inr (sid, refresh)"
      using run p False by (auto simp: sess_Refresh_def fail_tagged_def split: sum.splits if_splits)
    obtain s where s: "FindSessionByTokens S sid access refresh w = Inr s"
      using run p t False by (auto simp: sess_Refresh_def fail_tagged_def split: sum.splits if_splits)
    obtain s1 e w1 where r: "Regenerate S m s w = (s1, e, w1)" by (metis prod_cases3)
    have ok1: "P (w_db w1)" using regenerate_ok [OF r _ ok] FindSessionByTokens_Inr [OF s] by simp
    obtain k w2 where k: "session_tokens pt m s1 w1 = (k, w2)" by force
    have "w' = w1 \<or> w' = w2"
      using run p t s r k False
      by (auto simp: sess_Refresh_def fail_tagged_def split: if_splits option.splits sum.splits)
    then show ?thesis using ok1 session_tokens_frame [OF k] by auto
  qed (use ok in simp)
qed

lemma sess_Delete_preserves: "preserves V P (sess_Delete S bound)"
proof (rule preservesI)
  fix c w out w'
  assume run: "sess_Delete S bound c w = (out, w')" and ok: "P (w_db w)"
  define given where "given = (if cx_Param_id c = [] then bound else Inr (cx_Param_id c))"
  have "w' = w \<or> (\<exists>s e. Delete (st_sessions S) s w = (e, w'))"
    using run [unfolded sess_Delete_def Let_def, folded given_def]
    by (cases given) (auto simp: fail_def split: if_splits option.splits sum.splits prod.splits)
  then show "P (w_db w')" using ok delete_session_ok by blast
qed

lemma delete_others_ok:
  "delete_others S cur ss w = (out, w') \<Longrightarrow> P (w_db w) \<Longrightarrow> P (w_db w')"
proof (induction ss arbitrary: w)
  case (Cons s ss)
  obtain e w1 where d: "Delete (st_sessions S) s w = (e, w1)" by force
  have ok1: "P (w_db w1)" using delete_session_ok [OF d Cons.prems(2)] by simp
  have "w' = w \<or> w' = w1 \<or> delete_others S cur ss w = (out, w') \<or> delete_others S cur ss w1 = (out, w')"
    using Cons.prems(1) d by (auto split: option.splits if_splits)
  then show ?case using Cons.IH Cons.prems(2) ok1 by blast
qed simp

lemma sess_DeleteAll_preserves: "preserves V P (sess_DeleteAll S)"
proof (rule preservesI)
  fix c w out w'
  assume run: "sess_DeleteAll S c w = (out, w')" and ok: "P (w_db w)"
  have "w' = w \<or> (\<exists>cur ss. delete_others S cur ss w = (out, w'))"
    using run by (auto simp: sess_DeleteAll_def split: option.splits sum.splits if_splits)
  then show "P (w_db w')" using ok delete_others_ok by blast
qed

end

context registering_invariant
begin

lemma user_Register_ok:
  assumes "user_Register S cr m version p w = (out, w')" and "rg_Email p \<noteq> []" and "P (w_db w)"
  shows "P (w_db w')"
proof (cases "w_db w' = w_db w")
  case False
  let ?w2 = "snd (Now (snd (Rand w)))"
  obtain e where f: "FindUserByMail S (rg_Email p) w = Inl e" "IsNotFound (Some e)"
    using assms(1) False by (auto simp: user_Register_def register_def split: sum.splits if_splits)
  obtain hash where h: "cr_Generate cr (fst (Rand w)) (rg_RegistrationPassword p) = Inr hash"
    using assms(1) f False
    by (cases "cr_Generate cr (fst (Rand w)) (rg_RegistrationPassword p)")
      (auto simp: user_Register_def register_def Let_def Rand_def)
  let ?u = "(registered_user p)\<lparr>us_Password := hash, us_PasswordUpdatedAt := time_Unix (w_clock w (w_ticks w))\<rparr>"
  obtain u e3 w3 where sv: "Save (st_users S) ?u ?w2 = (u, e3, w3)" by (metis prod_cases3)
  have rest: "(case e3 of Some e \<Rightarrow> (Err (Wrap ''could not persist user'' e), w3)
      | None \<Rightarrow> user_success S cr m version u (params.truncate p) None w3) = (out, w')"
    using assms(1) f h sv by (simp add: user_Register_def register_def Let_def Now_def Rand_def)
  have "P (w_db w3)" by (rule inv_register [OF sv]) (use assms(2,3) in simp_all)
  then show ?thesis by (rule save_then_success_ok [OF sv _ rest])
qed (use assms(3) in simp)

lemma auth_Register_preserves: "preserves V P (auth_Register S cr m bound)"
proof (rule preservesI)
  fix c w out w'
  assume run: "auth_Register S cr m bound c w = (out, w')" and ok: "P (w_db w)"
  show "P (w_db w')"
  proof (cases "w_db w' = w_db w")
    case False
    then obtain p where "bound = Inr p" using run by (auto simp: auth_Register_def fail_def split: sum.splits)
    with run False have e: "rg_Email (in_context c p) \<noteq> []"
      and r: "render (user_Register S cr m (pa_APIVersion (in_context c p)) (in_context c p) w) = (out, w')"
      by (auto simp: auth_Register_def fail_def Let_def split: if_splits)
    obtain o0 where "user_Register S cr m (pa_APIVersion (in_context c p)) (in_context c p) w = (o0, w')"
      using render_world_eq [OF r] by blast
    then show ?thesis by (rule user_Register_ok [OF _ e ok])
  qed (use ok in simp)
qed

end

context sync_env
begin

lemma item_Sync_cases:
  assumes "item_Sync sha256 order S bound c w = (out, w')"
  obtains "w' = w" | u p o0 where "bound = Inr p" "cx_User c = Some u"
    and "Sync_Execute sha256 order S u (in_context c p) w = (o0, w')"
  using assms by (auto simp: item_Sync_def fail_def split: sum.splits option.splits prod.splits outcome.splits)

lemma item_Sync_ok:
  assumes "item_Sync sha256 order S bound c w = (out, w')" and ok: "accounts_ok V (w_db w)"
    and known: "known_user V c (w_db w)"
  shows "accounts_ok V (w_db w')"
  using assms(1)
proof (cases rule: item_Sync_cases)
  case (2 u p o0)
  have "ID u \<in> ID ` v_users V (w_db w)" using known 2(2) by (simp add: known_user_def)
  then have "i \<in> v_items V (w_db w) \<or> it_UserID i \<in> ID ` v_users V (w_db w)" if "i \<in> v_items V (w_db w')" for i
    using sync.writes_own [OF 2(3) that] by (auto simp: saved_ok_def)
  then show ?thesis using sync.frame [OF 2(3)] by (intro accounts_ok_same_users [OF ok]) auto
qed (use ok in simp)

lemma in_context_items [simp]: "sp_Items (in_context c p) = sp_Items p"
  by (simp add: in_context_def)

lemma item_Sync_items:
  assumes "item_Sync sha256 order S bound c w = (out, w')"
    and "(x \<in> v_items V (w_db w')) \<noteq> (x \<in> v_items V (w_db w))"
  shows "\<exists>u p. bound = Inr p \<and> cx_User c = Some u \<and> pushed (sp_Items p) x
    \<and> (x \<in> v_items V (w_db w') \<longrightarrow> it_UserID x = ID u)"
  using assms(1)
proof (cases rule: item_Sync_cases)
  case (2 u p o0)
  then show ?thesis using assms(2) sync.keeps [OF 2(3)] sync.writes_own [OF 2(3)] by (fastforce simp: saved_ok_def)
qed (use assms(2) in simp)

end

subsection \<open>Requests\<close>

definition request_items :: "('db, 'v) server \<Rightarrow> request \<Rightarrow> item list" where
  "request_items sv rq = (case bind sv (de_Sync (sv_Decode sv)) rq of Inl _ \<Rightarrow> [] | Inr p \<Rightarrow> sp_Items p)"

text \<open>The request's own credential authenticates the user of the context.\<close>

abbreviation authorized :: "('db, 'v) server \<Rightarrow> 'db view \<Rightarrow> request \<Rightarrow> ctx \<Rightarrow> 'db world \<Rightarrow> bool" where
  "authorized sv V rq \<equiv>
     authenticated (sv_Paseto_mw sv) (sv_JWT_mw sv) (sv_Sessions sv) V (rq_Authorization rq) (request_ctx rq)"

text \<open>A server on a storage that keeps the contract.\<close>

locale serving = sync_env "sv_Database sv" V "cr_SHA256 (sv_Crypto sv)" "sv_Order sv"
  for sv :: "('db, 'v) server" and V :: "'db view"
begin

lemma reading_endpoints:
  "preserves V P (version_handler sv)" "preserves V P item_Backup" "preserves V P item_Delete"
  "preserves V P (SubscriptionV1 sv)" "preserves V P (Features sv)"
  "preserves V P (\<lambda>c w. (Ok (R_HTML 500 ''getaddrinfo EAI_AGAIN payments''), w))"
  by (rule preserves_reading; simp add: version_handler_def item_Backup_def item_Delete_def SubscriptionV1_def
      Features_def Let_def split: sum.splits option.splits)+

lemma endpoint_at: "e \<noteq> E_Sync \<Longrightarrow> preserves V (accounts_at V I) (endpoint_handler sv rq e)"
  by (cases e)
    (simp_all add: endpoint_handler_def reading_endpoints at.auth_Register_preserves at.auth_Params_preserves
      at.auth_Login_preserves at.auth_Logout_preserves at.auth_Update_preserves at.auth_UpdatePassword_preserves
      at.sess_Refresh_preserves at.sess_List_preserves at.sess_Delete_preserves at.sess_DeleteAll_preserves
      at.auth_LoginPKCE_preserves at.auth_ParamsPKCE_preserves)

lemma endpoint_are:
  "e \<noteq> E_Register \<Longrightarrow> e \<noteq> E_Sync \<Longrightarrow> preserves V (accounts_are V U) (endpoint_handler sv rq e)"
  by (cases e)
    (simp_all add: endpoint_handler_def reading_endpoints are.auth_Params_preserves
      are.auth_Login_preserves are.auth_Logout_preserves are.auth_Update_preserves are.auth_UpdatePassword_preserves
      are.sess_Refresh_preserves are.sess_List_preserves are.sess_Delete_preserves are.sess_DeleteAll_preserves
      are.auth_LoginPKCE_preserves are.auth_ParamsPKCE_preserves)

lemma endpoint_preserves:
  assumes "e \<noteq> E_Sync" and "endpoint_handler sv rq e c w = (out, w')" and "accounts_ok V (w_db w)"
    and "known_user V c (w_db w)"
  shows "accounts_ok V (w_db w') \<and> v_items V (w_db w') = v_items V (w_db w)"
  using preservesD [OF endpoint_at [OF assms(1)] assms(2) _ assms(4), of "v_items V (w_db w)"] assms(3)
  by (simp add: accounts_at_def)

lemma endpoint_Sync: "endpoint_handler sv rq E_Sync =
    item_Sync (cr_SHA256 (sv_Crypto sv)) (sv_Order sv) (sv_Database sv) (bind sv (de_Sync (sv_Decode sv)) rq)"
  by (simp add: endpoint_handler_def)

lemma endpoint_ok:
  assumes "endpoint_handler sv rq e c w = (out, w')" and "accounts_ok V (w_db w)" and "known_user V c (w_db w)"
  shows "accounts_ok V (w_db w')"
  using assms item_Sync_ok endpoint_preserves by (cases "e = E_Sync") (auto simp: endpoint_Sync)

lemma endpoint_items:
  assumes "endpoint_handler sv rq e c w = (out, w')" and "accounts_ok V (w_db w)" and "known_user V c (w_db w)"
    and changed: "(x \<in> v_items V (w_db w')) \<noteq> (x \<in> v_items V (w_db w))"
  shows "e = E_Sync \<and> pushed (request_items sv rq) x
    \<and> (\<exists>u. cx_User c = Some u \<and> (x \<in> v_items V (w_db w') \<longrightarrow> it_UserID x = ID u))"
proof (cases "e = E_Sync")
  case True
  then show ?thesis using item_Sync_items [OF assms(1) [unfolded True endpoint_Sync] changed]
    by (auto simp: request_items_def)
qed (use changed endpoint_preserves [OF _ assms(1-3)] in simp)

text \<open>
  A route either runs its handler, in a context with an authenticated user when it is restricted and
  without a user when it is open, or answers from the middleware and leaves the storage alone.
\<close>

lemma run_route_cases:
  assumes run: "run_route sv ro rq w = (out, w')"
  obtains (refused) "w_db w' = w_db w" "ro_Restricted ro"
    | (handled) c w1 where "w_db w1 = w_db w" "endpoint_handler sv rq (ro_Endpoint ro) c w1 = (out, w')"
        "if ro_Restricted ro then authorized sv V rq c w else c = request_ctx rq"
proof (cases "ro_Restricted ro")
  case False
  then show thesis using handled [of w] run by (simp add: run_route_def)
next
  case True
  let ?handle = "endpoint_handler sv rq (ro_Endpoint ro)"
  have run': "Session_middleware (sv_Paseto_mw sv) (sv_JWT_mw sv) (sv_Database sv) (sv_Sessions sv) ?handle
      (rq_Authorization rq) (request_ctx rq) w = (out, w')"
    using run True by (simp add: run_route_def)
  have "guards (authorized sv V rq) (\<lambda>handle. Session_middleware (sv_Paseto_mw sv) (sv_JWT_mw sv) (sv_Database sv) (sv_Sessions sv)
      handle (rq_Authorization rq)) (request_ctx rq) w"
    by (rule Session_middleware_guards)
  then show thesis unfolding guards_def
  proof (elim disjE exE conjE)
    fix c' w1 assume "w_db w1 = w_db w" "authorized sv V rq c' w"
      and mw: "\<forall>handle. Session_middleware (sv_Paseto_mw sv) (sv_JWT_mw sv) (sv_Database sv) (sv_Sessions sv)
          handle (rq_Authorization rq) (request_ctx rq) w = handle c' w1"
    moreover have "?handle c' w1 = (out, w')" using mw run' by metis
    ultimately show thesis using handled True by simp
  qed (use run' refused True in simp)
qed

lemma handled_known:
  "if r then authorized sv V rq c w else c = request_ctx rq \<Longrightarrow> known_user V c (w_db w)"
  by (auto simp: known_user_def authenticated_def request_ctx_def split: if_splits)

lemma run_route_ok:
  assumes run: "run_route sv ro rq w = (out, w')" and ok: "accounts_ok V (w_db w)"
  shows "accounts_ok V (w_db w')"
  using run
proof (cases rule: run_route_cases)
  case (handled c w1)
  then show ?thesis using endpoint_ok handled_known ok by metis
qed (use ok in simp)

lemma run_route_items:
  assumes run: "run_route sv ro rq w = (out, w')" and ok: "accounts_ok V (w_db w)"
    and changed: "(x \<in> v_items V (w_db w')) \<noteq> (x \<in> v_items V (w_db w))"
  shows "ro_Endpoint ro = E_Sync \<and> ro_Restricted ro \<and> pushed (request_items sv rq) x
    \<and> (\<exists>c u. authorized sv V rq c w \<and> cx_User c = Some u
          \<and> (x \<in> v_items V (w_db w') \<longrightarrow> it_UserID x = ID u))"
  using run
proof (cases rule: run_route_cases)
  case (handled c w1)
  then have items: "ro_Endpoint ro = E_Sync \<and> pushed (request_items sv rq) x
      \<and> (\<exists>u. cx_User c = Some u \<and> (x \<in> v_items V (w_db w') \<longrightarrow> it_UserID x = ID u))"
    using endpoint_items [OF handled(2)] handled_known [OF handled(3)] ok changed by simp
  have "ro_Restricted ro" using items handled(3) by (auto simp: request_ctx_def split: if_splits)
  then show ?thesis using items handled(3) by auto
qed (use changed in simp)

lemma HTTPErrorHandler_db: "w_db (snd (HTTPErrorHandler e committed w)) = w_db w"
  by (simp add: HTTPErrorHandler_def internal_error_def Let_def NewV4_def split: err.splits)

lemma serve_route:
  assumes "serve sv ro rq w = (r, w')"
  obtains out w1 where "run_route sv ro rq w = (out, w1)" "w_db w' = w_db w1"
proof -
  obtain out w1 where run: "run_route sv ro rq w = (out, w1)" by force
  have "w_db w' = w_db w1"
  proof (cases out)
    case (Err e)
    then show ?thesis using assms(1) run HTTPErrorHandler_db [of e False w1] by (simp add: serve_def)
  next
    case (Panic x)
    then show ?thesis using assms(1) run HTTPErrorHandler_db [of "sv_Recover sv x" False w1] by (simp add: serve_def)
  qed (use assms(1) run in \<open>simp add: serve_def\<close>)
  then show thesis using that run by blast
qed

lemma serve_ok: "serve sv ro rq w = (r, w') \<Longrightarrow> accounts_ok V (w_db w) \<Longrightarrow> accounts_ok V (w_db w')"
  by (elim serve_route) (auto dest: run_route_ok)

lemma serve_items:
  assumes "serve sv ro rq w = (r, w')" and "accounts_ok V (w_db w)"
    and "(x \<in> v_items V (w_db w')) \<noteq> (x \<in> v_items V (w_db w))"
  shows "ro_Endpoint ro = E_Sync \<and> ro_Restricted ro \<and> pushed (request_items sv rq) x
    \<and> (\<exists>c u. authorized sv V rq c w \<and> cx_User c = Some u
          \<and> (x \<in> v_items V (w_db w') \<longrightarrow> it_UserID x = ID u))"
  using assms(1)
proof (rule serve_route)
  fix out w1 assume "run_route sv ro rq w = (out, w1)" "w_db w' = w_db w1"
  then show ?thesis using run_route_items [of ro rq w out w1 x] assms(2,3) by simp
qed

end

subsection \<open>Histories\<close>

inductive server_run ::
  "('db, 'v) server \<Rightarrow> (route \<times> request) list \<Rightarrow> 'db world \<Rightarrow> 'db world \<Rightarrow> bool" for sv where
  server_idle: "server_run sv [] w w"
| server_serves: "server_run sv qs w w1 \<Longrightarrow> ro \<in> set (EchoEngine sv) \<Longrightarrow> serve sv ro rq w1 = (r, w2) \<Longrightarrow>
    server_run sv ((ro, rq) # qs) w w2"

inductive_cases server_run_ConsE: "server_run sv (q # qs) w w'"
inductive_simps server_run_Nil [simp]: "server_run sv [] w w'"

context serving
begin

lemma server_run_ok: "server_run sv qs w w' \<Longrightarrow> accounts_ok V (w_db w) \<Longrightarrow> accounts_ok V (w_db w')"
  by (induction rule: server_run.induct) (auto dest: serve_ok)

text \<open>An item nobody pushes stays as it is, whatever requests are served.\<close>

lemma server_run_keeps:
  assumes "server_run sv qs w w'" and "accounts_ok V (w_db w)"
    and "\<forall>(ro, rq) \<in> set qs. ro_Endpoint ro = E_Sync \<longrightarrow> \<not> pushed (request_items sv rq) x"
  shows "x \<in> v_items V (w_db w') \<longleftrightarrow> x \<in> v_items V (w_db w)"
  using assms
proof (induction rule: server_run.induct)
  case (server_serves qs w w1 ro rq r w2)
  have "x \<in> v_items V (w_db w2) \<longleftrightarrow> x \<in> v_items V (w_db w1)"
    using serve_items [OF server_serves(3) server_run_ok [OF server_serves(1,5)], of x] server_serves(6) by auto
  then show ?case using server_serves by auto
qed simp

text \<open>Without registration the accounts stay the same, whatever requests are served.\<close>

lemma endpoint_accounts:
  assumes "endpoint_handler sv rq e c w = (out, w')" and "e \<noteq> E_Register" and are: "accounts_are V U (w_db w)"
    and known: "known_user V c (w_db w)"
  shows "accounts_are V U (w_db w')"
proof (cases "e = E_Sync")
  case True
  note run = assms(1) [unfolded True endpoint_Sync]
  have "accounts_ok V (w_db w')" using item_Sync_ok [OF run _ known] are by (simp add: accounts_are_def)
  moreover have "v_users V (w_db w') = v_users V (w_db w)"
    using run by (cases rule: item_Sync_cases) (use sync.frame in auto)
  ultimately show ?thesis using are by (simp add: accounts_are_def)
qed (use preservesD [OF endpoint_are [OF assms(2)] assms(1) are known] in simp)

lemma serve_accounts:
  assumes "serve sv ro rq w = (r, w')" and "ro_Endpoint ro \<noteq> E_Register" and "accounts_are V U (w_db w)"
  shows "accounts_are V U (w_db w')"
  using assms(1)
proof (rule serve_route)
  fix out w1 assume run: "run_route sv ro rq w = (out, w1)" and db: "w_db w' = w_db w1"
  from run have "accounts_are V U (w_db w1)"
  proof (cases rule: run_route_cases)
    case (handled c w0)
    then show ?thesis using endpoint_accounts [OF handled(2) assms(2)] handled_known [OF handled(3)] assms(3) by simp
  qed (use assms(3) in simp)
  then show ?thesis using db by simp
qed

lemma server_run_accounts:
  assumes "server_run sv qs w w'" and "sv_NoRegistration sv" and "accounts_are V U (w_db w)"
  shows "accounts_are V U (w_db w')"
  using assms
proof (induction rule: server_run.induct)
  case (server_serves qs w w1 ro rq r w2)
  have "ro_Endpoint ro \<noteq> E_Register"
    using server_serves(2,5) by (auto simp: EchoEngine_def open_route_def restricted_route_def split: if_splits)
  then show ?case using serve_accounts [OF server_serves(3)] server_serves(4-6) by simp
qed simp

end

end
