(* ===== verification/Handler_Properties.thy ===== *)
theory Handler_Properties
  imports Handlers
begin

text \<open>
  The properties of the single handlers, each with a concrete run: login with a PKCE challenge, the
  session handlers, the change of a password, and what the parameters of an account reveal.
\<close>

subsection \<open>What the successful answers mean\<close>

context store
begin

lemma CheckChallenge_frame:
  assumes "CheckChallenge S ch w = (e, w')"
  shows "v_users V (w_db w') = v_users V (w_db w)" "v_items V (w_db w') = v_items V (w_db w)"
    "v_sessions V (w_db w') = v_sessions V (w_db w)"
proof -
  obtain x w1 where rev: "RevokeExpiredChallenges S w = (x, w1)" by force
  have "w' = w1 \<or> RemovePKCE S ch w1 = (e, w')"
    using assms rev by (auto simp: CheckChallenge_def split: option.splits sum.splits)
  then show "v_users V (w_db w') = v_users V (w_db w)" "v_items V (w_db w') = v_items V (w_db w)"
    "v_sessions V (w_db w') = v_sessions V (w_db w)"
    using RevokeExpired_frame [OF rev] RemovePKCE_frame by auto
qed

lemma login_PKCE_200:
  assumes "auth_LoginPKCE S cr m bound c w = (Ok (R_JSON 200 j), w')"
  shows "\<exists>p u. bound = Inr p
    \<and> (\<exists>k \<in> v_pkces V (w_db w). pk_CodeChallenge k = ComputeChallenge (cr_SHA256 cr) (lg_CodeVerifier p)
          \<and> w_clock w (w_ticks w) < pk_ExpireAt k)
    \<and> (\<forall>k \<in> v_pkces V (w_db w'). pk_CodeChallenge k \<noteq> ComputeChallenge (cr_SHA256 cr) (lg_CodeVerifier p))
    \<and> u \<in> v_users V (w_db w) \<and> us_Email u = lg_Email p
    \<and> cr_Compare cr (us_Password u) (lg_Password p) = None"
proof -
  obtain p0 p w1 where p: "bound = Inr p0" "p = in_context c p0"
    and ch: "CheckChallenge S (ComputeChallenge (cr_SHA256 cr) (lg_CodeVerifier p)) w = (None, w1)"
    and login: "user_Login S cr m (pa_APIVersion p) p w1 = (Ok j, w')"
    using assms by (rule auth_LoginPKCE_200)
  have same: "lg_CodeVerifier p = lg_CodeVerifier p0" "lg_Email p = lg_Email p0" "lg_Password p = lg_Password p0"
    by (simp_all add: p(2) in_context_def)
  show ?thesis using login [unfolded user_Login_def]
  proof (cases rule: login_cases)
    case (accepted u)
    then show ?thesis
      using p(1) same CheckChallenge_accepts_rows [OF ch] CheckChallenge_frame [OF ch]
        payload.success_frame [OF accepted(4)] by (intro exI [of _ p0] exI [of _ u]) auto
  qed simp
qed

lemma sess_Delete_removes:
  assumes "sess_Delete S bound c w = (Ok (R_NoContent 204), w')"
  shows "\<exists>current u s. cx_Session c = Some current \<and> cx_User c = Some u
    \<and> s \<in> v_sessions V (w_db w) \<and> se_UserID s = ID u \<and> ID s \<noteq> ID current
    \<and> (if cx_Param_id c = [] then bound else Inr (cx_Param_id c)) = Inr (ID s)
    \<and> v_sessions V (w_db w') = v_sessions V (w_db w) - {s}"
  using assms
proof (rule sess_Delete_204)
  fix i current u s
  assume c: "cx_Session c = Some current" "cx_User c = Some u" "i \<noteq> ID current"
    and i: "(if cx_Param_id c = [] then bound else Inr (cx_Param_id c)) = Inr i"
    and s: "FindSessionByUserID S i (ID u) w = Inr s" and d: "Delete (st_sessions S) s w = (None, w')"
  have rows: "v_sessions V (w_db w') = {x \<in> v_sessions V (w_db w). ID x \<noteq> ID s}" by (rule sessions.Delete_rows [OF d])
  have s': "s \<in> v_sessions V (w_db w)" "ID s = i" "se_UserID s = ID u"
    using FindSessionByUserID_Inr [OF s] by auto
  have "x = s" if "x \<in> v_sessions V (w_db w)" "ID x = ID s" for x
    using sessions.rows_id_eq [OF that(1) s'(1) that(2)] .
  then have "v_sessions V (w_db w') = v_sessions V (w_db w) - {s}" unfolding rows by blast
  then show ?thesis using c(1,2) c(3) [folded s'(2)] i [folded s'(2)] s'(1,3) by blast
qed

lemma sess_DeleteAll_keeps:
  assumes run: "sess_DeleteAll S c w = (Ok (R_NoContent 204), w')" and c: "cx_User c = Some u" "cx_Session c = Some cur"
  shows "v_sessions V (w_db w') = {x \<in> v_sessions V (w_db w). se_UserID x \<noteq> ID u \<or> ID x = ID cur}"
proof (cases "FindSessionsByUserID S (ID u) w")
  case (Inl e)
  then have "\<not> IsNotFound (Some e)"
    by (auto simp: FindSessionsByUserID_def found_list_def IsNotFound_def split: sum.splits if_splits)
  then show ?thesis using run c Inl by (simp add: sess_DeleteAll_def)
next
  case (Inr ss)
  then have del: "delete_others S (Some cur) ss w = (Ok (R_NoContent 204), w')"
    using run c by (simp add: sess_DeleteAll_def)
  have ss: "set ss = {s \<in> v_sessions V (w_db w). se_UserID s = ID u}"
    using FindSessionsByUserID_Inr [OF Inr] by blast
  have "ID x \<in> ID ` set ss \<longleftrightarrow> se_UserID x = ID u" if "x \<in> v_sessions V (w_db w)" for x
    using that sessions.rows_id_eq [OF that] unfolding ss by (auto intro: image_eqI)
  then show ?thesis unfolding delete_others_rows [OF sessions.bucket_axioms del] by auto
qed

lemma sess_Refresh_rotates:
  assumes run: "sess_Refresh S pt m bound c w = (Ok (R_JSON 200 j), w')"
    and ids: "\<forall>s \<in> v_sessions V (w_db w). ID s \<noteq> []"
  shows "\<exists>s s' p. s \<in> v_sessions V (w_db w) \<and> w_clock w (w_ticks w) \<le> se_ExpireAt s
    \<and> bound = Inr p
    \<and> ParseToken (paseto.truncate pt) m (rf_AccessToken p) = Inr (ID s, se_AccessToken s)
    \<and> ParseToken (paseto.truncate pt) m (rf_RefreshToken p) = Inr (ID s, se_RefreshToken s)
    \<and> ID s' = ID s \<and> se_UserID s' = se_UserID s
    \<and> (let (access, w2) = SecureToken 8 (snd (Now w)); (refresh, w3) = SecureToken 8 w2
       in se_AccessToken s' = access \<and> se_RefreshToken s' = refresh)
    \<and> length (se_AccessToken s') = 8 \<and> length (se_RefreshToken s') = 8
    \<and> se_ExpireAt s' = w_clock w (w_ticks w + 3) + mg_refreshTokenExpirationTime m
    \<and> v_sessions V (w_db w') = insert s' (v_sessions V (w_db w) - {s})"
  using run
proof (rule sess_Refresh_200)
  fix p sid access refresh s s1 w1
  assume p: "bound = Inr p" "ParseToken (paseto.truncate pt) m (rf_AccessToken p) = Inr (sid, access)"
      "ParseToken (paseto.truncate pt) m (rf_RefreshToken p) = Inr (sid, refresh)"
    and f: "FindSessionByTokens S sid access refresh w = Inr s"
    and r: "Regenerate S m s w = (s1, None, w1)" and db: "w_db w' = w_db w1"
  have s: "s \<in> v_sessions V (w_db w)" "ID s = sid" "se_AccessToken s = access" "se_RefreshToken s = refresh"
    using FindSessionByTokens_Inr [OF f] by auto
  then have "ID s \<noteq> []" using ids by blast
  note r = Regenerate_rows [OF r this]
  have drawn: "(let (access, w2) = SecureToken 8 (snd (Now w)); (refresh, w3) = SecureToken 8 w2
       in se_AccessToken s1 = access \<and> se_RefreshToken s1 = refresh)
    \<and> se_ExpireAt s1 = w_clock w (w_ticks w + 3) + mg_refreshTokenExpirationTime m"
    using r(7) by (simp add: Let_def split_beta prod_eq_iff)
  have "x = s" if "x \<in> v_sessions V (w_db w)" "ID x = ID s" for x
    using sessions.rows_id_eq [OF that(1) s(1) that(2)] .
  then have "{x \<in> v_sessions V (w_db w). ID x \<noteq> ID s} = v_sessions V (w_db w) - {s}" by blast
  then have "v_sessions V (w_db w') = insert (forget_current s1) (v_sessions V (w_db w) - {s})"
    using r(1) db by simp
  then show ?thesis using s(1) r(2-6) p s(2-4) drawn
    by (intro exI [of _ s] exI [of _ "forget_current s1"] exI [of _ p]) (simp add: forget_current_def)
qed

lemma taken_email_refused:
  assumes x: "x \<in> v_users V (w_db w)" "us_Email x = pw_NewEmail p" "pw_NewEmail p \<noteq> []" "ID x \<noteq> ID u" "ID u \<noteq> []"
    and run: "user_Password S cr m version u p w = (out, w')"
  shows "(\<forall>j. out \<noteq> Ok j) \<and> w_db w' = w_db w"
proof (cases "us_Password u = us_Password u \<and> cr_Compare cr (us_Password u) (pw_CurrentPassword p) = None")
  case True
  let ?w2 = "snd (Now (snd (Rand w)))"
  show ?thesis
  proof (cases "cr_Generate cr (fst (Rand w)) (pw_NewPassword p)")
    case (Inl e)
    then show ?thesis using run True by (auto simp: user_Password_def password_def Let_def Rand_def)
  next
    case (Inr hash)
    let ?u = "u\<lparr>us_Password := hash, us_PasswordUpdatedAt := time_Unix (w_clock w (w_ticks w)),
        us_Email := pw_NewEmail p\<rparr>"
    obtain u3 e3 w3 where sv: "Save (st_users S) (apply_params ?u p) ?w2 = (u3, e3, w3)" by (metis prod_cases3)
    have u3: "us_Email u3 = pw_NewEmail p" "ID u3 = ID u"
      using Save_result(1) [OF sv] x(5) by (simp_all add: ID_stamped)
    have "e3 \<noteq> None"
    proof
      assume "e3 = None"
      then have "b_save (st_users S) u3 (w_db ?w2) = Inr (w_db w3)" using Save_result(4) [OF sv] by simp
      then have "\<not> email_conflict u3 x" using users.save_no_conflict x(1,4) u3(2) by fastforce
      then show False using u3(1) x(2,3) by (simp add: email_conflict_def)
    qed
    then obtain y where "e3 = Some y" by blast
    then show ?thesis using run True Inr sv Save_result(5) [OF sv] x(3)
      by (auto simp: user_Password_def password_def Let_def Now_def Rand_def)
  qed
qed (use run in \<open>auto simp: user_Password_def password_def split: option.splits\<close>)

lemma UpdatePassword_taken_email:
  assumes c: "cx_User c = Some u" "ID u \<noteq> []"
    and x: "x \<in> v_users V (w_db w)" "ID x \<noteq> ID u" "us_Email x = pw_NewEmail p" "pw_NewEmail p \<noteq> []"
    and run: "auth_UpdatePassword S cr m (Inr p) c w = (out, w')"
  shows "(\<forall>j. out \<noteq> Ok (R_JSON 200 j)) \<and> w_db w' = w_db w"
proof -
  let ?p = "in_context c p"
  obtain o1 w1 where pw: "user_Password S cr m (pa_APIVersion ?p) u ?p w = (o1, w1)" by force
  have "pw_NewEmail ?p = pw_NewEmail p" by (simp add: in_context_def)
  then have "(\<forall>j. o1 \<noteq> Ok j) \<and> w_db w1 = w_db w"
    using taken_email_refused [OF x(1) _ _ x(2) c(2) pw] x(3,4) by simp
  then show ?thesis using run c pw
    by (cases o1) (auto simp: auth_UpdatePassword_def Let_def fail_def split: if_splits)
qed

end

lemma auth_params_fields:
  "\<exists>j. fst (auth_params S h host email w) = Ok (R_JSON 200 j)
     \<and> (obj_field j ''nonce'' \<noteq> None \<longleftrightarrow> (\<exists>e. FindUserByMail S email w = Inl e))"
  by (cases "FindUserByMail S email w") (auto simp: auth_params_def)

subsection \<open>Examples\<close>

definition phone :: session where
  "phone = example_session\<lparr>ID := ''s2'', se_AccessToken := ''a2'', se_RefreshToken := ''r2''\<rparr>"

definition bobs :: session where
  "bobs = example_session\<lparr>ID := ''s3'', se_UserID := ''bob''\<rparr>"

definition bob :: user where
  "bob = account_user\<lparr>ID := ''bob'', us_Email := ''b@b''\<rparr>"

text \<open>Alice with two sessions and a pending challenge, and bob with one session.\<close>

definition desk_world :: "memdb world" where
  "desk_world = memory_world 1000
     (empty_db\<lparr>md_users := [account_user, bob], md_sessions := [example_session, phone, bobs],
              md_pkces := [(new_pkce (ComputeChallenge (\<lambda>b. b) ''v'') (hours 1))\<lparr>ID := ''1''\<rparr>]\<rparr>)"

definition desk_ctx :: ctx where
  "desk_ctx = \<lparr>cx_User = Some account_user, cx_Session = Some example_session, cx_UserAgent = [],
     cx_Param_id = ''s2'', cx_QueryParam_email = []\<rparr>"

lemma desk_sessions: "v_sessions mem_view (w_db desk_world) = {example_session, phone, bobs}"
  by (simp add: desk_world_def memory_world_def mem_view_def example_session_def phone_def bobs_def)

lemma desk_fields [simp]:
  "ID example_session = ''s1''" "ID phone = ''s2''" "ID bobs = ''s3''"
  "se_UserID example_session = ''alice''" "se_UserID phone = ''alice''" "se_UserID bobs = ''bob''"
  "ID account_user = ''alice''"
  by (simp_all add: example_session_def phone_def bobs_def account_user_def)

lemma subset_insert_filter:
  "{x \<in> insert a A. P x} = (if P a then insert a {x \<in> A. P x} else {x \<in> A. P x})"
  by auto

subsection \<open>Properties\<close>

text \<open>
  C19. A login with PKCE that succeeds presents the verifier of a challenge that was stored and not yet
  expired, and the challenge is gone afterwards; and it belongs to the stored user with the given email
  whose password hash matches the given password.
\<close>

theorem LoginPKCE_consumes_challenge:
  assumes "store S V" and "auth_LoginPKCE S cr m bound c w = (Ok (R_JSON 200 j), w')"
  shows "\<exists>p u. bound = Inr p
    \<and> (\<exists>k \<in> v_pkces V (w_db w). pk_CodeChallenge k = ComputeChallenge (cr_SHA256 cr) (lg_CodeVerifier p)
          \<and> w_clock w (w_ticks w) < pk_ExpireAt k)
    \<and> (\<forall>k \<in> v_pkces V (w_db w'). pk_CodeChallenge k \<noteq> ComputeChallenge (cr_SHA256 cr) (lg_CodeVerifier p))
    \<and> u \<in> v_users V (w_db w) \<and> us_Email u = lg_Email p
    \<and> cr_Compare cr (us_Password u) (lg_Password p) = None"
  by (rule store.login_PKCE_200 [OF assms])

definition pkce_login :: login_params where
  "pkce_login = example_login\<lparr>lg_Password := ''old'', lg_CodeVerifier := ''v''\<rparr>"

definition pkce_login_run :: "(err, response) outcome \<times> memdb world" where
  "pkce_login_run = auth_LoginPKCE mem_storm example_crypto example_manager (Inr pkce_login)
     (desk_ctx\<lparr>cx_User := None, cx_Session := None\<rparr>) desk_world"

fun is_200 :: "(err, response) outcome \<Rightarrow> bool" where
  "is_200 (Ok (R_JSON code j)) = (code = 200)"
| "is_200 _ = False"

lemma is_200_result: "is_200 (fst p) \<Longrightarrow> \<exists>j. p = (Ok (R_JSON 200 j), snd p)"
  by (cases p; cases "fst p" rule: is_200.cases) auto

theorem LoginPKCE_consumes_challenge_witness:
  "{k \<in> v_pkces mem_view (w_db (snd pkce_login_run)). pk_CodeChallenge k = ComputeChallenge (\<lambda>b. b) ''v''} = {}"
proof -
  have "is_200 (fst pkce_login_run)" by code_simp
  then obtain j where run: "auth_LoginPKCE mem_storm example_crypto example_manager (Inr pkce_login)
     (desk_ctx\<lparr>cx_User := None, cx_Session := None\<rparr>) desk_world = (Ok (R_JSON 200 j), snd pkce_login_run)"
    using is_200_result unfolding pkce_login_run_def by blast
  from LoginPKCE_consumes_challenge [OF mem_store run] show ?thesis
    by (auto simp: pkce_login_def example_login_def example_crypto_def)
qed

text \<open>
  Deleting a session by its ID removes exactly that session, which is one of the user's own and not
  the current one; every other session stays.
\<close>

theorem Delete_removes_one_session:
  assumes "store S V" and "sess_Delete S bound c w = (Ok (R_NoContent 204), w')"
  shows "\<exists>current u s. cx_Session c = Some current \<and> cx_User c = Some u
    \<and> s \<in> v_sessions V (w_db w) \<and> se_UserID s = ID u \<and> ID s \<noteq> ID current
    \<and> (if cx_Param_id c = [] then bound else Inr (cx_Param_id c)) = Inr (ID s)
    \<and> v_sessions V (w_db w') = v_sessions V (w_db w) - {s}"
  by (rule store.sess_Delete_removes [OF assms])

definition delete_run :: "(err, response) outcome \<times> memdb world" where
  "delete_run = sess_Delete mem_storm (Inr []) desk_ctx desk_world"

theorem Delete_removes_one_session_witness:
  "v_sessions mem_view (w_db (snd delete_run)) = {example_session, phone, bobs} - {phone}"
proof -
  have "fst delete_run = Ok (R_NoContent 204)" by code_simp
  then have "sess_Delete mem_storm (Inr []) desk_ctx desk_world = (Ok (R_NoContent 204), snd delete_run)"
    unfolding delete_run_def by (rule pair_fst_eq)
  from Delete_removes_one_session [OF mem_store this] obtain s
    where s: "s \<in> {example_session, phone, bobs}" "Inr (ID s) = (Inr ''s2'' :: err + string)"
      and rows: "v_sessions mem_view (w_db (snd delete_run)) = {example_session, phone, bobs} - {s}"
    unfolding desk_sessions by (elim exE conjE) (simp add: desk_ctx_def)
  have "s = phone" using s by (elim insertE emptyE) simp_all
  with rows show ?thesis by simp
qed

text \<open>
  C21. Deleting all sessions leaves of the user's sessions the current one only, and every session of the
  other users.
\<close>

theorem DeleteAll_keeps_current:
  assumes "store S V" and "sess_DeleteAll S c w = (Ok (R_NoContent 204), w')"
    and "cx_User c = Some u" and "cx_Session c = Some cur"
  shows "v_sessions V (w_db w') = {x \<in> v_sessions V (w_db w). se_UserID x \<noteq> ID u \<or> ID x = ID cur}"
  by (rule store.sess_DeleteAll_keeps [OF assms])

definition delete_all_run :: "(err, response) outcome \<times> memdb world" where
  "delete_all_run = sess_DeleteAll mem_storm desk_ctx desk_world"

theorem DeleteAll_keeps_current_witness:
  "v_sessions mem_view (w_db (snd delete_all_run)) = {example_session, bobs}"
proof -
  have "fst delete_all_run = Ok (R_NoContent 204)" by code_simp
  then have "sess_DeleteAll mem_storm desk_ctx desk_world = (Ok (R_NoContent 204), snd delete_all_run)"
    unfolding delete_all_run_def by (rule pair_fst_eq)
  from DeleteAll_keeps_current [OF mem_store this, of account_user example_session]
  have "v_sessions mem_view (w_db (snd delete_all_run))
      = {x \<in> {example_session, phone, bobs}. se_UserID x \<noteq> ''alice'' \<or> ID x = ''s1''}"
    by (simp add: desk_sessions desk_ctx_def)
  also have "\<dots> = {example_session, bobs}" unfolding subset_insert_filter by simp
  finally show ?thesis .
qed

text \<open>
  C20. A refresh that succeeds presents both current tokens of one stored, unexpired session, and replaces
  that session by one with the same ID and user, an access token and a refresh token of eight characters that are
  drawn one after the other, and the expiration counted anew from the current instant; every other session stays.
\<close>

theorem Refresh_rotates_tokens:
  assumes "store S V" and "sess_Refresh S pt m bound c w = (Ok (R_JSON 200 j), w')"
    and "\<forall>s \<in> v_sessions V (w_db w). ID s \<noteq> []"
  shows "\<exists>s s' p. s \<in> v_sessions V (w_db w) \<and> w_clock w (w_ticks w) \<le> se_ExpireAt s
    \<and> bound = Inr p
    \<and> ParseToken (paseto.truncate pt) m (rf_AccessToken p) = Inr (ID s, se_AccessToken s)
    \<and> ParseToken (paseto.truncate pt) m (rf_RefreshToken p) = Inr (ID s, se_RefreshToken s)
    \<and> ID s' = ID s \<and> se_UserID s' = se_UserID s
    \<and> (let (access, w2) = SecureToken 8 (snd (Now w)); (refresh, w3) = SecureToken 8 w2
       in se_AccessToken s' = access \<and> se_RefreshToken s' = refresh)
    \<and> length (se_AccessToken s') = 8 \<and> length (se_RefreshToken s') = 8
    \<and> se_ExpireAt s' = w_clock w (w_ticks w + 3) + mg_refreshTokenExpirationTime m
    \<and> v_sessions V (w_db w') = insert s' (v_sessions V (w_db w) - {s})"
  by (rule store.sess_Refresh_rotates [OF assms])

definition refresh_crypto :: crypto where
  "refresh_crypto = example_crypto\<lparr>pt_Decrypt := (\<lambda>t key. Inr \<lparr>pc_Issuer = [], pc_Audience = [],
     pc_Subject = ''s2'', pc_Jti = t, pc_IssuedAt = 0, pc_NotBefore = 0, pc_Expiration = 0\<rparr>)\<rparr>"

definition refresh_run :: "(err, response) outcome \<times> memdb world" where
  "refresh_run = sess_Refresh mem_storm refresh_crypto example_manager
     (Inr \<lparr>rf_AccessToken = ''a2'', rf_RefreshToken = ''r2''\<rparr>) desk_ctx desk_world"

lemma refresh_runs: "\<exists>j. refresh_run = (Ok (R_JSON 200 j), snd refresh_run)"
proof -
  have f: "FindSessionByTokens mem_storm ''s2'' ''a2'' ''r2'' desk_world = Inr phone" by code_simp
  obtain s1 e w1 where r: "Regenerate mem_storm example_manager phone desk_world = (s1, e, w1)" by (metis prod_cases3)
  have "e = None"
    using mem_Regenerate_None [of desk_world phone example_manager] r
    by (simp add: desk_world_def memory_world_def empty_db_def phone_def example_session_def hours_def)
  then have "sess_Refresh mem_storm refresh_crypto example_manager
      (Inr \<lparr>rf_AccessToken = ''a2'', rf_RefreshToken = ''r2''\<rparr>) desk_ctx desk_world
      = (case session_tokens refresh_crypto example_manager s1 w1 of
           (Inl e, w2) \<Rightarrow> (Err e, w2)
         | (Inr tokens, w2) \<Rightarrow> (Ok (R_JSON 200 (JObj [(''session'', tokens)])), w2))"
    using f r by (simp add: sess_Refresh_def ParseToken_def refresh_crypto_def example_crypto_def paseto.defs)
  moreover obtain t w2 where "session_tokens refresh_crypto example_manager s1 w1 = (Inr t, w2)"
    by (simp add: session_tokens_def Token_def refresh_crypto_def example_crypto_def paseto.defs Let_def Now_def Rand_def)
  ultimately show ?thesis by (simp add: refresh_run_def)
qed

theorem Refresh_rotates_tokens_witness:
  "\<exists>s \<in> {example_session, phone, bobs}. ID s = ''s2''
     \<and> (\<exists>s'. ID s' = ''s2'' \<and> v_sessions mem_view (w_db (snd refresh_run)) = insert s' ({example_session, phone, bobs} - {s}))"
proof -
  obtain j where run: "sess_Refresh mem_storm refresh_crypto example_manager
      (Inr \<lparr>rf_AccessToken = ''a2'', rf_RefreshToken = ''r2''\<rparr>) desk_ctx desk_world = (Ok (R_JSON 200 j), snd refresh_run)"
    using refresh_runs unfolding refresh_run_def by blast
  have ids: "\<forall>s \<in> v_sessions mem_view (w_db desk_world). ID s \<noteq> []" by (simp add: desk_sessions)
  obtain s s' where s: "s \<in> {example_session, phone, bobs}" "ID s = ''s2''" "ID s' = ID s"
      "v_sessions mem_view (w_db (snd refresh_run)) = insert s' ({example_session, phone, bobs} - {s})"
    using Refresh_rotates_tokens [OF mem_store run ids] unfolding desk_sessions
    by (elim exE conjE) (simp add: ParseToken_def refresh_crypto_def example_crypto_def paseto.defs)
  then show ?thesis by (intro bexI [OF _ s(1)] conjI exI [of _ s']) simp_all
qed

text \<open>
  A change of the password to an email that another user has is refused, and writes nothing.
\<close>

theorem UpdatePassword_refuses_taken_email:
  assumes "store S V" and "cx_User c = Some u" and "ID u \<noteq> []"
    and "x \<in> v_users V (w_db w)" and "ID x \<noteq> ID u" and "us_Email x = pw_NewEmail p" and "pw_NewEmail p \<noteq> []"
    and "auth_UpdatePassword S cr m (Inr p) c w = (out, w')"
  shows "(\<forall>j. out \<noteq> Ok (R_JSON 200 j)) \<and> w_db w' = w_db w"
  by (rule store.UpdatePassword_taken_email [OF assms])

theorem UpdatePassword_refuses_taken_email_witness:
  "w_db (snd (auth_UpdatePassword mem_storm example_crypto example_manager
      (Inr (example_change\<lparr>pw_NewEmail := ''b@b''\<rparr>)) desk_ctx desk_world)) = w_db desk_world"
proof -
  have "bob \<in> v_users mem_view (w_db desk_world)"
    by (simp add: desk_world_def memory_world_def mem_view_def bob_def account_user_def model_NewUser_def)
  then show ?thesis
    using UpdatePassword_refuses_taken_email [OF mem_store, of desk_ctx account_user bob desk_world
        "example_change\<lparr>pw_NewEmail := ''b@b''\<rparr>" example_crypto example_manager, OF _ _ _ _ _ _ surjective_pairing]
    by (simp add: desk_ctx_def bob_def)
qed

text \<open>
  The parameters given for an email reveal whether it is registered: the answer of an account never
  has the key \<open>nonce\<close> (its own key is \<open>pw_nonce\<close>), the answer made up for an unknown email always has.
\<close>

theorem params_reveal_accounts:
  "\<exists>j. fst (auth_params S h host email w) = Ok (R_JSON 200 j)
     \<and> (obj_field j ''nonce'' \<noteq> None \<longleftrightarrow> (\<exists>e. FindUserByMail S email w = Inl e))"
  by (rule auth_params_fields)

text \<open>
  The session handlers presuppose a session: for a user who is authenticated by a JWT they panic, on
  every named session and on the list of all sessions as soon as there is one.
\<close>

theorem session_handlers_panic_without_session:
  assumes "cx_User c = Some u" and "cx_Session c = None" and "cx_Param_id c \<noteq> []"
    and "FindSessionsByUserID S (ID u) w = Inr (s # ss)"
  shows "sess_Delete S bound c w = (Panic ''nil pointer dereference'', w)
    \<and> sess_DeleteAll S c w = (Panic ''nil pointer dereference'', w)"
  using assms by (simp add: sess_Delete_def sess_DeleteAll_def Let_def)

theorem session_handlers_panic_without_session_witness:
  "sess_DeleteAll mem_storm (desk_ctx\<lparr>cx_Session := None\<rparr>) desk_world = (Panic ''nil pointer dereference'', desk_world)"
proof -
  have "FindSessionsByUserID mem_storm (ID account_user) desk_world = Inr [example_session, phone]" by code_simp
  then show ?thesis
    using session_handlers_panic_without_session [of "desk_ctx\<lparr>cx_Session := None\<rparr>" account_user mem_storm desk_world
        example_session "[phone]" "Inr []"]
    by (simp add: desk_ctx_def)
qed

text \<open>
  Logging out answers that it succeeded although the session could not be deleted: when the storage
  fails otherwise than by not finding the session, the answer is still 204 and the session stays.
\<close>

theorem Logout_hides_failure:
  assumes "cx_Session c = Some s" and "b_delete_struct (st_sessions S) s (w_db w) = Inl e" and "Cause e \<noteq> ErrNotFound"
  shows "auth_Logout S c w = (Ok (R_NoContent 204), w)"
  using assms by (simp add: auth_Logout_def Delete_def IsNotFound_def)

theorem Logout_hides_failure_witness:
  "auth_Logout mem_storm desk_ctx (memory_world 0 (empty_db\<lparr>md_sessions := [example_session], md_broken := True\<rparr>))
     = (Ok (R_NoContent 204), memory_world 0 (empty_db\<lparr>md_sessions := [example_session], md_broken := True\<rparr>))"
  by (rule Logout_hides_failure [of _ example_session _ _ "ErrStorm ''storage failure''"])
    (simp_all add: desk_ctx_def mem_storm_def mem_bucket_def memory_world_def)

end
