(* ===== verification/Server_Properties.thy ===== *)
theory Server_Properties
  imports Server_Invariant Handler_Properties
begin

text \<open>
  The properties of the server as a whole, over any history of requests to its routes, and a concrete
  server on the in-memory storage.
\<close>

subsection \<open>Example\<close>

definition desk_item :: "string \<Rightarrow> string \<Rightarrow> item" where
  "desk_item i owner =
     \<lparr>ID = i, CreatedAt = Some 5, UpdatedAt = Some 5, it_UserID = owner, it_ItemsKeyID = [],
      it_Content = ''c'', it_ContentType = ''Note'', it_EncryptedItemKey = ''k'', it_Deleted = False\<rparr>"

definition desk_sync :: sync_params where
  "desk_sync =
     \<lparr>pa_APIVersion = ''20200115'', pa_UserAgent = [], pa_Session = None, sp_ComputeIntegrity = False, sp_Limit = 0,
      sp_SyncToken = [], sp_CursorToken = [], sp_ContentType = [], sp_Items = [desk_item ''n1'' [], desk_item ''n2'' []]\<rparr>"

text \<open>The bodies are taken as decoded already; the bearer token \<open>alice\<close> is a JWT of alice.\<close>

definition desk_decoders :: decoders where
  "desk_decoders =
     \<lparr>de_Register = (\<lambda>rq ct. Inr (example_registration\<lparr>rg_Email := rq_Body rq\<rparr>)),
      de_Login = (\<lambda>rq ct. Inr example_login), de_Update = (\<lambda>rq ct. Inl (ErrLib [])),
      de_UpdatePassword = (\<lambda>rq ct. Inr example_change), de_Refresh = (\<lambda>rq ct. Inl (ErrLib [])),
      de_DeleteSession = (\<lambda>rq ct. Inr (rq_Body rq)), de_Sync = (\<lambda>rq ct. Inr desk_sync)\<rparr>"

definition desk_server :: "(memdb, string) server" where
  "desk_server =
     \<lparr>sv_Database = mem_storm, sv_Crypto = example_crypto, sv_Sessions = example_manager, sv_Version = ''v1'',
      sv_NoRegistration = False, sv_ShowRealVersion = False, sv_SubscriptionPayload = [], sv_FeaturesPayload = [],
      sv_Hostname = ''h'', sv_Paseto_mw = (\<lambda>now a. (Some (ErrLib ''bad token''), None)),
      sv_JWT_mw = (\<lambda>now a. if a = ''Bearer alice'' then Inr [''user_uuid'' \<mapsto> CString ''alice'', ''iat'' \<mapsto> CFloat 60]
                       else Inl (ErrLib ''bad token'')),
      sv_Decode = desk_decoders, sv_NewHTTPError = (\<lambda>code m. HTTPError code m m), sv_Recover = ErrLib, sv_Order = rev,
      sv_Fastjson = \<lparr>fj_ParseBytes = Inr, fj_Set = (\<lambda>p k v j. j), fj_String = (\<lambda>j. j)\<rparr>\<rparr>"

interpretation desk: serving desk_server mem_view
  by (simp add: serving_def sync_env_def sync_env_axioms_def desk_server_def mem_store)

definition desk_request :: "string \<Rightarrow> bytes \<Rightarrow> request" where
  "desk_request authorization body =
     \<lparr>rq_Method = ''POST'', rq_Authorization = authorization, rq_UserAgent = [], rq_ContentLength = 1,
      rq_ContentType = [], rq_id = [], rq_email = [], rq_Body = body\<rparr>"

definition registration_served :: "response option \<times> memdb world" where
  "registration_served = serve desk_server (open_route ''POST'' ''/auth'' E_Register) (desk_request [] ''c@c'') desk_world"

definition sync_served :: "response option \<times> memdb world" where
  "sync_served = serve desk_server (restricted_route ''POST'' ''/items/sync'' E_Sync)
     (desk_request ''Bearer alice'' []) desk_world"

lemma desk_users: "v_users mem_view (w_db desk_world) = {account_user, bob}"
  by (simp add: desk_world_def memory_world_def mem_view_def account_user_def bob_def)

lemma desk_items: "v_items mem_view (w_db desk_world) = {}"
  by (simp add: desk_world_def memory_world_def mem_view_def empty_db_def)

lemma desk_accounts: "accounts_ok mem_view (w_db desk_world)"
proof -
  have "us_Email account_user = ''a@b''" "us_Email bob = ''b@b''" "ID bob = ''bob''"
    by (simp_all add: account_user_def bob_def)
  then show ?thesis unfolding accounts_ok_def desk_users desk_items desk_sessions by (simp add: image_iff)
qed

subsection \<open>Properties\<close>

text \<open>
  C4. Whatever requests are served, in any order and with any outcome, storage failures and panics
  included: users keep an email, no two users share one, and every item and every session belongs to a
  stored user.
\<close>

theorem requests_keep_accounts:
  assumes "serving sv V" and "server_run sv qs w w'" and "accounts_ok V (w_db w)"
  shows "(\<forall>u \<in> v_users V (w_db w'). us_Email u \<noteq> [])
    \<and> inj_on us_Email (v_users V (w_db w'))
    \<and> it_UserID ` v_items V (w_db w') \<subseteq> ID ` v_users V (w_db w')
    \<and> se_UserID ` v_sessions V (w_db w') \<subseteq> ID ` v_users V (w_db w')"
  using serving.server_run_ok [OF assms] by (simp add: accounts_ok_def)

theorem requests_keep_accounts_witness:
  "inj_on us_Email (v_users mem_view (w_db (snd registration_served)))"
proof -
  have "server_run desk_server [(open_route ''POST'' ''/auth'' E_Register, desk_request [] ''c@c'')]
      desk_world (snd registration_served)"
  proof (rule server_run.server_serves [OF server_run.server_idle])
    show "open_route ''POST'' ''/auth'' E_Register \<in> set (EchoEngine desk_server)"
      by (simp add: EchoEngine_def desk_server_def)
    show "serve desk_server (open_route ''POST'' ''/auth'' E_Register) (desk_request [] ''c@c'') desk_world
        = (fst registration_served, snd registration_served)" by (simp add: registration_served_def)
  qed
  then show ?thesis using requests_keep_accounts [OF desk.serving_axioms _ desk_accounts] by blast
qed

text \<open>
  C5. The only requests that change an item are synchronisations behind the session middleware, and only
  items they push: an item that appears, changes or disappears has an ID that the request names (or that
  was drawn for it), and what is written belongs to the user the credential in the header of this very request
  authenticates. A PASETO names a stored session of this user by its ID and access token, neither of them
  expired; a JWT names this user and was not issued before the last change of the password.
\<close>

theorem only_authenticated_syncs_write_items:
  assumes "serving sv V" and "serve sv ro rq w = (r, w')" and "accounts_ok V (w_db w)"
    and "(x \<in> v_items V (w_db w')) \<noteq> (x \<in> v_items V (w_db w))"
  shows "ro_Endpoint ro = E_Sync \<and> ro_Restricted ro \<and> pushed (request_items sv rq) x
    \<and> (\<exists>u \<in> v_users V (w_db w).
          (by_jwt (sv_JWT_mw sv) (rq_Authorization rq) u w
           \<or> (\<exists>s. by_session (sv_Paseto_mw sv) (sv_Sessions sv) V (rq_Authorization rq) u s w))
          \<and> (x \<in> v_items V (w_db w') \<longrightarrow> it_UserID x = ID u))"
  using serving.serve_items [OF assms] by (auto simp: authenticated_def)

theorem only_authenticated_syncs_write_items_witness:
  "\<exists>x \<in> v_items mem_view (w_db (snd sync_served)). it_UserID x = ''alice''"
proof -
  have "md_items (w_db (snd sync_served)) \<noteq> []" by code_simp
  then obtain x where x: "x \<in> v_items mem_view (w_db (snd sync_served))"
    by (cases "md_items (w_db (snd sync_served))") (auto simp: mem_view_def)
  have run: "serve desk_server (restricted_route ''POST'' ''/items/sync'' E_Sync) (desk_request ''Bearer alice'' [])
      desk_world = (fst sync_served, snd sync_served)" by (simp add: sync_served_def)
  have no_session: "\<not> by_session (sv_Paseto_mw desk_server) m mem_view a u s desk_world" for m a u s
    by (simp add: by_session_def desk_server_def)
  obtain u where "by_jwt (sv_JWT_mw desk_server) ''Bearer alice'' u desk_world" "it_UserID x = ID u"
    using only_authenticated_syncs_write_items [OF desk.serving_axioms run desk_accounts, of x] x desk_items no_session
    by (auto simp: desk_request_def)
  then have "it_UserID x = ''alice''" by (auto simp: by_jwt_def desk_server_def)
  then show ?thesis using x by blast
qed

end
