(* ===== verification/Libsf_Crypto.thy ===== *)
theory Libsf_Crypto
  imports Libsf_Token World
begin

text \<open>
  The cryptographic layer of the client library: \<^verbatim>\<open>pkg/libsf/crypto.go\<close>, \<^verbatim>\<open>authentication.go\<close> and
  \<^verbatim>\<open>keychain.go\<close>. The primitives are parameters: the AES block functions, HMAC, the padding, the AEAD, the
  key derivations and the JSON codecs. The CBC mode of the standard library is modelled here, over the
  block functions.
\<close>

subsection \<open>Authentication parameters and keys\<close>

record auth =
  au_Version :: string
  au_Identifier :: string
  au_Cost :: int
  au_Nonce :: string
  au_Origination :: string

text \<open>\<open>kc_ItemsKey\<close> is a Go map, which may be nil.\<close>

record keychain =
  kc_Version :: string
  kc_Password :: string
  kc_MasterKey :: string
  kc_AuthKey :: string
  kc_ItemsKey :: "(string \<rightharpoonup> string) option"

definition empty_keychain :: keychain where
  "empty_keychain = \<lparr>kc_Version = [], kc_Password = [], kc_MasterKey = [], kc_AuthKey = [], kc_ItemsKey = None\<rparr>"

text \<open>
  \<open>ci_AES_E\<close> and \<open>ci_AES_D\<close> work on one block; \<open>ci_XSeal\<close> and \<open>ci_XOpen\<close> are XChaCha20-Poly1305, whose
  opening panics on a nonce of a wrong length.
\<close>

record ciphers =
  ci_AES_E :: "bytes \<Rightarrow> bytes \<Rightarrow> bytes"
  ci_AES_D :: "bytes \<Rightarrow> bytes \<Rightarrow> bytes"
  ci_HMAC :: "bytes \<Rightarrow> bytes \<Rightarrow> bytes"
  ci_SHA256 :: "bytes \<Rightarrow> bytes"
  ci_Pad :: "bytes \<Rightarrow> nat \<Rightarrow> err + bytes"
  ci_Unpad :: "bytes \<Rightarrow> err + bytes"
  ci_XSeal :: "bytes \<Rightarrow> bytes \<Rightarrow> bytes \<Rightarrow> bytes \<Rightarrow> bytes"
  ci_XOpen :: "bytes \<Rightarrow> bytes \<Rightarrow> bytes \<Rightarrow> bytes \<Rightarrow> (err, bytes) outcome"
  ci_PBKDF2 :: "bytes \<Rightarrow> bytes \<Rightarrow> int \<Rightarrow> nat \<Rightarrow> bytes"
  ci_IDKey :: "bytes \<Rightarrow> bytes \<Rightarrow> nat \<Rightarrow> nat \<Rightarrow> nat \<Rightarrow> nat \<Rightarrow> bytes"

subsection \<open>Random bytes\<close>

text \<open>\<^verbatim>\<open>crypto/rand.Read\<close> fills the slice and never returns an error.\<close>

fun GenerateRandomBytes :: "nat \<Rightarrow> 'db world \<Rightarrow> bytes \<times> 'db world" where
  "GenerateRandomBytes 0 w = ([], w)"
| "GenerateRandomBytes (Suc n) w =
     (let (b, w1) = rand_Int 256 w; (bs, w2) = GenerateRandomBytes n w1 in (char_of b # bs, w2))"

lemma length_GenerateRandomBytes [simp]: "length (fst (GenerateRandomBytes n w)) = n"
  by (induction n arbitrary: w) (simp_all add: split_beta Let_def)

subsection \<open>Decoding with the errors of the standard library\<close>

definition hex_DecodeString :: "string \<Rightarrow> err + bytes" where
  "hex_DecodeString s = (case hex_decode s of None \<Rightarrow> Inl (ErrLib ''encoding/hex'') | Some b \<Rightarrow> Inr b)"

definition b64_DecodeString :: "string \<Rightarrow> err + bytes" where
  "b64_DecodeString s = (case b64_decode std_alphabet s of None \<Rightarrow> Inl (ErrLib ''illegal base64 data'') | Some b \<Rightarrow> Inr b)"

definition b64_EncodeToString :: "bytes \<Rightarrow> string" where
  "b64_EncodeToString b = b64_encode std_alphabet True b"

lemma decode_encode [simp]:
  "hex_DecodeString (hex_encode b) = Inr b" "b64_DecodeString (b64_EncodeToString b) = Inr b"
  by (simp_all add: hex_DecodeString_def b64_DecodeString_def b64_EncodeToString_def hex_decode_encode
      b64_decode_encode b64_alphabet_std)

lemma encoded_no_colon: "CHR '':'' \<notin> set (hex_encode b)" "CHR '':'' \<notin> set (b64_EncodeToString b)"
  by (simp_all add: hex_encode_no_colon b64_EncodeToString_def b64_encode_no_colon b64_alphabet_std std_alphabet_no_colon)

subsection \<open>AES in CBC mode\<close>

definition aes_NewCipher :: "bytes \<Rightarrow> err + bytes" where
  "aes_NewCipher key =
     (if length key \<in> {16, 24, 32} then Inr key else Inl (ErrLib ''crypto/aes: invalid key size''))"

definition xor_char :: "char \<Rightarrow> char \<Rightarrow> char" where
  "xor_char x y = char_of (xor (of_char x) (of_char y) :: nat)"

definition xor_bytes :: "bytes \<Rightarrow> bytes \<Rightarrow> bytes" where
  "xor_bytes a b = map2 xor_char a b"

fun blocks :: "bytes \<Rightarrow> bytes list" where
  "blocks [] = []"
| "blocks (b # bs) = take 16 (b # bs) # blocks (drop 16 (b # bs))"

declare blocks.simps(2) [simp del]

fun cbc_encrypt :: "(bytes \<Rightarrow> bytes) \<Rightarrow> bytes \<Rightarrow> bytes list \<Rightarrow> bytes list" where
  "cbc_encrypt E iv [] = []"
| "cbc_encrypt E iv (p # ps) = (let c = E (xor_bytes p iv) in c # cbc_encrypt E c ps)"

fun cbc_decrypt :: "(bytes \<Rightarrow> bytes) \<Rightarrow> bytes \<Rightarrow> bytes list \<Rightarrow> bytes list" where
  "cbc_decrypt D iv [] = []"
| "cbc_decrypt D iv (c # cs) = xor_bytes (D c) iv # cbc_decrypt D c cs"

text \<open>
  \<open>cipher.NewCBCEncrypter\<close>/\<open>NewCBCDecrypter\<close> and \<open>CryptBlocks\<close>: they panic on an IV of a wrong length and
  on input that is not made of full blocks.
\<close>

definition CryptBlocks ::
  "((bytes \<Rightarrow> bytes) \<Rightarrow> bytes \<Rightarrow> bytes list \<Rightarrow> bytes list) \<Rightarrow> (bytes \<Rightarrow> bytes) \<Rightarrow> bytes \<Rightarrow> bytes \<Rightarrow> (err, bytes) outcome" where
  "CryptBlocks mode f iv src =
     (if length iv \<noteq> 16 then Panic ''IV length must equal block size''
      else if length src mod 16 \<noteq> 0 then Panic ''input not full blocks''
      else Ok (concat (mode f iv (blocks src))))"

lemma concat_blocks [simp]: "concat (blocks s) = s"
  by (induction s rule: blocks.induct) (simp_all add: blocks.simps(2))

lemma blocks_full: "length s mod 16 = 0 \<Longrightarrow> b \<in> set (blocks s) \<Longrightarrow> length b = 16"
proof (induction s rule: blocks.induct)
  case (2 c cs)
  have "16 \<le> length (c # cs)"
    using 2(2) by (metis dvd_imp_le length_greater_0_conv list.distinct(1) mod_0_imp_dvd)
  moreover from this have "length (drop 16 (c # cs)) mod 16 = 0" using 2(2) by (simp add: le_mod_geq)
  ultimately show ?case using 2 by (auto simp: blocks.simps(2))
qed simp

lemma blocks_concat: "(\<And>b. b \<in> set bs \<Longrightarrow> length b = 16) \<Longrightarrow> blocks (concat bs) = bs"
proof (induction bs)
  case (Cons b bs)
  have len: "length b = 16" by (rule Cons.prems) simp
  then obtain c cs where "b = c # cs" by (cases b) auto
  note b = this len
  have "blocks (concat (b # bs)) = take 16 (b @ concat bs) # blocks (drop 16 (b @ concat bs))"
    by (simp add: b(1) blocks.simps(2))
  then show ?case using Cons b(2) by simp
qed simp

lemma length_xor_bytes [simp]: "length (xor_bytes a b) = min (length a) (length b)"
  by (simp add: xor_bytes_def)

lemma xor_char_cancel: "xor_char (xor_char x y) y = x"
proof -
  have bits: "take_bit 8 (of_char c :: nat) = of_char c" for c :: char
    by (simp add: take_bit_eq_mod)
  have "of_char (char_of (xor (of_char x) (of_char y) :: nat) :: char) = take_bit 8 (xor (of_char x) (of_char y) :: nat)"
    by (simp add: of_char_of take_bit_eq_mod)
  then show ?thesis by (simp add: xor_char_def take_bit_xor bits xor.assoc)
qed

lemma xor_bytes_cancel: "length a \<le> length b \<Longrightarrow> xor_bytes (xor_bytes a b) b = a"
  by (auto simp: xor_bytes_def xor_char_cancel intro!: nth_equalityI)

lemma cbc_encrypt_lengths:
  assumes "\<And>b. length b = 16 \<Longrightarrow> length (E b) = 16" and "length iv = 16"
    and "\<And>p. p \<in> set ps \<Longrightarrow> length p = 16" and "c \<in> set (cbc_encrypt E iv ps)"
  shows "length c = 16"
  using assms(2-)
proof (induction ps arbitrary: iv)
  case (Cons p ps)
  have "length (E (xor_bytes p iv)) = 16" using Cons.prems(1,2) by (intro assms(1)) simp
  then show ?case using Cons.IH [of "E (xor_bytes p iv)"] Cons.prems(2,3) by (auto simp: Let_def)
qed simp

lemma cbc_decrypt_encrypt:
  assumes "\<And>b. length b = 16 \<Longrightarrow> D (E b) = b" and "\<And>b. length b = 16 \<Longrightarrow> length (E b) = 16"
    and "length iv = 16" and "\<And>p. p \<in> set ps \<Longrightarrow> length p = 16"
  shows "cbc_decrypt D iv (cbc_encrypt E iv ps) = ps"
  using assms(3,4)
proof (induction ps arbitrary: iv)
  case (Cons p ps)
  have x: "length (xor_bytes p iv) = 16" using Cons.prems by simp
  have "length (E (xor_bytes p iv)) = 16" by (rule assms(2) [OF x])
  then have "cbc_decrypt D (E (xor_bytes p iv)) (cbc_encrypt E (E (xor_bytes p iv)) ps) = ps"
    using Cons.IH Cons.prems(2) by simp
  then show ?case using assms(1) [OF x] Cons.prems by (simp add: Let_def xor_bytes_cancel)
qed simp

lemma CryptBlocks_round_trip:
  assumes block: "\<And>b. length b = 16 \<Longrightarrow> D (E b) = b" "\<And>b. length b = 16 \<Longrightarrow> length (E b) = 16"
    and enc: "CryptBlocks cbc_encrypt E iv p = Ok c"
  shows "CryptBlocks cbc_decrypt D iv c = Ok p"
proof -
  have iv: "length iv = 16" and p: "length p mod 16 = 0" and c: "c = concat (cbc_encrypt E iv (blocks p))"
    using enc by (auto simp: CryptBlocks_def split: if_splits)
  have full: "\<And>b. b \<in> set (cbc_encrypt E iv (blocks p)) \<Longrightarrow> length b = 16"
    using cbc_encrypt_lengths [of E, OF block(2) iv] blocks_full [OF p] by blast
  then have bs: "blocks c = cbc_encrypt E iv (blocks p)" unfolding c by (rule blocks_concat)
  have "sum_list (map length bs) mod 16 = 0" if "\<And>b. b \<in> set bs \<Longrightarrow> length b = (16 :: nat)" for bs :: "bytes list"
    using that by (induction bs) (simp_all add: mod_add_eq [symmetric])
  then have "length c mod 16 = 0" unfolding c length_concat using full by blast
  moreover have "cbc_decrypt D iv (blocks c) = blocks p"
    unfolding bs using cbc_decrypt_encrypt [of D E] block iv blocks_full [OF p] by blast
  ultimately show ?thesis using iv by (simp add: CryptBlocks_def)
qed

subsection \<open>Deriving the keys\<close>

definition IntegrityCheck :: "auth \<Rightarrow> err option" where
  "IntegrityCheck a =
     (if au_Version a = ProtocolVersion4 then None
      else if au_Version a = ProtocolVersion3
      then (if au_Cost a < 110000 then Some (ErrLib ''libsf: low password cost'') else None)
      else if au_Version a = ProtocolVersion2
      then (if au_Cost a < 3000 then Some (ErrLib ''libsf: low password cost'') else None)
      else Some (ErrLib ''libsf: unsupported version''))"

definition SymmetricKeyPair3 :: "ciphers \<Rightarrow> auth \<Rightarrow> string \<Rightarrow> keychain" where
  "SymmetricKeyPair3 ci a uip =
     (let token = au_Identifier a @ '':SF:'' @ au_Version a @ '':'' @ itoa (au_Cost a) @ '':'' @ au_Nonce a;
          salt = hex_encode (ci_SHA256 ci token);
          key = hex_encode (ci_PBKDF2 ci uip salt (au_Cost a) (3 * 32));
          s = length key div 3
      in empty_keychain\<lparr>kc_Version := au_Version a, kc_Password := take s key,
                        kc_MasterKey := take (s * 2 - s) (drop s key), kc_AuthKey := drop (s * 2) key\<rparr>)"

text \<open>An empty salt is drawn, which does not happen for the salt of a digest.\<close>

definition kdf4 :: "ciphers \<Rightarrow> bytes \<Rightarrow> bytes \<Rightarrow> 'db world \<Rightarrow> bytes \<times> 'db world" where
  "kdf4 ci pw salt w =
     (let (s, w1) = (if length salt = 0 then GenerateRandomBytes 16 w else (salt, w))
      in (ci_IDKey ci pw s 5 65536 1 64, w1))"

definition kdf4s :: "ciphers \<Rightarrow> string \<Rightarrow> string \<Rightarrow> 'db world \<Rightarrow> (err + bytes) \<times> 'db world" where
  "kdf4s ci pw salt w =
     (case hex_DecodeString salt of
        Inl e \<Rightarrow> (Inl (Wrap ''salt is not an hexadecimal string'' e), w)
      | Inr s \<Rightarrow> (let (k, w1) = kdf4 ci pw s w in (Inr k, w1)))"

definition SymmetricKeyPair4 :: "ciphers \<Rightarrow> auth \<Rightarrow> string \<Rightarrow> 'db world \<Rightarrow> keychain \<times> 'db world" where
  "SymmetricKeyPair4 ci a uip w =
     (let salt = take 16 (ci_SHA256 ci (au_Identifier a @ '':'' @ au_Nonce a));
          (key, w1) = kdf4 ci uip salt w
      in (empty_keychain\<lparr>kc_Version := au_Version a, kc_MasterKey := hex_encode (take 32 key),
                         kc_Password := hex_encode (drop 32 key), kc_ItemsKey := Some Map.empty\<rparr>, w1))"

definition SymmetricKeyPair :: "ciphers \<Rightarrow> auth \<Rightarrow> string \<Rightarrow> 'db world \<Rightarrow> keychain \<times> 'db world" where
  "SymmetricKeyPair ci a uip w =
     (if au_Version a = ProtocolVersion4 then SymmetricKeyPair4 ci a uip w else (SymmetricKeyPair3 ci a uip, w))"

definition GenerateItemEncryptionKey :: "ciphers \<Rightarrow> keychain \<Rightarrow> 'db world \<Rightarrow> (err + string) \<times> 'db world" where
  "GenerateItemEncryptionKey ci k w =
     (if kc_Version k = ProtocolVersion2 \<or> kc_Version k = ProtocolVersion3
      then (let (passphrase, w1) = GenerateRandomBytes 512 w;
                (salt, w2) = GenerateRandomBytes 512 w1
            in (Inr (hex_encode (ci_PBKDF2 ci passphrase salt 1 (2 * 32))), w2))
      else if kc_Version k = ProtocolVersion4
      then (let (ik, w1) = GenerateRandomBytes 32 w in (Inr (hex_encode ik), w1))
      else (Inl (ErrLib (''Unsupported version: '' @ kc_Version k)), w))"

definition contentKeyChain :: "string \<Rightarrow> string \<Rightarrow> keychain" where
  "contentKeyChain version k =
     (if version = ProtocolVersion2 \<or> version = ProtocolVersion3
      then empty_keychain\<lparr>kc_Version := version, kc_MasterKey := take (length k div 2) k,
                          kc_AuthKey := drop (length k div 2) k\<rparr>
      else if version = ProtocolVersion4 then empty_keychain\<lparr>kc_Version := version, kc_MasterKey := k\<rparr>
      else empty_keychain)"

subsection \<open>The contract of the primitives\<close>

locale primitives =
  fixes ci :: ciphers
  assumes AES_D_E: "length k \<in> {16, 24, 32} \<Longrightarrow> length b = 16 \<Longrightarrow> ci_AES_D ci k (ci_AES_E ci k b) = b"
    and AES_length: "length k \<in> {16, 24, 32} \<Longrightarrow> length b = 16 \<Longrightarrow> length (ci_AES_E ci k b) = 16"
    and Unpad_Pad: "ci_Pad ci p n = Inr q \<Longrightarrow> ci_Unpad ci q = Inr p"
    and XOpen_XSeal: "length k = 32 \<Longrightarrow> length iv = 24 \<Longrightarrow> ci_XOpen ci k iv (ci_XSeal ci k iv p a) a = Ok p"

end
