(* ===== verification/Libsf_Vault.thy ===== *)
theory Libsf_Vault
  imports Libsf_Crypto
begin

text \<open>
  \<^verbatim>\<open>pkg/libsf/vault.go\<close>, \<^verbatim>\<open>vault3.go\<close> and \<^verbatim>\<open>vault4.go\<close>: the two formats of an encrypted secret. Each has
  sealing, unsealing, serializing and parsing; Go's interface \<^verbatim>\<open>vault\<close> is the locale \<open>secret_format\<close>, which
  states what a format promises (what was sealed and written is read and opened again), and of which both
  formats and the dispatch over them are instances.
\<close>

subsection \<open>Vaults\<close>

record vault3 =
  v3_version :: string
  v3_auth :: string
  v3_uuid :: string
  v3_iv :: string
  v3_ciphertext :: string
  v3_params :: "auth option"

record authdata =
  ad_from :: string
  ad_Version :: string
  ad_UserID :: string
  ad_KeyParams :: auth

record vault4 =
  v4_version :: string
  v4_nonce :: string
  v4_ciphertext :: string
  v4_rawauth :: string
  v4_auth :: authdata
  v4_additionaldata :: string

datatype vault = V3 vault3 | V4 vault4

text \<open>The JSON codecs of the parameters; Go's decoder leaves the unexported field \<open>from\<close> empty.\<close>

record codecs =
  js_MarshalAuth :: "auth \<Rightarrow> err + bytes"
  js_UnmarshalAuth :: "bytes \<Rightarrow> err + auth"
  js_UnmarshalData :: "bytes \<Rightarrow> err + authdata"

definition zero_auth :: auth where
  "zero_auth = \<lparr>au_Version = [], au_Identifier = [], au_Cost = 0, au_Nonce = [], au_Origination = []\<rparr>"

definition create_vault :: "string \<Rightarrow> string \<Rightarrow> (err, vault) outcome" where
  "create_vault version i =
     (if version = ProtocolVersion2 \<or> version = ProtocolVersion3
      then Ok (V3 \<lparr>v3_version = version, v3_auth = [], v3_uuid = i, v3_iv = [], v3_ciphertext = [], v3_params = None\<rparr>)
      else if version = ProtocolVersion4
      then Ok (V4 \<lparr>v4_version = version, v4_nonce = [], v4_ciphertext = [], v4_rawauth = [],
                   v4_auth = \<lparr>ad_from = [], ad_Version = version, ad_UserID = i, ad_KeyParams = zero_auth\<rparr>,
                   v4_additionaldata = []\<rparr>)
      else Err (ErrLib ''unsupported secret version''))"

subsection \<open>Protocol 003 and before\<close>

definition parse3 :: "codecs \<Rightarrow> string list \<Rightarrow> string \<Rightarrow> (err, vault3) outcome" where
  "parse3 js components i =
     (if length components < 5 \<or> 6 < length components then Err (ErrLib ''invalid secret format'')
      else if components ! 2 \<noteq> i then Err (ErrLib ''missmatch between key params UUID and item UUID'')
      else
        (let v = \<lparr>v3_version = components ! 0, v3_auth = components ! 1, v3_uuid = components ! 2,
                  v3_iv = components ! 3, v3_ciphertext = components ! 4, v3_params = None\<rparr>
         in if length components = 6
            then obind (wrap_err (Wrap ''could not decode params'') (b64_DecodeString (components ! 5))) (\<lambda>params.
                 obind (wrap_err (Wrap ''could not parse params'') (js_UnmarshalAuth js params)) (\<lambda>a.
                 Ok (v\<lparr>v3_params := Some a\<rparr>)))
            else Ok v))"

definition computeAuth :: "ciphers \<Rightarrow> vault3 \<Rightarrow> string \<Rightarrow> err + string" where
  "computeAuth ci v ak =
     (case hex_DecodeString ak of
        Inl e \<Rightarrow> Inl (Wrap ''could not decode AK'' e)
      | Inr dak \<Rightarrow>
          Inr (hex_encode (ci_HMAC ci dak
            (v3_version v @ '':'' @ v3_uuid v @ '':'' @ v3_iv v @ '':'' @ v3_ciphertext v))))"

definition seal3 :: "ciphers \<Rightarrow> keychain \<Rightarrow> bytes \<Rightarrow> vault3 \<Rightarrow> 'db world \<Rightarrow> (err, vault3) outcome \<times> 'db world" where
  "seal3 ci k payload v w =
     (case wrap_err (Wrap ''could not decode EK'') (hex_DecodeString (kc_MasterKey k)) of
        Err e \<Rightarrow> (Err e, w) | Panic x \<Rightarrow> (Panic x, w)
      | Ok dek \<Rightarrow>
          (case obind (wrap_err (Wrap ''could not create cipher'') (aes_NewCipher dek)) (\<lambda>_.
                  wrap_err (Wrap ''could not pkcs7 pad ciphertext'') (ci_Pad ci payload 16)) of
             Err e \<Rightarrow> (Err e, w) | Panic x \<Rightarrow> (Panic x, w)
           | Ok padded \<Rightarrow>
               (let (iv, w1) = GenerateRandomBytes 16 w
                in (obind (CryptBlocks cbc_encrypt (ci_AES_E ci dek) iv padded) (\<lambda>ciphertext.
                    let v1 = v\<lparr>v3_iv := hex_encode iv, v3_ciphertext := b64_EncodeToString ciphertext\<rparr>
                    in obind (wrap_err (Wrap ''authenticate'') (computeAuth ci v1 (kc_AuthKey k))) (\<lambda>a.
                       Ok (v1\<lparr>v3_auth := a\<rparr>))), w1))))"

definition unseal3 :: "ciphers \<Rightarrow> keychain \<Rightarrow> vault3 \<Rightarrow> (err, bytes) outcome" where
  "unseal3 ci k v =
     obind (wrap_err (Wrap ''authenticate'') (computeAuth ci v (kc_AuthKey k))) (\<lambda>localAuth.
     if localAuth \<noteq> v3_auth v then Err (ErrLib ''hash does not match'')
     else
       obind (wrap_err (Wrap ''could not decode EK'') (hex_DecodeString (kc_MasterKey k))) (\<lambda>dek.
       obind (wrap_err (Wrap ''could not decode IV'') (hex_DecodeString (v3_iv v))) (\<lambda>iv.
       obind (wrap_err (Wrap ''could not decode ciphertext'') (b64_DecodeString (v3_ciphertext v))) (\<lambda>ciphertext.
       obind (wrap_err (Wrap ''could not create cipher'') (aes_NewCipher dek)) (\<lambda>_.
       obind (CryptBlocks cbc_decrypt (ci_AES_D ci dek) iv ciphertext) (\<lambda>padded.
       wrap_err (Wrap ''could not pkcs7 unpad ciphertext'') (ci_Unpad ci padded)))))))"

definition serialize3 :: "codecs \<Rightarrow> vault3 \<Rightarrow> (err, string) outcome" where
  "serialize3 js v =
     (let parts = [v3_version v, v3_auth v, v3_uuid v, v3_iv v, v3_ciphertext v]
      in case v3_params v of
           None \<Rightarrow> Ok (join_with CHR '':'' parts)
         | Some a \<Rightarrow>
             obind (wrap_err (Wrap ''could not serialize params'') (js_MarshalAuth js a)) (\<lambda>b.
             Ok (join_with CHR '':'' (parts @ [b64_EncodeToString b]))))"

subsection \<open>Protocol 004\<close>

definition parse4 :: "codecs \<Rightarrow> string list \<Rightarrow> (err, vault4) outcome" where
  "parse4 js components =
     (if length components < 4 \<or> 5 < length components then Err (ErrLib ''invalid secret format'')
      else
        obind (wrap_err (Wrap ''could not decode params'') (b64_DecodeString (components ! 3))) (\<lambda>a.
        obind (wrap_err (Wrap ''could not parse params'') (js_UnmarshalData js a)) (\<lambda>d.
        Ok \<lparr>v4_version = components ! 0, v4_nonce = components ! 1, v4_ciphertext = components ! 2,
            v4_rawauth = components ! 3, v4_auth = d,
            v4_additionaldata = (if 4 < length components then components ! 4 else [])\<rparr>)))"

definition json_field :: "string \<Rightarrow> string \<Rightarrow> string" where
  "json_field key v = CHR 0x22 # key @ [CHR 0x22, CHR '':'', CHR 0x22] @ v @ [CHR 0x22]"

definition toSortedKeysJSON :: "authdata \<Rightarrow> bytes" where
  "toSortedKeysJSON d =
     (let kp = ad_KeyParams d;
          params = join_with CHR '','' [json_field ''identifier'' (au_Identifier kp),
                     json_field ''origination'' (au_Origination kp), json_field ''pw_nonce'' (au_Nonce kp),
                     json_field ''version'' (au_Version kp)];
          values = (if ad_from d = ''SN|ItemsKey''
                    then [CHR 0x22 # ''kp'' @ [CHR 0x22, CHR '':'', CHR 0x7B] @ params @ [CHR 0x7D]] else [])
                   @ [json_field ''u'' (ad_UserID d), json_field ''v'' (ad_Version d)]
      in CHR 0x7B # join_with CHR '','' values @ [CHR 0x7D])"

definition chacha_NewX :: "bytes \<Rightarrow> err + bytes" where
  "chacha_NewX key = (if length key = 32 then Inr key else Inl (ErrLib ''chacha20poly1305: bad key length''))"

definition seal4 :: "ciphers \<Rightarrow> keychain \<Rightarrow> bytes \<Rightarrow> vault4 \<Rightarrow> 'db world \<Rightarrow> (err, vault4) outcome \<times> 'db world" where
  "seal4 ci k payload v w =
     (case wrap_err (Wrap ''could not decode EK'') (hex_DecodeString (kc_MasterKey k)) of
        Err e \<Rightarrow> (Err e, w) | Panic x \<Rightarrow> (Panic x, w)
      | Ok dek \<Rightarrow>
          (let raw = b64_EncodeToString (toSortedKeysJSON (v4_auth v));
               (nonce, w1) = GenerateRandomBytes 24 w
           in (obind (wrap_err (Wrap ''could not create cipher'') (chacha_NewX dek)) (\<lambda>_.
               Ok (v\<lparr>v4_rawauth := raw, v4_nonce := hex_encode nonce,
                     v4_ciphertext := b64_EncodeToString (ci_XSeal ci dek nonce payload raw)\<rparr>)), w1)))"

definition unseal4 :: "ciphers \<Rightarrow> keychain \<Rightarrow> vault4 \<Rightarrow> (err, bytes) outcome" where
  "unseal4 ci k v =
     obind (wrap_err (Wrap ''could not decode EK'') (hex_DecodeString (kc_MasterKey k))) (\<lambda>dek.
     obind (wrap_err (Wrap ''could not decode nonce'') (hex_DecodeString (v4_nonce v))) (\<lambda>nonce.
     obind (wrap_err (Wrap ''could not decode ciphertext'') (b64_DecodeString (v4_ciphertext v))) (\<lambda>ciphertext.
     obind (wrap_err (Wrap ''could not create cipher'') (chacha_NewX dek)) (\<lambda>_.
     case ci_XOpen ci dek nonce ciphertext (v4_rawauth v) of
       Ok p \<Rightarrow> Ok p | Err e \<Rightarrow> Err (Wrap ''could not decrypt'' e) | Panic x \<Rightarrow> Panic x))))"

definition serialize4 :: "vault4 \<Rightarrow> (err, string) outcome" where
  "serialize4 v =
     (let parts = [v4_version v, v4_nonce v, v4_ciphertext v, v4_rawauth v]
      in Ok (join_with CHR '':'' (if v4_additionaldata v \<noteq> [] then parts @ [v4_additionaldata v] else parts)))"

subsection \<open>The interface\<close>

definition vault_seal :: "ciphers \<Rightarrow> keychain \<Rightarrow> bytes \<Rightarrow> vault \<Rightarrow> 'db world \<Rightarrow> (err, vault) outcome \<times> 'db world" where
  "vault_seal ci k payload v w =
     (case v of
        V3 a \<Rightarrow> map_prod (map_outcome_value V3) id (seal3 ci k payload a w)
      | V4 b \<Rightarrow> map_prod (map_outcome_value V4) id (seal4 ci k payload b w))"

definition vault_unseal :: "ciphers \<Rightarrow> keychain \<Rightarrow> vault \<Rightarrow> (err, bytes) outcome" where
  "vault_unseal ci k v = (case v of V3 a \<Rightarrow> unseal3 ci k a | V4 b \<Rightarrow> unseal4 ci k b)"

definition vault_serialize :: "codecs \<Rightarrow> vault \<Rightarrow> (err, string) outcome" where
  "vault_serialize js v = (case v of V3 a \<Rightarrow> serialize3 js a | V4 b \<Rightarrow> serialize4 b)"

text \<open>Splitting never gives no component at all, so the check for it is dead.\<close>

definition parse_vault :: "codecs \<Rightarrow> string \<Rightarrow> string \<Rightarrow> (err, vault) outcome" where
  "parse_vault js secret i =
     (let components = split_on CHR '':'' secret
      in if components = [] then Err (ErrLib ''invalid secret format/length'')
         else if hd components = ProtocolVersion2 \<or> hd components = ProtocolVersion3
         then map_outcome_value V3 (parse3 js components i)
         else if hd components = ProtocolVersion4 then map_outcome_value V4 (parse4 js components)
         else Err (ErrLib ''unsupported secret version''))"

subsection \<open>What a format promises\<close>

text \<open>
  \<open>ready i v\<close> is what a vault must satisfy before sealing for the item \<open>i\<close>; \<open>same\<close> says that two vaults
  agree on what unsealing reads.
\<close>

locale secret_format =
  fixes seal :: "keychain \<Rightarrow> bytes \<Rightarrow> 'v \<Rightarrow> 'db world \<Rightarrow> (err, 'v) outcome \<times> 'db world"
    and serialize :: "'v \<Rightarrow> (err, string) outcome"
    and parse :: "string \<Rightarrow> string \<Rightarrow> (err, 'v) outcome"
    and unseal :: "keychain \<Rightarrow> 'v \<Rightarrow> (err, bytes) outcome"
    and ready :: "string \<Rightarrow> 'v \<Rightarrow> bool"
    and same :: "'v \<Rightarrow> 'v \<Rightarrow> bool"
  assumes reads: "seal k p v w = (Ok v1, w1) \<Longrightarrow> ready i v \<Longrightarrow> serialize v1 = Ok s \<Longrightarrow>
        \<exists>v2. parse s i = Ok v2 \<and> same v1 v2"
    and opens: "seal k p v w = (Ok v1, w1) \<Longrightarrow> same v1 v2 \<Longrightarrow> unseal k v2 = Ok p"
begin

lemma round_trip:
  assumes "seal k p v w = (Ok v1, w1)" and "ready i v" and "serialize v1 = Ok s"
  shows "\<exists>v2. parse s i = Ok v2 \<and> unseal k v2 = Ok p"
  using reads [OF assms] opens [OF assms(1)] by blast

end

locale secrets = primitives ci for ci :: ciphers +
  fixes js :: codecs
  assumes Unmarshal_Marshal: "js_MarshalAuth js a = Inr b \<Longrightarrow> js_UnmarshalAuth js b = Inr a"

definition ready3 :: "string \<Rightarrow> vault3 \<Rightarrow> bool" where
  "ready3 i v \<longleftrightarrow> v3_version v \<in> {ProtocolVersion2, ProtocolVersion3} \<and> v3_uuid v = i \<and> CHR '':'' \<notin> set i"

definition ready4 :: "codecs \<Rightarrow> string \<Rightarrow> vault4 \<Rightarrow> bool" where
  "ready4 js i v \<longleftrightarrow> v4_version v = ProtocolVersion4 \<and> CHR '':'' \<notin> set (v4_additionaldata v)
     \<and> (\<exists>d. js_UnmarshalData js (toSortedKeysJSON (v4_auth v)) = Inr d)"

definition same4 :: "vault4 \<Rightarrow> vault4 \<Rightarrow> bool" where
  "same4 v v' \<longleftrightarrow> v4_version v' = v4_version v \<and> v4_nonce v' = v4_nonce v \<and> v4_ciphertext v' = v4_ciphertext v
     \<and> v4_rawauth v' = v4_rawauth v"

lemma protocol_versions_no_colon [simp]:
  "CHR '':'' \<notin> set ProtocolVersion2" "CHR '':'' \<notin> set ProtocolVersion3" "CHR '':'' \<notin> set ProtocolVersion4"
  by (simp_all add: ProtocolVersion2_def ProtocolVersion3_def ProtocolVersion4_def)

lemma seal3_Ok:
  assumes "seal3 ci k p v w = (Ok v1, w1)"
  obtains dek padded iv c a where "hex_DecodeString (kc_MasterKey k) = Inr dek" "aes_NewCipher dek = Inr dek"
    and "ci_Pad ci p 16 = Inr padded" "CryptBlocks cbc_encrypt (ci_AES_E ci dek) iv padded = Ok c"
    and "v1 = v\<lparr>v3_iv := hex_encode iv, v3_ciphertext := b64_EncodeToString c, v3_auth := hex_encode a\<rparr>"
    and "computeAuth ci v1 (kc_AuthKey k) = Inr (v3_auth v1)"
proof -
  obtain dek where dek: "hex_DecodeString (kc_MasterKey k) = Inr dek"
    using assms by (cases "hex_DecodeString (kc_MasterKey k)") (auto simp: seal3_def)
  obtain key padded where pad: "aes_NewCipher dek = Inr key" "ci_Pad ci p 16 = Inr padded"
    using assms dek
    by (cases "aes_NewCipher dek"; cases "ci_Pad ci p 16") (auto simp: seal3_def)
  then have "key = dek" by (auto simp: aes_NewCipher_def split: if_splits)
  let ?iv = "fst (GenerateRandomBytes 16 w)"
  let ?v = "\<lambda>c. v\<lparr>v3_iv := hex_encode ?iv, v3_ciphertext := b64_EncodeToString c\<rparr>"
  obtain c x where c: "CryptBlocks cbc_encrypt (ci_AES_E ci dek) ?iv padded = Ok c"
    and x: "computeAuth ci (?v c) (kc_AuthKey k) = Inr x" and v1: "v1 = (?v c)\<lparr>v3_auth := x\<rparr>"
    using assms dek pad by (auto simp: seal3_def Let_def split_beta)
  obtain a where "x = hex_encode a" using x by (auto simp: computeAuth_def split: sum.splits)
  moreover have "computeAuth ci v1 (kc_AuthKey k) = computeAuth ci (?v c) (kc_AuthKey k)"
    unfolding v1 by (simp add: computeAuth_def split: sum.splits)
  ultimately show thesis using that [OF dek _ pad(2) c, of a] pad(1) \<open>key = dek\<close> x v1 by simp
qed

context secrets
begin

lemma unseal3_seal3:
  assumes "seal3 ci k p v w = (Ok v1, w1)"
  shows "unseal3 ci k v1 = Ok p"
  using assms
proof (rule seal3_Ok)
  fix dek padded iv c a
  assume dek: "hex_DecodeString (kc_MasterKey k) = Inr dek" and key: "aes_NewCipher dek = Inr dek"
    and pad: "ci_Pad ci p 16 = Inr padded" and c: "CryptBlocks cbc_encrypt (ci_AES_E ci dek) iv padded = Ok c"
    and v1: "v1 = v\<lparr>v3_iv := hex_encode iv, v3_ciphertext := b64_EncodeToString c, v3_auth := hex_encode a\<rparr>"
    and auth: "computeAuth ci v1 (kc_AuthKey k) = Inr (v3_auth v1)"
  have "length dek \<in> {16, 24, 32}" using key by (auto simp: aes_NewCipher_def split: if_splits)
  then have "CryptBlocks cbc_decrypt (ci_AES_D ci dek) iv c = Ok padded"
    using AES_D_E AES_length c by (intro CryptBlocks_round_trip) auto
  then show ?thesis using auth dek key Unpad_Pad [OF pad] unfolding v1 by (simp add: unseal3_def)
qed

end

sublocale secrets \<subseteq> v3: secret_format "seal3 ci" "serialize3 js"
    "\<lambda>s i. parse3 js (split_on CHR '':'' s) i" "unseal3 ci" ready3 "(=)"
proof (unfold_locales, goal_cases)
  case (1 k p v w v1 w1 i s)
  from 1(1) show ?case
  proof (rule seal3_Ok)
    fix dek padded iv c a
    assume v1: "v1 = v\<lparr>v3_iv := hex_encode iv, v3_ciphertext := b64_EncodeToString c, v3_auth := hex_encode a\<rparr>"
    let ?parts = "[v3_version v1, v3_auth v1, v3_uuid v1, v3_iv v1, v3_ciphertext v1]"
    have colon: "\<forall>x \<in> set ?parts. CHR '':'' \<notin> set x"
      using 1(2) v1 encoded_no_colon by (auto simp: ready3_def)
    show ?case
    proof (cases "v3_params v1")
      case None
      then have "s = join_with CHR '':'' ?parts" using 1(3) by (simp add: serialize3_def del: join_with.simps)
      then have "split_on CHR '':'' s = ?parts" using colon by (simp only: split_on_join_with list.distinct not_False_eq_True)
      then show ?thesis using 1(2) v1 None by (simp add: parse3_def ready3_def)
    next
      case (Some auth)
      then obtain b where b: "js_MarshalAuth js auth = Inr b" "s = join_with CHR '':'' (?parts @ [b64_EncodeToString b])"
        using 1(3) by (auto simp: serialize3_def simp del: join_with.simps)
      have "\<forall>x \<in> set (?parts @ [b64_EncodeToString b]). CHR '':'' \<notin> set x" using colon encoded_no_colon by simp
      then have "split_on CHR '':'' s = ?parts @ [b64_EncodeToString b]"
        unfolding b(2) by (intro split_on_join_with) simp_all
      then show ?thesis using 1(2) v1 Some Unmarshal_Marshal [OF b(1)]
        by (simp add: parse3_def ready3_def)
    qed
  qed
next
  case (2 k p v w v1 w1 v2)
  then show ?case using unseal3_seal3 by simp
qed

lemma seal4_Ok:
  assumes "seal4 ci k p v w = (Ok v1, w1)"
  obtains dek nonce where "hex_DecodeString (kc_MasterKey k) = Inr dek" "length dek = 32" "length nonce = 24"
    and "v1 = v\<lparr>v4_rawauth := b64_EncodeToString (toSortedKeysJSON (v4_auth v)), v4_nonce := hex_encode nonce,
               v4_ciphertext := b64_EncodeToString (ci_XSeal ci dek nonce p
                 (b64_EncodeToString (toSortedKeysJSON (v4_auth v))))\<rparr>"
proof -
  obtain dek where dek: "hex_DecodeString (kc_MasterKey k) = Inr dek"
    using assms by (cases "hex_DecodeString (kc_MasterKey k)") (auto simp: seal4_def)
  let ?nonce = "fst (GenerateRandomBytes 24 w)"
  have "chacha_NewX dek = Inr dek \<and> v1 = v\<lparr>v4_rawauth := b64_EncodeToString (toSortedKeysJSON (v4_auth v)),
      v4_nonce := hex_encode ?nonce, v4_ciphertext := b64_EncodeToString (ci_XSeal ci dek ?nonce p
        (b64_EncodeToString (toSortedKeysJSON (v4_auth v))))\<rparr>"
    using assms dek by (auto simp: seal4_def Let_def split_beta chacha_NewX_def split: if_splits)
  then show thesis using that [OF dek, of ?nonce] by (auto simp: chacha_NewX_def split: if_splits)
qed

lemma same4_refl [simp]: "same4 v v"
  by (simp add: same4_def)

sublocale secrets \<subseteq> v4: secret_format "seal4 ci" serialize4
    "\<lambda>s i. parse4 js (split_on CHR '':'' s)" "unseal4 ci" "ready4 js" same4
proof (unfold_locales, goal_cases)
  case (1 k p v w v1 w1 i s)
  from 1(1) show ?case
  proof (rule seal4_Ok)
    fix dek nonce
    assume v1: "v1 = v\<lparr>v4_rawauth := b64_EncodeToString (toSortedKeysJSON (v4_auth v)), v4_nonce := hex_encode nonce,
               v4_ciphertext := b64_EncodeToString (ci_XSeal ci dek nonce p
                 (b64_EncodeToString (toSortedKeysJSON (v4_auth v))))\<rparr>"
    let ?parts = "[v4_version v1, v4_nonce v1, v4_ciphertext v1, v4_rawauth v1]
      @ (if v4_additionaldata v1 \<noteq> [] then [v4_additionaldata v1] else [])"
    have colon: "\<forall>x \<in> set ?parts. CHR '':'' \<notin> set x"
      using 1(2) v1 encoded_no_colon by (auto simp: ready4_def)
    have "s = join_with CHR '':'' ?parts" using 1(3) by (auto simp: serialize4_def Let_def simp del: join_with.simps)
    then have split: "split_on CHR '':'' s = ?parts" using colon by (simp only: split_on_join_with append_is_Nil_conv list.distinct simp_thms)
    obtain d where "js_UnmarshalData js (toSortedKeysJSON (v4_auth v)) = Inr d"
      using 1(2) by (auto simp: ready4_def)
    then have "js_UnmarshalData js (toSortedKeysJSON (v4_auth v)) = Inr d" .
    then show ?case unfolding split by (simp add: parse4_def same4_def v1)
  qed
next
  case (2 k p v w v1 w1 v2)
  from 2(1) show ?case
  proof (rule seal4_Ok)
    fix dek nonce
    assume key: "hex_DecodeString (kc_MasterKey k) = Inr dek" "length dek = 32" and "length nonce = 24"
      and "v1 = v\<lparr>v4_rawauth := b64_EncodeToString (toSortedKeysJSON (v4_auth v)), v4_nonce := hex_encode nonce,
               v4_ciphertext := b64_EncodeToString (ci_XSeal ci dek nonce p
                 (b64_EncodeToString (toSortedKeysJSON (v4_auth v))))\<rparr>"
    then show ?case using 2(2) XOpen_XSeal by (simp add: unseal4_def same4_def chacha_NewX_def)
  qed
qed

fun ready_vault :: "codecs \<Rightarrow> string \<Rightarrow> vault \<Rightarrow> bool" where
  "ready_vault js i (V3 a) = ready3 i a"
| "ready_vault js i (V4 b) = ready4 js i b"

fun same_vault :: "vault \<Rightarrow> vault \<Rightarrow> bool" where
  "same_vault (V3 a) (V3 a') = (a = a')"
| "same_vault (V4 b) (V4 b') = same4 b b'"
| "same_vault _ _ = False"

lemma serialize3_hd: "serialize3 js v = Ok s \<Longrightarrow> CHR '':'' \<notin> set (v3_version v) \<Longrightarrow> hd (split_on CHR '':'' s) = v3_version v"
  by (auto simp: serialize3_def Let_def split_on_append split: option.splits)

lemma serialize4_hd: "serialize4 v = Ok s \<Longrightarrow> CHR '':'' \<notin> set (v4_version v) \<Longrightarrow> hd (split_on CHR '':'' s) = v4_version v"
  by (auto simp: serialize4_def Let_def split_on_append split: if_splits)

lemma vault_seal_cases:
  assumes "vault_seal ci k p v w = (Ok v1, w1)"
  obtains a a1 where "v = V3 a" "v1 = V3 a1" "seal3 ci k p a w = (Ok a1, w1)"
    | b b1 where "v = V4 b" "v1 = V4 b1" "seal4 ci k p b w = (Ok b1, w1)"
  using assms by (cases v) (auto simp: vault_seal_def map_prod_def split: prod.splits)

text \<open>The dispatch over the formats is a format.\<close>

sublocale secrets \<subseteq> vaults: secret_format "vault_seal ci" "vault_serialize js" "parse_vault js" "vault_unseal ci"
    "ready_vault js" same_vault
proof (unfold_locales, goal_cases)
  case (1 k p v w v1 w1 i s)
  from 1(1) show ?case
  proof (cases rule: vault_seal_cases)
    case (1 a a1)
    then have ser: "serialize3 js a1 = Ok s" and rd: "ready3 i a" using \<open>vault_serialize js v1 = Ok s\<close> \<open>ready_vault js i v\<close>
      by (simp_all add: vault_serialize_def)
    have "v3_version a1 = v3_version a" using 1(3) by (rule seal3_Ok) simp
    then have "hd (split_on CHR '':'' s) \<in> {ProtocolVersion2, ProtocolVersion3}"
      using serialize3_hd [OF ser] rd by (auto simp: ready3_def)
    then show ?thesis using v3.reads [OF 1(3) rd ser] 1(2) by (auto simp: parse_vault_def)
  next
    case (2 b b1)
    then have ser: "serialize4 b1 = Ok s" and rd: "ready4 js i b" using \<open>vault_serialize js v1 = Ok s\<close> \<open>ready_vault js i v\<close>
      by (simp_all add: vault_serialize_def)
    have "v4_version b1 = v4_version b" using 2(3) by (rule seal4_Ok) simp
    then have "hd (split_on CHR '':'' s) = ProtocolVersion4" using serialize4_hd [OF ser] rd by (simp add: ready4_def)
    moreover have "ProtocolVersion4 \<noteq> ProtocolVersion2" "ProtocolVersion4 \<noteq> ProtocolVersion3"
      by (simp_all add: protocol_version_defs)
    ultimately show ?thesis using v4.reads [OF 2(3) rd ser] 2(2) by (auto simp: parse_vault_def)
  qed
next
  case (2 k p v w v1 w1 v2)
  from 2(1) show ?case
  proof (cases rule: vault_seal_cases)
    case (1 a a1)
    then show ?thesis using unseal3_seal3 [OF 1(3)] 2(2) by (cases v2) (auto simp: vault_unseal_def)
  next
    case (2 b b1)
    then show ?thesis using v4.opens \<open>same_vault v1 v2\<close> by (cases v2) (auto simp: vault_unseal_def)
  qed
qed

context secrets
begin

lemmas vault_round_trip = vaults.round_trip

end

end
