(* ===== verification/Libsf_Item.thy ===== *)
theory Libsf_Item
  imports Libsf_Vault
begin

text \<open>
  \<^verbatim>\<open>pkg/libsf/item.go\<close>: sealing a note into an item and unsealing it, over the two vaults of the item, the
  one of its key and the one of its content. A failed operation yields no item here: what it leaves half
  updated in memory is only read by a later operation that replaces it.
\<close>

record Note =
  nt_Title :: string
  nt_Text :: string
  nt_PreviewPlain :: string
  nt_PreviewHTML :: string
  nt_References :: bytes
  nt_AppData :: bytes

record citem =
  ct_ID :: string
  ct_CreatedAt :: "time option"
  ct_UpdatedAt :: "time option"
  ct_UserID :: string
  ct_Content :: string
  ct_ContentType :: string
  ct_ItemsKeyID :: string
  ct_EncryptedItemKey :: string
  ct_Deleted :: bool
  ct_Version :: string
  ct_AuthParams :: "auth option"
  ct_Note :: "Note option"
  ct_key :: "vault option"
  ct_content :: "vault option"

definition ContentTypeUserPreferences :: string where "ContentTypeUserPreferences = ''SN|UserPreferences''"
definition ContentTypeItemsKey :: string where "ContentTypeItemsKey = ''SN|ItemsKey''"
definition ContentTypeNote :: string where "ContentTypeNote = ''Note''"

text \<open>
  The JSON codecs of a note (a nil note is \<open>null\<close>) and of an items key; a decoder gives what it has read
  so far together with its error.
\<close>

record note_codecs = codecs +
  js_MarshalNote :: "Note option \<Rightarrow> err + bytes"
  js_UnmarshalNote :: "bytes \<Rightarrow> Note \<times> err option"
  js_UnmarshalItemsKey :: "bytes \<Rightarrow> string \<times> err option"

subsection \<open>The vaults of an item\<close>

definition keyKeyChain :: "keychain \<Rightarrow> citem \<Rightarrow> keychain" where
  "keyKeyChain k i =
     (if kc_Version k = ProtocolVersion4 \<and> ct_ContentType i \<noteq> ContentTypeItemsKey
      then empty_keychain\<lparr>kc_Version := kc_Version k,
             kc_MasterKey := (case kc_ItemsKey k of None \<Rightarrow> [] | Some m \<Rightarrow>
                                (case m (ct_ItemsKeyID i) of None \<Rightarrow> [] | Some key \<Rightarrow> key))\<rparr>
      else k)"

text \<open>\<open>setup\<close> of both formats; the type assertion on a nil interface panics.\<close>

fun vault_setup :: "citem \<Rightarrow> vault option \<Rightarrow> vault \<Rightarrow> (err, vault) outcome" where
  "vault_setup i old (V3 v) = Ok (V3 (v\<lparr>v3_params := ct_AuthParams i\<rparr>))"
| "vault_setup i old (V4 v) =
     (case ct_AuthParams i of
        None \<Rightarrow> Panic ''interface conversion''
      | Some a \<Rightarrow>
          Ok (V4 (v\<lparr>v4_auth := (v4_auth v)\<lparr>ad_KeyParams := a, ad_from := ct_ContentType i\<rparr>,
                    v4_additionaldata := (case old of Some (V4 o4) \<Rightarrow> v4_additionaldata o4 | _ \<Rightarrow> v4_additionaldata v)\<rparr>)))"

fun vault_configure :: "vault \<Rightarrow> citem \<Rightarrow> citem" where
  "vault_configure (V3 v) i = i\<lparr>ct_Version := v3_version v, ct_AuthParams := v3_params v\<rparr>"
| "vault_configure (V4 v) i = i\<lparr>ct_Version := v4_version v, ct_AuthParams := Some (ad_KeyParams (v4_auth v))\<rparr>"

text \<open>Creating a vault, setting it up, sealing and serializing: what \<open>Seal\<close> does for the key and for the content.\<close>

definition seal_part ::
  "ciphers \<Rightarrow> codecs \<Rightarrow> citem \<Rightarrow> vault option \<Rightarrow> keychain \<Rightarrow> bytes \<Rightarrow> string \<Rightarrow> string \<Rightarrow> 'db world
   \<Rightarrow> (err, vault \<times> string) outcome \<times> 'db world" where
  "seal_part ci js i old k payload no_vault what w =
     (case obind (case create_vault (ct_Version i) (ct_ID i) of
                    Ok v \<Rightarrow> Ok v | Err e \<Rightarrow> Err (Wrap no_vault e) | Panic x \<Rightarrow> Panic x) (vault_setup i old) of
        Err e \<Rightarrow> (Err e, w) | Panic x \<Rightarrow> (Panic x, w)
      | Ok v \<Rightarrow>
          (case vault_seal ci k payload v w of
             (Err e, w1) \<Rightarrow> (Err (Wrap what e), w1) | (Panic x, w1) \<Rightarrow> (Panic x, w1)
           | (Ok v1, w1) \<Rightarrow>
               (case vault_serialize js v1 of
                  Ok s \<Rightarrow> (Ok (v1, s), w1) | Err e \<Rightarrow> (Err (Wrap what e), w1) | Panic x \<Rightarrow> (Panic x, w1))))"

definition Item_Seal ::
  "ciphers \<Rightarrow> note_codecs \<Rightarrow> keychain \<Rightarrow> citem \<Rightarrow> 'db world \<Rightarrow> (err, citem) outcome \<times> 'db world" where
  "Item_Seal ci js k i w =
     (case GenerateItemEncryptionKey ci k w of
        (Inl e, w1) \<Rightarrow> (Err (Wrap ''could not generate encryption key'' e), w1)
      | (Inr ik, w1) \<Rightarrow>
          (case seal_part ci (codecs.truncate js) i (ct_key i) (keyKeyChain k i) ik
                  ''could not create vault'' ''EncryptedItemKey'' w1 of
             (Err e, w2) \<Rightarrow> (Err e, w2) | (Panic x, w2) \<Rightarrow> (Panic x, w2)
           | (Ok (kv, s), w2) \<Rightarrow>
               (let i1 = i\<lparr>ct_key := Some kv, ct_EncryptedItemKey := s\<rparr>
                in case js_MarshalNote js (ct_Note i1) of
                     Inl e \<Rightarrow> (Err (Wrap ''could not serialize note'' e), w2)
                   | Inr note \<Rightarrow>
                       (case seal_part ci (codecs.truncate js) i1 (ct_content i1) (contentKeyChain (ct_Version i1) ik) note
                               ''could not create content vault'' ''Content'' w2 of
                          (Err e, w3) \<Rightarrow> (Err e, w3) | (Panic x, w3) \<Rightarrow> (Panic x, w3)
                        | (Ok (cv, c), w3) \<Rightarrow> (Ok (i1\<lparr>ct_content := Some cv, ct_Content := c\<rparr>), w3)))))"

definition wrap_outcome :: "string \<Rightarrow> (err, 'a) outcome \<Rightarrow> (err, 'a) outcome" where
  "wrap_outcome msg r = (case r of Ok x \<Rightarrow> Ok x | Err e \<Rightarrow> Err (Wrap msg e) | Panic p \<Rightarrow> Panic p)"

lemma wrap_outcome_Ok [simp]: "wrap_outcome msg r = Ok x \<longleftrightarrow> r = Ok x"
  by (cases r) (simp_all add: wrap_outcome_def)

text \<open>
  \<open>Unseal\<close> returns the item and the keychain, which an items key extends; a nil map of items keys cannot be
  written to. \<open>errors.Wrap\<close> of no error is no error.
\<close>

definition Item_Unseal :: "ciphers \<Rightarrow> note_codecs \<Rightarrow> keychain \<Rightarrow> citem \<Rightarrow> (err, citem \<times> keychain) outcome" where
  "Item_Unseal ci js k i =
     (if ct_EncryptedItemKey i = [] then Err (ErrLib ''missing item encryption key'')
      else
        obind (wrap_outcome ''EncryptedItemKey'' (parse_vault (codecs.truncate js) (ct_EncryptedItemKey i) (ct_ID i))) (\<lambda>kv.
        let i1 = vault_configure kv (i\<lparr>ct_key := Some kv\<rparr>)
        in obind (wrap_outcome ''EncryptedItemKey'' (vault_unseal ci (keyKeyChain k i1) kv)) (\<lambda>ik.
           obind (wrap_outcome ''Content'' (parse_vault (codecs.truncate js) (ct_Content i1) (ct_ID i1))) (\<lambda>cv.
           let i2 = i1\<lparr>ct_content := Some cv\<rparr>
           in obind (wrap_outcome ''Content'' (vault_unseal ci (contentKeyChain (ct_Version i2) ik) cv)) (\<lambda>payload.
              if ct_ContentType i2 = ContentTypeItemsKey
              then (let (key, e) = js_UnmarshalItemsKey js payload
                    in case kc_ItemsKey k of
                         None \<Rightarrow> Panic ''assignment to entry in nil map''
                       | Some m \<Rightarrow>
                           (case e of
                              None \<Rightarrow> Ok (i2, k\<lparr>kc_ItemsKey := Some (m(ct_ID i2 \<mapsto> key))\<rparr>)
                            | Some e \<Rightarrow> Err (Wrap ''could not parse items key'' e)))
              else if ct_ContentType i2 = ContentTypeUserPreferences \<or> ct_ContentType i2 = ContentTypeNote
              then (let (n, e) = js_UnmarshalNote js payload
                    in case e of
                         None \<Rightarrow> Ok (i2\<lparr>ct_Note := Some n\<rparr>, k)
                       | Some e \<Rightarrow> Err (Wrap ''could not parse note'' e))
              else Err (ErrLib (''Unsupported unseal for '' @ ct_ContentType i2)))))))"

subsection \<open>Sealing and unsealing again\<close>

fun vault_version :: "vault \<Rightarrow> string" where
  "vault_version (V3 v) = v3_version v"
| "vault_version (V4 v) = v4_version v"

definition item_authdata :: "citem \<Rightarrow> auth \<Rightarrow> authdata" where
  "item_authdata i a =
     \<lparr>ad_from = ct_ContentType i, ad_Version = ct_Version i, ad_UserID = ct_ID i, ad_KeyParams = a\<rparr>"

text \<open>
  What the item and the vault it had before must satisfy: their parts have no colon, and the hand-written
  JSON of its parameters can be parsed.
\<close>

definition sealable :: "codecs \<Rightarrow> citem \<Rightarrow> vault option \<Rightarrow> bool" where
  "sealable js i old \<longleftrightarrow>
     CHR '':'' \<notin> set (ct_ID i)
     \<and> (case ct_AuthParams i of None \<Rightarrow> True
        | Some a \<Rightarrow> (case js_UnmarshalData js (toSortedKeysJSON (item_authdata i a)) of Inl _ \<Rightarrow> False | Inr _ \<Rightarrow> True))
     \<and> (case old of Some (V4 v) \<Rightarrow> CHR '':'' \<notin> set (v4_additionaldata v) | _ \<Rightarrow> True)"

lemma set_up_ready:
  assumes "create_vault (ct_Version i) (ct_ID i) = Ok v0" and "vault_setup i old v0 = Ok v" and "sealable js i old"
  shows "ready_vault js (ct_ID i) v \<and> vault_version v = ct_Version i"
proof (cases "ct_Version i = ProtocolVersion2 \<or> ct_Version i = ProtocolVersion3")
  case True
  then show ?thesis using assms by (auto simp: create_vault_def ready3_def sealable_def)
next
  case False
  then have v0: "ct_Version i = ProtocolVersion4" "v0 = V4 \<lparr>v4_version = ct_Version i, v4_nonce = [], v4_ciphertext = [],
      v4_rawauth = [], v4_auth = \<lparr>ad_from = [], ad_Version = ct_Version i, ad_UserID = ct_ID i, ad_KeyParams = zero_auth\<rparr>,
      v4_additionaldata = []\<rparr>"
    using assms(1) by (auto simp: create_vault_def split: if_splits)
  then obtain a where a: "ct_AuthParams i = Some a" using assms(2) by (cases "ct_AuthParams i") auto
  have "\<exists>d. js_UnmarshalData js (toSortedKeysJSON (item_authdata i a)) = Inr d"
    using assms(3) a by (auto simp: sealable_def split: sum.splits)
  moreover have "CHR '':'' \<notin> set (case old of Some (V4 o4) \<Rightarrow> v4_additionaldata o4 | _ \<Rightarrow> [])"
    using assms(3) by (auto simp: sealable_def split: option.splits vault.splits)
  moreover have "v = V4 \<lparr>v4_version = ct_Version i, v4_nonce = [], v4_ciphertext = [], v4_rawauth = [],
      v4_auth = item_authdata i a, v4_additionaldata = (case old of Some (V4 o4) \<Rightarrow> v4_additionaldata o4 | _ \<Rightarrow> [])\<rparr>"
    using assms(2) a v0(2) by (auto simp: item_authdata_def split: option.splits vault.splits)
  ultimately show ?thesis using v0(1) by (simp add: ready4_def)
qed

lemma vault_seal_version: "vault_seal ci k p v w = (Ok v1, w1) \<Longrightarrow> vault_version v1 = vault_version v"
  by (erule vault_seal_cases) (auto elim: seal3_Ok seal4_Ok)

lemma same_vault_version: "same_vault v v' \<Longrightarrow> vault_version v' = vault_version v"
  by (cases v; cases v') (auto simp: same4_def)

lemma seal_part_OkE:
  assumes "seal_part ci js i old k p a b w = (Ok (v1, s), w1)"
  obtains v0 v where "create_vault (ct_Version i) (ct_ID i) = Ok v0" "vault_setup i old v0 = Ok v"
    and "vault_seal ci k p v w = (Ok v1, w1)" "vault_serialize js v1 = Ok s"
proof -
  obtain v0 where v0: "create_vault (ct_Version i) (ct_ID i) = Ok v0"
    using assms by (cases "create_vault (ct_Version i) (ct_ID i)") (auto simp: seal_part_def)
  obtain v where v: "vault_setup i old v0 = Ok v"
    using assms v0 by (cases "vault_setup i old v0") (auto simp: seal_part_def)
  obtain r w2 where r: "vault_seal ci k p v w = (r, w2)" by force
  then obtain x where x: "r = Ok x" using assms v0 v by (cases r) (auto simp: seal_part_def)
  have res: "vault_serialize js x = Ok s \<and> x = v1 \<and> w2 = w1"
    using assms v0 v r x by (cases "vault_serialize js x") (auto simp: seal_part_def)
  show thesis by (rule that [OF v0 v]) (use res r x in auto)
qed

context secrets
begin

lemma seal_part_round_trip:
  assumes "seal_part ci js i old k p a b w = (Ok (v1, s), w1)" and "sealable js i old"
  shows "\<exists>v2. parse_vault js s (ct_ID i) = Ok v2 \<and> vault_unseal ci k v2 = Ok p \<and> vault_version v2 = ct_Version i"
  using assms(1)
proof (rule seal_part_OkE)
  fix v0 v assume v: "create_vault (ct_Version i) (ct_ID i) = Ok v0" "vault_setup i old v0 = Ok v"
    and seal: "vault_seal ci k p v w = (Ok v1, w1)" and ser: "vault_serialize js v1 = Ok s"
  have rd: "ready_vault js (ct_ID i) v \<and> vault_version v = ct_Version i" by (rule set_up_ready [OF v assms(2)])
  then obtain v2 where v2: "parse_vault js s (ct_ID i) = Ok v2" "same_vault v1 v2"
    using vaults.reads [OF seal _ ser] by blast
  then show ?thesis
    using vaults.opens [OF seal v2(2)] rd vault_seal_version [OF seal] same_vault_version [OF v2(2)] by auto
qed

end

lemma parse_vault_nonempty: "parse_vault js s i = Ok v \<Longrightarrow> s \<noteq> []"
  by (auto simp: parse_vault_def protocol_version_defs)

lemma vault_configure_fields [simp]:
  "ct_ID (vault_configure v i) = ct_ID i" "ct_Content (vault_configure v i) = ct_Content i"
  "ct_ContentType (vault_configure v i) = ct_ContentType i" "ct_ItemsKeyID (vault_configure v i) = ct_ItemsKeyID i"
  "ct_Version (vault_configure v i) = vault_version v"
  by (cases v; simp)+

lemma keyKeyChain_cong:
  "ct_ContentType i = ct_ContentType i' \<Longrightarrow> ct_ItemsKeyID i = ct_ItemsKeyID i' \<Longrightarrow> keyKeyChain k i = keyKeyChain k i'"
  unfolding keyKeyChain_def by (simp only:)

lemma Item_Seal_OkE:
  assumes "Item_Seal ci js k i w = (Ok i1, w1)"
  obtains ik w2 w3 kv s cv c payload where
    "seal_part ci (codecs.truncate js) i (ct_key i) (keyKeyChain k i) ik ''could not create vault'' ''EncryptedItemKey'' w2
       = (Ok (kv, s), w3)"
    and "js_MarshalNote js (ct_Note i) = Inr payload"
    and "seal_part ci (codecs.truncate js) (i\<lparr>ct_key := Some kv, ct_EncryptedItemKey := s\<rparr>) (ct_content i)
       (contentKeyChain (ct_Version i) ik) payload ''could not create content vault'' ''Content'' w3 = (Ok (cv, c), w1)"
    and "i1 = i\<lparr>ct_key := Some kv, ct_EncryptedItemKey := s, ct_content := Some cv, ct_Content := c\<rparr>"
proof -
  obtain g w2 where g: "GenerateItemEncryptionKey ci k w = (g, w2)" by force
  then obtain ik where ik: "g = Inr ik" using assms by (cases g) (auto simp: Item_Seal_def)
  obtain r w3 where r: "seal_part ci (codecs.truncate js) i (ct_key i) (keyKeyChain k i) ik
      ''could not create vault'' ''EncryptedItemKey'' w2 = (r, w3)" by force
  then obtain kv s where kv: "r = Ok (kv, s)" using assms g ik by (cases r) (auto simp: Item_Seal_def)
  obtain payload where p: "js_MarshalNote js (ct_Note i) = Inr payload"
    using assms g ik r kv by (cases "js_MarshalNote js (ct_Note i)") (auto simp: Item_Seal_def)
  let ?i = "i\<lparr>ct_key := Some kv, ct_EncryptedItemKey := s\<rparr>"
  obtain q w4 where q: "seal_part ci (codecs.truncate js) ?i (ct_content i) (contentKeyChain (ct_Version i) ik) payload
      ''could not create content vault'' ''Content'' w3 = (q, w4)" by force
  then obtain cv c where cv: "q = Ok (cv, c)" using assms g ik r kv p by (cases q) (auto simp: Item_Seal_def Let_def)
  show thesis using that [OF r [unfolded kv] p, of cv c] q cv assms g ik r kv p
    by (auto simp: Item_Seal_def Let_def)
qed

text \<open>Sealing reads random bytes and nothing else.\<close>

lemma GenerateRandomBytes_db [simp]: "w_db (snd (GenerateRandomBytes n w)) = w_db w"
  by (induction n arbitrary: w) (simp_all add: split_beta Let_def Rand_def)

lemma vault_seal_db [simp]: "w_db (snd (vault_seal ci k payload v w)) = w_db w"
  by (cases v) (auto simp: vault_seal_def seal3_def seal4_def split_beta Let_def split: outcome.splits)

lemma seal_part_db [simp]: "w_db (snd (seal_part ci js i old k payload m what w)) = w_db w"
proof -
  have "w_db w1 = w_db w" if "vault_seal ci k payload v w = (r, w1)" for v r w1
    using vault_seal_db [of ci k payload v w] that by simp
  then show ?thesis by (auto simp: seal_part_def split: outcome.splits prod.splits)
qed

lemma Item_Seal_db: "w_db (snd (Item_Seal ci js k i w)) = w_db w"
proof -
  have g: "w_db w1 = w_db w" if "GenerateItemEncryptionKey ci k w = (r, w1)" for r w1
    using that by (auto simp: GenerateItemEncryptionKey_def Let_def split: if_splits prod.splits)
      (metis GenerateRandomBytes_db snd_conv)+
  have p: "w_db w2 = w_db w1" if "seal_part ci js0 i1 old k1 payload m what w1 = (r, w2)"
    for js0 i1 old k1 payload m what w1 r w2
    using seal_part_db [of ci js0 i1 old k1 payload m what w1] that by simp
  show ?thesis by (auto simp: Item_Seal_def Let_def split: sum.splits outcome.splits prod.splits dest!: g p)
qed

lemma seal_unseal_note:
  assumes sec: "secrets ci (codecs.truncate js)" and seal: "Item_Seal ci js k i w = (Ok i1, w1)"
    and content: "ct_Note i = Some n" "ct_ContentType i \<in> {ContentTypeNote, ContentTypeUserPreferences}"
    and ok: "sealable (codecs.truncate js) i (ct_key i)" "sealable (codecs.truncate js) i (ct_content i)"
    and law: "\<And>b. js_MarshalNote js (Some n) = Inr b \<Longrightarrow> js_UnmarshalNote js b = (n, None)"
  shows "\<exists>i2. Item_Unseal ci js k i1 = Ok (i2, k) \<and> ct_Note i2 = Some n"
  using seal
proof (rule Item_Seal_OkE)
  let ?js = "codecs.truncate js"
  fix ik w2 w3 kv s cv c payload
  assume kseal: "seal_part ci ?js i (ct_key i) (keyKeyChain k i) ik ''could not create vault'' ''EncryptedItemKey'' w2
       = (Ok (kv, s), w3)"
    and p: "js_MarshalNote js (ct_Note i) = Inr payload"
    and cseal: "seal_part ci ?js (i\<lparr>ct_key := Some kv, ct_EncryptedItemKey := s\<rparr>) (ct_content i)
       (contentKeyChain (ct_Version i) ik) payload ''could not create content vault'' ''Content'' w3 = (Ok (cv, c), w1)"
    and i1: "i1 = i\<lparr>ct_key := Some kv, ct_EncryptedItemKey := s, ct_content := Some cv, ct_Content := c\<rparr>"
  obtain kv2 where kv2: "parse_vault ?js s (ct_ID i) = Ok kv2" "vault_unseal ci (keyKeyChain k i) kv2 = Ok ik"
      "vault_version kv2 = ct_Version i"
    using secrets.seal_part_round_trip [OF sec kseal ok(1)] by blast
  have "sealable ?js (i\<lparr>ct_key := Some kv, ct_EncryptedItemKey := s\<rparr>) (ct_content i)"
    using ok(2) by (simp add: sealable_def item_authdata_def split: option.splits)
  from secrets.seal_part_round_trip [OF sec cseal this] obtain cv2 where
    cv2: "parse_vault ?js c (ct_ID i) = Ok cv2" "vault_unseal ci (contentKeyChain (ct_Version i) ik) cv2 = Ok payload"
    by auto
  let ?i = "vault_configure kv2 (i1\<lparr>ct_key := Some kv2\<rparr>)"
  have kc: "keyKeyChain k ?i = keyKeyChain k i" by (rule keyKeyChain_cong) (simp_all add: i1)
  have "ct_ContentType i \<noteq> ContentTypeItemsKey"
    using content(2) by (auto simp: ContentTypeNote_def ContentTypeItemsKey_def ContentTypeUserPreferences_def)
  then have "Item_Unseal ci js k i1 = Ok (?i\<lparr>ct_content := Some cv2, ct_Note := Some n\<rparr>, k)"
    using kv2 cv2 kc content parse_vault_nonempty [OF kv2(1)] law [of payload] p
    by (auto simp: Item_Unseal_def i1 Let_def)
  then show ?thesis by simp
qed

subsection \<open>Moving a secret to another item\<close>

lemma parse_vault_any_ID:
  "hd (split_on CHR '':'' s) = ProtocolVersion4 \<Longrightarrow> parse_vault js s i = parse_vault js s j"
  by (simp add: parse_vault_def protocol_version_defs)

text \<open>Unsealing an item of protocol 004 commutes with giving it another ID.\<close>

lemma Item_Unseal_moved:
  assumes "hd (split_on CHR '':'' (ct_EncryptedItemKey i)) = ProtocolVersion4"
    and "hd (split_on CHR '':'' (ct_Content i)) = ProtocolVersion4" and "ct_ContentType i \<noteq> ContentTypeItemsKey"
  shows "Item_Unseal ci js k (i\<lparr>ct_ID := j\<rparr>)
    = map_outcome_value (\<lambda>(i2, k2). (i2\<lparr>ct_ID := j\<rparr>, k2)) (Item_Unseal ci js k i)"
proof (cases "ct_EncryptedItemKey i = []")
  case True
  then show ?thesis by (simp add: Item_Unseal_def)
next
  case False
  let ?i = "\<lambda>kv. vault_configure kv (i\<lparr>ct_key := Some kv\<rparr>)"
  have conf: "vault_configure kv (i\<lparr>ct_ID := j, ct_key := Some kv\<rparr>) = (?i kv)\<lparr>ct_ID := j\<rparr>" for kv
    by (cases kv) simp_all
  have kc: "keyKeyChain k ((?i kv)\<lparr>ct_ID := j\<rparr>) = keyKeyChain k (?i kv)" for kv
    by (rule keyKeyChain_cong) simp_all
  note ids = parse_vault_any_ID [OF assms(1), of "codecs.truncate js" j "ct_ID i"]
    parse_vault_any_ID [OF assms(2), of "codecs.truncate js" j "ct_ID i"]
  show ?thesis
  proof (cases "parse_vault (codecs.truncate js) (ct_EncryptedItemKey i) (ct_ID i)")
    case (Ok kv)
    note kv = Ok
    show ?thesis
    proof (cases "vault_unseal ci (keyKeyChain k (?i kv)) kv")
      case (Ok ik)
      note ik = Ok
      show ?thesis
      proof (cases "parse_vault (codecs.truncate js) (ct_Content i) (ct_ID i)")
        case (Ok cv)
        then show ?thesis using False ids kv ik assms(3)
          by (cases "vault_unseal ci (contentKeyChain (vault_version kv) ik) cv")
            (simp_all add: Item_Unseal_def wrap_outcome_def conf kc Let_def split_beta split: option.split)
      qed (use False ids kv ik in \<open>simp_all add: Item_Unseal_def wrap_outcome_def conf kc\<close>)
    qed (use False ids kv in \<open>simp_all add: Item_Unseal_def wrap_outcome_def conf kc\<close>)
  qed (use False ids in \<open>simp_all add: Item_Unseal_def wrap_outcome_def\<close>)
qed

lemma seal_part_hd:
  assumes "seal_part ci js i old k p a b w = (Ok (v1, s), w1)" and "ct_Version i = ProtocolVersion4"
  shows "hd (split_on CHR '':'' s) = ProtocolVersion4"
  using assms(1)
proof (rule seal_part_OkE)
  fix v0 v
  assume v0: "create_vault (ct_Version i) (ct_ID i) = Ok v0" "vault_setup i old v0 = Ok v"
    and seal: "vault_seal ci k p v w = (Ok v1, w1)" and ser: "vault_serialize js v1 = Ok s"
  have "\<exists>x. v0 = V4 x \<and> v4_version x = ProtocolVersion4"
    using v0(1) assms(2) by (auto simp: create_vault_def protocol_version_defs)
  then obtain y where y: "v = V4 y" "v4_version y = ProtocolVersion4"
    using v0(2) by (auto split: option.splits)
  from seal show ?thesis
  proof (cases rule: vault_seal_cases)
    case (2 b b1)
    have "v4_version b1 = v4_version b" using 2(3) by (rule seal4_Ok) simp
    then show ?thesis using 2 y ser serialize4_hd [of b1 s] by (simp add: vault_serialize_def)
  qed (use y in simp)
qed

end
