(* ===== verification/Libsf_Client.thy ===== *)
theory Libsf_Client
  imports Libsf_Item
begin

text \<open>
  \<^verbatim>\<open>pkg/libsf/session.go\<close>, \<^verbatim>\<open>error.go\<close> and \<^verbatim>\<open>client.go\<close>: the session of a client and its requests to a
  server. What is on the other side (the network and the file system) is the first component of the world;
  URLs, HTTP and JSON are parameters.
\<close>

subsection \<open>Sessions\<close>

record csession =
  cs_AccessToken :: string
  cs_RefreshToken :: string
  cs_AccessExpiration :: time
  cs_RefreshExpiration :: time

definition zero_session :: csession where
  "zero_session = \<lparr>cs_AccessToken = [], cs_RefreshToken = [], cs_AccessExpiration = zero_time, cs_RefreshExpiration = zero_time\<rparr>"

definition Defined :: "csession \<Rightarrow> bool" where
  "Defined s \<longleftrightarrow> cs_AccessToken s \<noteq> [] \<and> cs_RefreshToken s \<noteq> []
     \<and> \<not> IsZero (cs_AccessExpiration s) \<and> \<not> IsZero (cs_RefreshExpiration s)"

definition AccessExpiredAt :: "csession \<Rightarrow> time \<Rightarrow> bool" where
  "AccessExpiredAt s t \<longleftrightarrow> \<not> Defined s \<or> cs_AccessExpiration s < t"

definition AccessExpired :: "csession \<Rightarrow> 'n world \<Rightarrow> bool \<times> 'n world" where
  "AccessExpired s w = (let (now, w1) = Now w in (AccessExpiredAt s now, w1))"

definition RefreshExpired :: "csession \<Rightarrow> 'n world \<Rightarrow> bool \<times> 'n world" where
  "RefreshExpired s w =
     (if \<not> Defined s then (True, w) else (let (now, w1) = Now w in (cs_RefreshExpiration s < now, w1)))"

text \<open>The JSON form of a session has its instants in milliseconds.\<close>

record session_json =
  sj_AccessToken :: string
  sj_RefreshToken :: string
  sj_AccessExpiration :: int
  sj_RefreshExpiration :: int

definition session_MarshalJSON :: "csession \<Rightarrow> session_json" where
  "session_MarshalJSON s =
     \<lparr>sj_AccessToken = cs_AccessToken s, sj_RefreshToken = cs_RefreshToken s,
      sj_AccessExpiration = UnixMilli (cs_AccessExpiration s), sj_RefreshExpiration = UnixMilli (cs_RefreshExpiration s)\<rparr>"

definition session_UnmarshalJSON :: "session_json \<Rightarrow> csession" where
  "session_UnmarshalJSON j =
     \<lparr>cs_AccessToken = sj_AccessToken j, cs_RefreshToken = sj_RefreshToken j,
      cs_AccessExpiration = time_of_milli (sj_AccessExpiration j), cs_RefreshExpiration = time_of_milli (sj_RefreshExpiration j)\<rparr>"

subsection \<open>Requests\<close>

record http_request =
  hq_Method :: string
  hq_URL :: string
  hq_Body :: "bytes option"
  hq_Authorization :: "string option"

record http_response =
  hs_StatusCode :: int
  hs_Status :: string
  hs_Body :: bytes

text \<open>The lists of a synchronisation are lists of pointers, which a server can make nil.\<close>

record sync_items =
  si_API :: string
  si_ComputeIntegrity :: bool
  si_Limit :: int
  si_SyncToken :: string
  si_CursorToken :: string
  si_ContentType :: string
  si_Items :: "citem option list"
  si_Retrieved :: "citem option list"
  si_Saved :: "citem option list"
  si_Unsaved :: "(citem \<times> string \<times> string) option list"
  si_Conflicts :: "(citem \<times> citem \<times> string) option list"

definition NewSyncItems :: sync_items where
  "NewSyncItems = \<lparr>si_API = [], si_ComputeIntegrity = False, si_Limit = 0, si_SyncToken = [], si_CursorToken = [],
     si_ContentType = [], si_Items = [], si_Retrieved = [], si_Saved = [], si_Unsaved = [], si_Conflicts = []\<rparr>"

text \<open>
  \<open>ht_URL endpoint path query\<close> is the endpoint parsed, with the path joined and the query set. Decoders
  give what they have read so far together with their error; that of the synchronisation decodes into the
  request.
\<close>

record 'n http_lib =
  ht_Parse :: "string \<Rightarrow> err + unit"
  ht_URL :: "string \<Rightarrow> string \<Rightarrow> (string \<times> string) list \<Rightarrow> err + string"
  ht_NewRequest :: "string \<Rightarrow> string \<Rightarrow> err + unit"
  ht_Do :: "http_request \<Rightarrow> 'n \<Rightarrow> (err + http_response) \<times> 'n"
  ht_MarshalMap :: "(string \<times> string) list \<Rightarrow> err + bytes"
  ht_MarshalSync :: "sync_items \<Rightarrow> err + bytes"
  ht_DecodeSync :: "bytes \<Rightarrow> sync_items \<Rightarrow> sync_items \<times> err option"
  ht_DecodeError :: "bytes \<Rightarrow> err + string"
  ht_DecodeAuth :: "bytes \<Rightarrow> auth \<times> err option"
  ht_DecodeLogin :: "bytes \<Rightarrow> (string \<times> csession) \<times> err option"
  ht_DecodeSession :: "bytes \<Rightarrow> csession \<times> err option"

record client =
  cl_apiversion :: string
  cl_endpoint :: string
  cl_bearer :: string
  cl_session :: csession

definition parseSFError :: "'n http_lib \<Rightarrow> bytes \<Rightarrow> int \<Rightarrow> err" where
  "parseSFError ht body code =
     (case ht_DecodeError ht body of Inl e \<Rightarrow> e | Inr message \<Rightarrow> SFError code [] message)"

text \<open>
  The steps every request takes: build the URL, the body and the request, perform it, and turn a status of
  400 or more into an error.
\<close>

definition send ::
  "'n http_lib \<Rightarrow> client \<Rightarrow> string \<Rightarrow> string \<Rightarrow> (string \<times> string) list \<Rightarrow> (err + bytes) option \<Rightarrow> bool
   \<Rightarrow> 'n world \<Rightarrow> (err + bytes) \<times> 'n world" where
  "send ht c verb path query body authorized w =
     (case ht_URL ht (cl_endpoint c) path query of
        Inl e \<Rightarrow> (Inl (Wrap ''could not parse endpoint'' e), w)
      | Inr u \<Rightarrow>
          (case (case body of None \<Rightarrow> Inr None | Some (Inl e) \<Rightarrow> Inl e | Some (Inr b) \<Rightarrow> Inr (Some b)) of
             Inl e \<Rightarrow> (Inl e, w)
           | Inr b \<Rightarrow>
               (case ht_NewRequest ht verb u of
                  Inl e \<Rightarrow> (Inl (Wrap ''could not build request'' e), w)
                | Inr _ \<Rightarrow>
                    (let rq = \<lparr>hq_Method = verb, hq_URL = u, hq_Body = b,
                               hq_Authorization = (if authorized then Some (''Bearer '' @ cl_bearer c) else None)\<rparr>;
                         (r, n) = ht_Do ht rq (w_db w);
                         w1 = w\<lparr>w_db := n\<rparr>
                     in case r of
                          Inl e \<Rightarrow> (Inl (Wrap ''could not perform request'' e), w1)
                        | Inr res \<Rightarrow>
                            if 400 \<le> hs_StatusCode res
                            then (Inl (parseSFError ht (hs_Body res) (hs_StatusCode res)), w1)
                            else (Inr (hs_Body res), w1)))))"

definition NewClient :: "'n http_lib \<Rightarrow> string \<Rightarrow> string \<Rightarrow> client \<times> err option" where
  "NewClient ht apiversion endpoint =
     (\<lparr>cl_apiversion = apiversion, cl_endpoint = endpoint, cl_bearer = [], cl_session = zero_session\<rparr>,
      (case ht_Parse ht endpoint of Inl e \<Rightarrow> Some (Wrap ''could not parse endpoint'' e) | Inr _ \<Rightarrow> None))"

definition SetBearerToken :: "string \<Rightarrow> client \<Rightarrow> client" where
  "SetBearerToken token c = c\<lparr>cl_bearer := token\<rparr>"

definition SetSession :: "csession \<Rightarrow> client \<Rightarrow> client" where
  "SetSession s c = c\<lparr>cl_session := s, cl_bearer := cs_AccessToken s\<rparr>"

definition wrap_opt :: "string \<Rightarrow> err option \<Rightarrow> err option" where
  "wrap_opt msg e = map_option (Wrap msg) e"

definition GetAuthParams :: "'n http_lib \<Rightarrow> client \<Rightarrow> string \<Rightarrow> 'n world \<Rightarrow> (err + auth) \<times> 'n world" where
  "GetAuthParams ht c email w =
     (case send ht c ''GET'' ''/auth/params'' [(''email'', email)] None False w of
        (Inl e, w1) \<Rightarrow> (Inl e, w1)
      | (Inr body, w1) \<Rightarrow>
          (case ht_DecodeAuth ht body of
             (a, None) \<Rightarrow> (Inr a, w1)
           | (_, Some e) \<Rightarrow> (Inl (Wrap ''could not parse response'' e), w1)))"

text \<open>The client takes what was decoded also when the decoder has given an error.\<close>

definition client_Login ::
  "'n http_lib \<Rightarrow> string \<Rightarrow> string \<Rightarrow> client \<Rightarrow> 'n world \<Rightarrow> err option \<times> client \<times> 'n world" where
  "client_Login ht email pw c w =
     (let body = (case ht_MarshalMap ht [(''api'', cl_apiversion c), (''email'', email), (''password'', pw)] of
                    Inl e \<Rightarrow> Inl (Wrap ''could not serialize email & password'' e) | Inr b \<Rightarrow> Inr b)
      in case send ht c ''POST'' ''/auth/sign_in'' [] (Some body) False w of
           (Inl e, w1) \<Rightarrow> (Some e, c, w1)
         | (Inr res, w1) \<Rightarrow>
             (case ht_DecodeLogin ht res of
                ((token, session), e) \<Rightarrow>
                  (let c1 = c\<lparr>cl_bearer := token\<rparr>;
                       c2 = (if Defined session then SetSession session c1 else c1)
                   in (wrap_opt ''could not parse response'' e, c2, w1))))"

definition client_Logout :: "'n http_lib \<Rightarrow> client \<Rightarrow> 'n world \<Rightarrow> err option \<times> 'n world" where
  "client_Logout ht c w =
     (if \<not> Defined (cl_session c) then (Some (ErrLib ''no session defined''), w)
      else case send ht c ''POST'' ''/auth/sign_out'' [] None True w of
             (Inl e, w1) \<Rightarrow> (Some e, w1)
           | (Inr _, w1) \<Rightarrow> (None, w1))"

definition RefreshSession ::
  "'n http_lib \<Rightarrow> client \<Rightarrow> string \<Rightarrow> string \<Rightarrow> 'n world \<Rightarrow> (err + csession) \<times> 'n world" where
  "RefreshSession ht c access refresh w =
     (let body = (case ht_MarshalMap ht [(''access_token'', access), (''refresh_token'', refresh)] of
                    Inl e \<Rightarrow> Inl (Wrap ''could not serialize refresh session data'' e) | Inr b \<Rightarrow> Inr b)
      in case send ht c ''POST'' ''/session/refresh'' [] (Some body) True w of
           (Inl e, w1) \<Rightarrow> (Inl e, w1)
         | (Inr res, w1) \<Rightarrow>
             (case ht_DecodeSession ht res of
                (s, None) \<Rightarrow> (Inr s, w1)
              | (_, Some e) \<Rightarrow> (Inl (Wrap ''could not parse response'' e), w1)))"

definition SyncItems ::
  "'n http_lib \<Rightarrow> client \<Rightarrow> sync_items \<Rightarrow> 'n world \<Rightarrow> sync_items \<times> err option \<times> 'n world" where
  "SyncItems ht c items w =
     (let items1 = items\<lparr>si_API := cl_apiversion c\<rparr>;
          body = (case ht_MarshalSync ht items1 of
                    Inl e \<Rightarrow> Inl (Wrap ''could not serialize sync data'' e) | Inr b \<Rightarrow> Inr b)
      in case send ht c ''POST'' ''/items/sync'' [] (Some body) True w of
           (Inl e, w1) \<Rightarrow>
             (case ht_URL ht (cl_endpoint c) ''/items/sync'' [] of
                Inl _ \<Rightarrow> (items, Some e, w1) | Inr _ \<Rightarrow> (items1, Some e, w1))
         | (Inr res, w1) \<Rightarrow>
             (case ht_DecodeSync ht res items1 of
                (items2, e) \<Rightarrow> (items2, wrap_opt ''could not parse response'' e, w1)))"

subsection \<open>What is sent\<close>

text \<open>A network that remembers the requests.\<close>

definition logged :: "'n http_lib \<Rightarrow> ('n \<times> http_request list) http_lib" where
  "logged ht =
     \<lparr>ht_Parse = ht_Parse ht, ht_URL = ht_URL ht, ht_NewRequest = ht_NewRequest ht,
      ht_Do = (\<lambda>rq (n, rqs). let (r, n1) = ht_Do ht rq n in (r, (n1, rqs @ [rq]))),
      ht_MarshalMap = ht_MarshalMap ht, ht_MarshalSync = ht_MarshalSync ht, ht_DecodeSync = ht_DecodeSync ht,
      ht_DecodeError = ht_DecodeError ht, ht_DecodeAuth = ht_DecodeAuth ht, ht_DecodeLogin = ht_DecodeLogin ht,
      ht_DecodeSession = ht_DecodeSession ht\<rparr>"

text \<open>
  A synchronisation sends one request at most, which has the client's bearer token and the items as its body, under
  the client's version of the API; when it succeeds it has sent it.
\<close>

definition sync_request :: "'n http_lib \<Rightarrow> client \<Rightarrow> sync_items \<Rightarrow> http_request \<Rightarrow> bool" where
  "sync_request ht c items rq \<longleftrightarrow>
     (\<exists>u body. ht_URL ht (cl_endpoint c) ''/items/sync'' [] = Inr u
        \<and> ht_MarshalSync ht (items\<lparr>si_API := cl_apiversion c\<rparr>) = Inr body
        \<and> rq = \<lparr>hq_Method = ''POST'', hq_URL = u, hq_Body = Some body,
                hq_Authorization = Some (''Bearer '' @ cl_bearer c)\<rparr>)"

lemma SyncItems_sends:
  assumes "SyncItems (logged ht) c items w = (items1, e, w1)"
  shows "e \<noteq> None \<and> snd (w_db w1) = snd (w_db w)
    \<or> (\<exists>rq. sync_request ht c items rq \<and> snd (w_db w1) = snd (w_db w) @ [rq])"
  using assms
  by (auto simp: SyncItems_def send_def logged_def sync_request_def wrap_opt_def split_beta Let_def split: sum.splits if_splits)

end
