(* ===== verification/Client_Files.thy ===== *)
theory Client_Files
  imports Libsf_Client
begin

text \<open>
  What the client commands of \<^verbatim>\<open>internal/client\<close> find outside: the files of the current directory, which
  any operation on them may fail to reach, and the rest (the terminal and the network). The commands write
  a file in three steps (create, write, sync), and a failed write may have written a part.
\<close>

record 'n outside =
  o_files :: "string \<rightharpoonup> bytes"
  o_fault :: "nat \<Rightarrow> (err \<times> nat) option"
  o_fileops :: nat
  o_net :: 'n

text \<open>The next file operation: the fault it meets, and the world after it.\<close>

definition file_op :: "'n outside world \<Rightarrow> (err \<times> nat) option \<times> 'n outside world" where
  "file_op w = (o_fault (w_db w) (o_fileops (w_db w)), w\<lparr>w_db := (w_db w)\<lparr>o_fileops := Suc (o_fileops (w_db w))\<rparr>\<rparr>)"

definition set_file :: "string \<Rightarrow> bytes option \<Rightarrow> 'n outside world \<Rightarrow> 'n outside world" where
  "set_file name b w = w\<lparr>w_db := (w_db w)\<lparr>o_files := (o_files (w_db w))(name := b)\<rparr>\<rparr>"

definition os_ReadFile :: "string \<Rightarrow> 'n outside world \<Rightarrow> (err + bytes) \<times> 'n outside world" where
  "os_ReadFile name w =
     (let (fault, w1) = file_op w
      in case fault of
           Some (e, n) \<Rightarrow> (Inl e, w1)
         | None \<Rightarrow>
             (case o_files (w_db w1) name of
                None \<Rightarrow> (Inl (ErrLib ''no such file or directory''), w1)
              | Some b \<Rightarrow> (Inr b, w1)))"

definition os_Create :: "string \<Rightarrow> 'n outside world \<Rightarrow> err option \<times> 'n outside world" where
  "os_Create name w =
     (let (fault, w1) = file_op w
      in case fault of Some (e, n) \<Rightarrow> (Some e, w1) | None \<Rightarrow> (None, set_file name (Some []) w1))"

text \<open>Writing to a file that was just created.\<close>

definition os_Write :: "string \<Rightarrow> bytes \<Rightarrow> 'n outside world \<Rightarrow> err option \<times> 'n outside world" where
  "os_Write name b w =
     (let (fault, w1) = file_op w
      in case fault of
           Some (e, n) \<Rightarrow> (Some e, set_file name (Some (take n b)) w1)
         | None \<Rightarrow> (None, set_file name (Some b) w1))"

definition os_Sync :: "'n outside world \<Rightarrow> err option \<times> 'n outside world" where
  "os_Sync w = (let (fault, w1) = file_op w in (map_option fst fault, w1))"

definition os_Remove :: "string \<Rightarrow> 'n outside world \<Rightarrow> err option \<times> 'n outside world" where
  "os_Remove name w =
     (let (fault, w1) = file_op w
      in case fault of
           Some (e, n) \<Rightarrow> (Some e, w1)
         | None \<Rightarrow>
             (if o_files (w_db w1) name = None then (Some (ErrLib ''no such file or directory''), w1)
              else (None, set_file name None w1)))"

text \<open>Creating a file, writing it and syncing it, each failure with its message.\<close>

definition write_file ::
  "string \<Rightarrow> string \<Rightarrow> string \<Rightarrow> string \<Rightarrow> bytes \<Rightarrow> 'n outside world \<Rightarrow> err option \<times> 'n outside world" where
  "write_file no_create no_write no_sync name b w =
     (case os_Create name w of
        (Some e, w1) \<Rightarrow> (Some (Wrap no_create e), w1)
      | (None, w1) \<Rightarrow>
          (case os_Write name b w1 of
             (Some e, w2) \<Rightarrow> (Some (Wrap no_write e), w2)
           | (None, w2) \<Rightarrow> (let (e, w3) = os_Sync w2 in (wrap_opt no_sync e, w3))))"

lemma file_op_fields [simp]:
  "o_files (w_db (snd (file_op w))) = o_files (w_db w)" "o_net (w_db (snd (file_op w))) = o_net (w_db w)"
  "o_fault (w_db (snd (file_op w))) = o_fault (w_db w)" "fst (file_op w) = o_fault (w_db w) (o_fileops (w_db w))"
  by (simp_all add: file_op_def)

lemma set_file_fields [simp]:
  "o_files (w_db (set_file name b w)) = (o_files (w_db w))(name := b)" "o_net (w_db (set_file name b w)) = o_net (w_db w)"
  by (simp_all add: set_file_def)

lemma os_ReadFile_files [simp]: "w_db (snd (os_ReadFile name w)) = w_db (snd (file_op w))"
  by (auto simp: os_ReadFile_def split_beta Let_def split: option.split)

lemma os_ReadFile_Inr_iff:
  "fst (os_ReadFile name w) = Inr b \<longleftrightarrow> o_fault (w_db w) (o_fileops (w_db w)) = None \<and> o_files (w_db w) name = Some b"
  by (auto simp: os_ReadFile_def split_beta Let_def split: option.split)

lemma write_file_ok:
  "write_file a b c name p w = (None, w1) \<Longrightarrow> o_files (w_db w1) = (o_files (w_db w))(name \<mapsto> p)"
  by (auto simp: write_file_def os_Create_def os_Write_def os_Sync_def wrap_opt_def split_beta Let_def split: option.splits)

lemma write_file_others:
  "x \<noteq> name \<Longrightarrow> o_files (w_db (snd (write_file a b c name p w))) x = o_files (w_db w) x"
  by (auto simp: write_file_def os_Create_def os_Write_def os_Sync_def split_beta Let_def split: option.splits)

subsection \<open>The terminal and the network\<close>

definition net_world :: "'n outside world \<Rightarrow> 'n world" where
  "net_world w = \<lparr>w_db = o_net (w_db w), w_clock = w_clock w, w_ticks = w_ticks w, w_uuid = w_uuid w,
     w_uuids = w_uuids w, w_rand = w_rand w, w_rands = w_rands w, w_prng = w_prng w\<rparr>"

definition with_net :: "'n outside world \<Rightarrow> 'n world \<Rightarrow> 'n outside world" where
  "with_net w n = \<lparr>w_db = (w_db w)\<lparr>o_net := w_db n\<rparr>, w_clock = w_clock n, w_ticks = w_ticks n, w_uuid = w_uuid n,
     w_uuids = w_uuids n, w_rand = w_rand n, w_rands = w_rands n, w_prng = w_prng n\<rparr>"

text \<open>An operation that does not touch files.\<close>

definition on_net :: "('n world \<Rightarrow> 'a \<times> 'n world) \<Rightarrow> 'n outside world \<Rightarrow> 'a \<times> 'n outside world" where
  "on_net f w = (let (x, n) = f (net_world w) in (x, with_net w n))"

lemma on_net_files [simp]: "o_files (w_db (snd (on_net f w))) = o_files (w_db w)"
  by (simp add: on_net_def with_net_def split_beta)

lemma fst_on_net [simp]: "fst (on_net f w) = fst (f (net_world w))"
  by (simp add: on_net_def split_beta)

lemma with_net_net_world [simp]: "with_net w (net_world w) = w"
  by (simp add: with_net_def net_world_def)

lemma on_net_frame: "on_net f w = (x, w1) \<Longrightarrow> o_files (w_db w1) = o_files (w_db w)"
  using on_net_files [of f w] by simp

text \<open>
  \<open>li_Line\<close> and \<open>li_Password\<close> are the prompts of the readline package, \<open>li_Random\<close> the random bytes of the
  argon2 package.
\<close>

record 'n prompts =
  li_Line :: "string \<Rightarrow> 'n \<Rightarrow> (err + string) \<times> 'n"
  li_Password :: "string \<Rightarrow> 'n \<Rightarrow> (err + string) \<times> 'n"
  li_Random :: "nat \<Rightarrow> 'n \<Rightarrow> (err + bytes) \<times> 'n"

definition ask :: "('n \<Rightarrow> (err + string) \<times> 'n) \<Rightarrow> 'n outside world \<Rightarrow> (err + string) \<times> 'n outside world" where
  "ask f = on_net (\<lambda>w. let (r, n) = f (w_db w) in (r, w\<lparr>w_db := n\<rparr>))"

lemma fst_ask [simp]: "fst (ask f w) = fst (f (o_net (w_db w)))"
  by (simp add: ask_def net_world_def split_beta Let_def)

lemma ask_files [simp]: "o_files (w_db (snd (ask f w))) = o_files (w_db w)"
  by (simp add: ask_def)

lemma ask_frame: "ask f w = (x, w1) \<Longrightarrow> o_files (w_db w1) = o_files (w_db w)"
  using ask_files [of f w] by simp

locale prompter =
  fixes li :: "('n, 'z) prompts_scheme"
  assumes Random_length: "fst (li_Random li n x) = Inr b \<Longrightarrow> length b = n"

end
