(* ===== verification/Server_Command.thy ===== *)
theory Server_Command
  imports Server_Properties Client_Files
begin

text \<open>
  \<^verbatim>\<open>cmd/standardfile/main.go\<close>: the commands of the server, from the configuration file to the running
  engine, and the parts of \<^verbatim>\<open>internal/database/storm.go\<close> and \<^verbatim>\<open>internal/server/server.go\<close> they start: opening,
  initialising and reindexing the database, and what the controller makes of the configuration. The
  configuration library, the key derivation, the storage and the listeners are parameters.
\<close>

subsection \<open>Paths\<close>

text \<open>\<open>filepath.Clean\<close> element by element, the elements kept so far in reverse.\<close>

fun clean_elements :: "bool \<Rightarrow> string list \<Rightarrow> string list \<Rightarrow> string list" where
  "clean_elements rooted out [] = rev out"
| "clean_elements rooted out (e # es) =
     (if e = [] \<or> e = ''.'' then clean_elements rooted out es
      else if e = ''..''
      then (if out \<noteq> [] \<and> hd out \<noteq> ''..'' then clean_elements rooted (tl out) es
            else if rooted then clean_elements rooted out es
            else clean_elements rooted (e # out) es)
      else clean_elements rooted (e # out) es)"

definition filepath_Clean :: "string \<Rightarrow> string" where
  "filepath_Clean p =
     (if p = [] then ''.''
      else let rooted = (hd p = CHR ''/'');
               body = join_with CHR ''/'' (clean_elements rooted [] (split_on CHR ''/'' p))
           in if rooted then CHR ''/'' # body else if body = [] then ''.'' else body)"

definition filepath_Join :: "string list \<Rightarrow> string" where
  "filepath_Join elems =
     (case dropWhile (\<lambda>e. e = []) elems of [] \<Rightarrow> [] | es \<Rightarrow> filepath_Clean (join_with CHR ''/'' es))"

subsection \<open>What the commands use\<close>

text \<open>A loaded configuration by key; the \<open>Must\<close> accessors panic on a missing value.\<close>

record konf =
  ko_Bytes :: "string \<Rightarrow> bytes"
  ko_String :: "string \<Rightarrow> string"
  ko_Bool :: "string \<Rightarrow> bool"
  ko_Int :: "string \<Rightarrow> int"
  ko_MustStrings :: "string \<Rightarrow> (err, string list) outcome"
  ko_MustDuration :: "string \<Rightarrow> (err, duration) outcome"

datatype stored_model = M_User | M_Item

text \<open>
  \<open>ll_HKDF k n\<close> are \<open>n\<close> bytes derived from the key \<open>k\<close> with HKDF over BLAKE2b. \<open>ll_Open\<close> opens a database,
  \<open>ll_Init\<close> and \<open>ll_ReIndex\<close> work on the index of a type, and \<open>ll_Serve\<close> runs an engine on a listener
  until it ends with an error.
\<close>

record ('db, 'v, 'n) launch_lib =
  ll_Load :: "string \<Rightarrow> 'n outside world \<Rightarrow> (err + konf) \<times> 'n outside world"
  ll_Getenv :: "string \<Rightarrow> string"
  ll_HKDF :: "bytes \<Rightarrow> nat \<Rightarrow> err + bytes"
  ll_Open :: "string \<Rightarrow> 'n outside world \<Rightarrow> (err + 'db storm) \<times> 'n outside world"
  ll_Init :: "stored_model \<Rightarrow> 'db storm \<Rightarrow> 'n outside world \<Rightarrow> err option \<times> 'n outside world"
  ll_ReIndex :: "stored_model \<Rightarrow> 'db storm \<Rightarrow> 'n outside world \<Rightarrow> err option \<times> 'n outside world"
  ll_Close :: "'db storm \<Rightarrow> 'n outside world \<Rightarrow> 'n outside world"
  ll_Engine :: "('db, 'v) server"
  ll_Listen :: "string \<Rightarrow> string \<Rightarrow> 'n outside world \<Rightarrow> err option \<times> 'n outside world"
  ll_Chmod :: "string \<Rightarrow> nat \<Rightarrow> 'n outside world \<Rightarrow> err option \<times> 'n outside world"
  ll_Serve :: "('db, 'v) server \<Rightarrow> string \<Rightarrow> 'n outside world \<Rightarrow> err option \<times> 'n outside world"
  ll_Start :: "('db, 'v) server \<Rightarrow> string \<Rightarrow> 'n outside world \<Rightarrow> err option \<times> 'n outside world"

subsection \<open>The database\<close>

definition dbname :: string where "dbname = ''standardfile.db''"

definition dbnameWithPath :: "string \<Rightarrow> string" where
  "dbnameWithPath path = (if length path = 0 then dbname else filepath_Join [path, dbname])"

definition StormOpen :: "('db, 'v, 'n) launch_lib \<Rightarrow> string \<Rightarrow> 'n outside world \<Rightarrow> (err + 'db storm) \<times> 'n outside world" where
  "StormOpen ll database w =
     (case ll_Open ll database w of
        (Inl e, w1) \<Rightarrow> (Inl (Wrap ''could not get database connection'' e), w1)
      | (Inr db, w1) \<Rightarrow> (Inr db, w1))"

definition StormInit :: "('db, 'v, 'n) launch_lib \<Rightarrow> string \<Rightarrow> 'n outside world \<Rightarrow> err option \<times> 'n outside world" where
  "StormInit ll database w =
     (case ll_Open ll database w of
        (Inl e, w1) \<Rightarrow> (Some (Wrap ''could not get database connection'' e), w1)
      | (Inr db, w1) \<Rightarrow>
          (case ll_Init ll M_User db w1 of
             (Some e, w2) \<Rightarrow> (Some (Wrap ''could not init user index'' e), w2)
           | (None, w2) \<Rightarrow>
               (let (e, w3) = ll_Init ll M_Item db w2 in (wrap_opt ''could not init item index'' e, w3))))"

definition StormReIndex :: "('db, 'v, 'n) launch_lib \<Rightarrow> string \<Rightarrow> 'n outside world \<Rightarrow> err option \<times> 'n outside world" where
  "StormReIndex ll database w =
     (case ll_Open ll database w of
        (Inl e, w1) \<Rightarrow> (Some (Wrap ''could not get database connection'' e), w1)
      | (Inr db, w1) \<Rightarrow>
          (case ll_ReIndex ll M_User db w1 of
             (Some e, w2) \<Rightarrow> (Some (Wrap ''could not ReIndex users'' e), w2)
           | (None, w2) \<Rightarrow>
               (let (e, w3) = ll_ReIndex ll M_Item db w2 in (wrap_opt ''could not ReIndex items'' e, w3))))"

text \<open>The commands \<^verbatim>\<open>init\<close> and \<^verbatim>\<open>reindex\<close>: load the configuration, then work on the database it names.\<close>

definition on_database ::
  "('db, 'v, 'n) launch_lib \<Rightarrow> (string \<Rightarrow> 'n outside world \<Rightarrow> err option \<times> 'n outside world) \<Rightarrow> string
   \<Rightarrow> 'n outside world \<Rightarrow> err option \<times> 'n outside world" where
  "on_database ll work cfg w =
     (case ll_Load ll cfg w of
        (Inl e, w1) \<Rightarrow> (Some e, w1)
      | (Inr konf, w1) \<Rightarrow> work (dbnameWithPath (ko_String konf ''database_path'')) w1)"

definition initCmd :: "('db, 'v, 'n) launch_lib \<Rightarrow> string \<Rightarrow> 'n outside world \<Rightarrow> err option \<times> 'n outside world" where
  "initCmd ll = on_database ll (StormInit ll)"

definition reindexCmd :: "('db, 'v, 'n) launch_lib \<Rightarrow> string \<Rightarrow> 'n outside world \<Rightarrow> err option \<times> 'n outside world" where
  "reindexCmd ll = on_database ll (StormReIndex ll)"

subsection \<open>The keys\<close>

definition kdf :: "('db, 'v, 'n) launch_lib \<Rightarrow> nat \<Rightarrow> bytes \<Rightarrow> (err, bytes) outcome" where
  "kdf ll l k = (case ll_HKDF ll k l of Inl e \<Rightarrow> Panic (err_Error e) | Inr payload \<Rightarrow> Ok payload)"

definition keyFromConfig ::
  "('db, 'v, 'n) launch_lib \<Rightarrow> konf \<Rightarrow> string \<Rightarrow> 'n outside world \<Rightarrow> (err + bytes) \<times> 'n outside world" where
  "keyFromConfig ll konf path w =
     (if 0 < length (ko_Bytes konf path) then (Inr (ko_Bytes konf path), w)
      else let credsDir = ll_Getenv ll ''CREDENTIALS_DIRECTORY''
           in if credsDir = [] then (Inl (ErrLib ''not found''), w)
              else (case os_ReadFile (filepath_Join [credsDir, path]) w of
                      (Inl e, w1) \<Rightarrow> (Inl (Wrap ''file read'' e), w1)
                    | (Inr out, w1) \<Rightarrow> if length out = 0 then (Inl (ErrLib ''file empty''), w1) else (Inr out, w1)))"

subsection \<open>The controller\<close>

record 'db controller =
  co_Version :: string
  co_Database :: "'db storm"
  co_NoRegistration :: bool
  co_ShowRealVersion :: bool
  co_SubscriptionPayload :: bytes
  co_FeaturesPayload :: bytes
  co_AllowOrigins :: "string list"
  co_AllowMethods :: "string list"
  co_SigningKey :: bytes
  co_SessionSecret :: bytes
  co_AccessTokenExpirationTime :: duration
  co_RefreshTokenExpirationTime :: duration

text \<open>\<open>session.NewManager\<close>, and the engine of a controller; \<open>lib\<close> has what other packages provide.\<close>

definition NewManager :: "bytes \<Rightarrow> bytes \<Rightarrow> duration \<Rightarrow> duration \<Rightarrow> manager" where
  "NewManager signingKey sessionSecret accessTokenExpirationTime refreshTokenExpirationTime =
     \<lparr>mg_signingKey = signingKey, mg_sessionSecret = sessionSecret,
      mg_accessTokenExpirationTime = accessTokenExpirationTime,
      mg_refreshTokenExpirationTime = refreshTokenExpirationTime\<rparr>"

definition engine_of :: "('db, 'v) server \<Rightarrow> 'db controller \<Rightarrow> ('db, 'v) server" where
  "engine_of lib ctrl =
     lib\<lparr>sv_Database := co_Database ctrl,
         sv_Sessions := NewManager (co_SigningKey ctrl) (co_SessionSecret ctrl)
           (co_AccessTokenExpirationTime ctrl) (co_RefreshTokenExpirationTime ctrl),
         sv_Version := co_Version ctrl, sv_NoRegistration := co_NoRegistration ctrl,
         sv_ShowRealVersion := co_ShowRealVersion ctrl,
         sv_SubscriptionPayload := co_SubscriptionPayload ctrl, sv_FeaturesPayload := co_FeaturesPayload ctrl\<rparr>"

subsection \<open>The server\<close>

definition subscription_files ::
  "konf \<Rightarrow> 'n outside world \<Rightarrow> (err + bytes \<times> bytes) \<times> 'n outside world" where
  "subscription_files konf w =
     (if ko_String konf ''subscription_file'' = [] then (Inr ([], []), w)
      else (case os_ReadFile (ko_String konf ''subscription_file'') w of
              (Inl e, w1) \<Rightarrow> (Inl (Wrap ''could not read subscription_file'' e), w1)
            | (Inr subscription, w1) \<Rightarrow>
                (case os_ReadFile (ko_String konf ''features_file'') w1 of
                   (Inl e, w2) \<Rightarrow> (Inl (Wrap ''could not read features_file'' e), w2)
                 | (Inr features, w2) \<Rightarrow> (Inr (subscription, features), w2))))"

text \<open>The fields of the controller are evaluated in this order; a missing setting panics.\<close>

definition controller_of ::
  "('db, 'v, 'n) launch_lib \<Rightarrow> string \<Rightarrow> konf \<Rightarrow> bytes \<Rightarrow> bytes \<Rightarrow> 'db storm \<Rightarrow> bytes \<times> bytes
   \<Rightarrow> (err, 'db controller) outcome" where
  "controller_of ll version konf key secret db files =
     obind (ko_MustStrings konf ''cors.allow_origins'') (\<lambda>origins.
     obind (ko_MustStrings konf ''cors.allow_methods'') (\<lambda>methods.
     obind (kdf ll 32 secret) (\<lambda>session_secret.
     obind (ko_MustDuration konf ''session.access_token_ttl'') (\<lambda>access.
     obind (ko_MustDuration konf ''session.refresh_token_ttl'') (\<lambda>refresh.
       Ok \<lparr>co_Version = version, co_Database = db, co_NoRegistration = ko_Bool konf ''no_registration'',
           co_ShowRealVersion = ko_Bool konf ''show_real_version'', co_SubscriptionPayload = fst files,
           co_FeaturesPayload = snd files, co_AllowOrigins = origins, co_AllowMethods = methods,
           co_SigningKey = key, co_SessionSecret = session_secret,
           co_AccessTokenExpirationTime = access, co_RefreshTokenExpirationTime = refresh\<rparr>)))))"

text \<open>
  Everything up to the engine: its controller and the configuration, or why there is none; the database is
  closed again when it was opened.
\<close>

definition prepare_server ::
  "('db, 'v, 'n) launch_lib \<Rightarrow> string \<Rightarrow> string \<Rightarrow> 'n outside world
   \<Rightarrow> (err, 'db controller \<times> konf) outcome \<times> 'n outside world" where
  "prepare_server ll version cfg w =
     (case ll_Load ll cfg w of
        (Inl e, w1) \<Rightarrow> (Err e, w1)
      | (Inr konf, w1) \<Rightarrow>
     (case keyFromConfig ll konf ''secret_key'' w1 of
        (Inl e, w2) \<Rightarrow> (Err (Wrap ''secret key'' e), w2)
      | (Inr key, w2) \<Rightarrow>
     (case keyFromConfig ll konf ''session.secret'' w2 of
        (Inl e, w3) \<Rightarrow> (Err (Wrap ''session secret'' e), w3)
      | (Inr secret, w3) \<Rightarrow>
     (case StormOpen ll (dbnameWithPath (ko_String konf ''database_path'')) w3 of
        (Inl e, w4) \<Rightarrow> (Err (Wrap ''could not open database'' e), w4)
      | (Inr db, w4) \<Rightarrow>
     (case subscription_files konf w4 of
        (Inl e, w5) \<Rightarrow> (Err e, ll_Close ll db w5)
      | (Inr files, w5) \<Rightarrow>
     (case controller_of ll version konf key secret db files of
        Ok ctrl \<Rightarrow> (Ok (ctrl, konf), w5)
      | Err e \<Rightarrow> (Err e, ll_Close ll db w5)
      | Panic x \<Rightarrow> (Panic x, ll_Close ll db w5)))))))"

text \<open>\<open>os.Stat\<close> without an error, that is, on a file that is there.\<close>

definition os_Stat_ok :: "string \<Rightarrow> 'n outside world \<Rightarrow> bool \<times> 'n outside world" where
  "os_Stat_ok name w =
     (let (fault, w1) = file_op w in (fault = None \<and> o_files (w_db w1) name \<noteq> None, w1))"

text \<open>
  Serving on a socket: an old socket file is removed, the new one gets its mode, and is removed at the end. The
  mode is a number of 32 bits; the message has it in octal, as \<^verbatim>\<open>%#o\<close> prints it.
\<close>

fun oct_digits :: "nat \<Rightarrow> string" where
  "oct_digits n = (if n < 8 then [digit_char n] else oct_digits (n div 8) @ [digit_char (n mod 8)])"

declare oct_digits.simps [simp del]

definition sharp_octal :: "nat \<Rightarrow> string" where
  "sharp_octal n = (if n = 0 then ''0'' else CHR ''0'' # oct_digits n)"

definition serve_unix ::
  "('db, 'v, 'n) launch_lib \<Rightarrow> ('db, 'v) server \<Rightarrow> konf \<Rightarrow> string \<Rightarrow> 'n outside world
   \<Rightarrow> err option \<times> 'n outside world" where
  "serve_unix ll engine konf socketFile w =
     (let (there, w1) = os_Stat_ok socketFile w;
          w2 = (if there then snd (os_Remove socketFile w1) else w1);
          (r, w3) =
            (case ll_Listen ll ''unix'' socketFile w2 of
               (Some e, w3) \<Rightarrow> (Some e, w3)
             | (None, w3) \<Rightarrow>
                 (let mode = ko_Int konf ''socket_mode'';
                      fmode = nat (mode mod 2 ^ 32);
                      (chmod, w4) = (if mode \<noteq> 0 then ll_Chmod ll socketFile fmode w3 else (None, w3))
                  in case chmod of
                       Some e \<Rightarrow> (Some (Wrap (''chmod '' @ socketFile @ '' '' @ sharp_octal fmode) e), w4)
                     | None \<Rightarrow>
                         (let (e, w5) = ll_Serve ll engine socketFile w4
                          in (wrap_opt ''could not run server'' e, w5))))
      in (r, snd (os_Remove socketFile w3)))"

definition serverCmd ::
  "('db, 'v, 'n) launch_lib \<Rightarrow> string \<Rightarrow> string \<Rightarrow> 'n outside world \<Rightarrow> (err, unit) outcome \<times> 'n outside world" where
  "serverCmd ll version cfg w =
     (case prepare_server ll version cfg w of
        (Err e, w1) \<Rightarrow> (Err e, w1)
      | (Panic x, w1) \<Rightarrow> (Panic x, w1)
      | (Ok (ctrl, konf), w1) \<Rightarrow>
          (let engine = engine_of (ll_Engine ll) ctrl;
               address = ko_String konf ''address'';
               parts = split_on CHR '':'' address;
               (e, w2) =
                 (if length parts = 2 \<and> parts ! 0 = ''unix'' then serve_unix ll engine konf (parts ! 1) w1
                  else (let (e, w2) = ll_Start ll engine address w1 in (wrap_opt ''could not run server'' e, w2)))
           in (case e of None \<Rightarrow> Ok () | Some e \<Rightarrow> Err e, ll_Close ll (co_Database ctrl) w2)))"

subsection \<open>The command line\<close>

text \<open>
  \<open>main\<close>: \<open>cfg\<close> is the value of the flag, \<open>args\<close> the other arguments; \<open>other\<close> is what the command line library does
  when they name none of the three commands (help, version, completion and errors). The version text has the first
  seven characters of the revision; \<open>go\<close> is the version of the runtime.
\<close>

definition version_text :: "string \<Rightarrow> string \<Rightarrow> string \<Rightarrow> string \<Rightarrow> string" where
  "version_text version revision date go =
     version @ '' - build '' @ take 7 revision @ '' @ '' @ date @ '' - '' @ go"

definition standardfile_main ::
  "('db, 'v, 'n) launch_lib \<Rightarrow> string \<Rightarrow> (string list \<Rightarrow> err option) \<Rightarrow> string \<Rightarrow> string list \<Rightarrow> 'n outside world
   \<Rightarrow> int \<times> 'n outside world" where
  "standardfile_main ll version other cfg args w =
     (let of_err = (\<lambda>e. case e of None \<Rightarrow> Ok () | Some e \<Rightarrow> Err e);
          (r, w1) =
            (if args = [''init''] then map_prod of_err id (initCmd ll cfg w)
             else if args = [''reindex''] then map_prod of_err id (reindexCmd ll cfg w)
             else if args = [''server''] then serverCmd ll version cfg w
             else (of_err (other args), w))
      in (exit_code r, w1))"

subsection \<open>The printed routes\<close>

text \<open>
  \<open>server.PrintRoutes\<close>: a line per route, sorted by path; \<open>srt\<close> is \<^verbatim>\<open>sort.Slice\<close>. The routes of an engine
  come in no particular order, with those its groups add for themselves, which are left out.
\<close>

definition ignored_routes :: "string list" where
  "ignored_routes = [[], ''.'', ''/*'', ''/v1'', ''/v1/*'', ''/v2'', ''/v2/*'']"

definition route_line :: "route \<Rightarrow> string" where
  "route_line r = replicate (6 - length (ro_Method r)) CHR '' '' @ ro_Method r @ '' '' @ ro_Path r"

definition PrintRoutes :: "((route \<Rightarrow> route \<Rightarrow> bool) \<Rightarrow> route list \<Rightarrow> route list) \<Rightarrow> route list \<Rightarrow> string list" where
  "PrintRoutes srt routes =
     ''Routes:'' # map route_line (filter (\<lambda>r. ro_Path r \<notin> set ignored_routes) (srt (\<lambda>a b. ro_Path a < ro_Path b) routes))"

text \<open>Every route of the server is printed, once, and nothing else is.\<close>

lemma PrintRoutes_complete:
  assumes "\<And>less rs. mset (srt less rs) = mset rs" and "mset routes = mset (EchoEngine sv) + mset extra"
    and "\<And>r. r \<in> set extra \<Longrightarrow> ro_Path r \<in> set ignored_routes"
  shows "mset (tl (PrintRoutes srt routes)) = image_mset route_line (mset (EchoEngine sv))"
proof -
  let ?P = "\<lambda>r. ro_Path r \<notin> set ignored_routes"
  have own: "\<forall>r \<in> set (EchoEngine sv). ?P r"
    by (auto simp: EchoEngine_def open_route_def restricted_route_def ignored_routes_def)
  have "mset (filter ?P (srt (\<lambda>a b. ro_Path a < ro_Path b) routes)) = filter_mset ?P (mset (EchoEngine sv)) + filter_mset ?P (mset extra)"
    by (simp add: assms(1,2))
  also have "filter_mset ?P (mset extra) = {#}" using assms(3) by (simp add: filter_empty_conv flip: mset_filter)
  also have "filter_mset ?P (mset (EchoEngine sv)) = mset (EchoEngine sv)"
    using own by (simp flip: mset_filter)
  finally show ?thesis by (simp add: PrintRoutes_def)
qed

subsection \<open>Lemmas\<close>

text \<open>
  A key at a path of the configuration: the value there, or, when there is none, the contents of the file of that
  name in the directory of the credentials.
\<close>

definition configured ::
  "('db, 'v, 'n) launch_lib \<Rightarrow> konf \<Rightarrow> (string \<rightharpoonup> bytes) \<Rightarrow> string \<Rightarrow> bytes \<Rightarrow> bool" where
  "configured ll konf files path k \<longleftrightarrow>
     k \<noteq> []
     \<and> (if ko_Bytes konf path \<noteq> [] then k = ko_Bytes konf path
        else ll_Getenv ll ''CREDENTIALS_DIRECTORY'' \<noteq> []
             \<and> files (filepath_Join [ll_Getenv ll ''CREDENTIALS_DIRECTORY'', path]) = Some k)"

lemma keyFromConfig_Inr:
  assumes "keyFromConfig ll konf path w = (Inr k, w')"
  shows "configured ll konf (o_files (w_db w)) path k"
proof (cases "ko_Bytes konf path = []")
  case True
  let ?f = "filepath_Join [ll_Getenv ll ''CREDENTIALS_DIRECTORY'', path]"
  have "fst (os_ReadFile ?f w) = Inr k \<and> k \<noteq> []"
    using assms True by (auto simp: keyFromConfig_def Let_def split: if_splits sum.splits prod.splits)
  moreover have "ll_Getenv ll ''CREDENTIALS_DIRECTORY'' \<noteq> []"
    using assms True by (auto simp: keyFromConfig_def Let_def split: if_splits)
  ultimately show ?thesis using True by (auto simp: os_ReadFile_Inr_iff configured_def)
qed (use assms in \<open>auto simp: keyFromConfig_def configured_def\<close>)

lemma keyFromConfig_files:
  "keyFromConfig ll konf path w = (r, w') \<Longrightarrow> o_files (w_db w') = o_files (w_db w)"
  using os_ReadFile_files [of _ w]
  by (auto simp: keyFromConfig_def Let_def split: if_splits sum.splits prod.splits)
    (metis file_op_fields(1) os_ReadFile_files snd_conv)+

lemma prepare_server_Ok:
  assumes "prepare_server ll version cfg w = (Ok (ctrl, konf), w')"
  obtains w1 w2 w3 secret files where "ll_Load ll cfg w = (Inr konf, w1)"
    and "keyFromConfig ll konf ''secret_key'' w1 = (Inr (co_SigningKey ctrl), w2)"
    and "keyFromConfig ll konf ''session.secret'' w2 = (Inr secret, w3)"
    and "ll_HKDF ll secret 32 = Inr (co_SessionSecret ctrl)"
    and "co_NoRegistration ctrl = ko_Bool konf ''no_registration''"
    and "ko_MustStrings konf ''cors.allow_origins'' = Ok (co_AllowOrigins ctrl)"
    and "ko_MustDuration konf ''session.access_token_ttl'' = Ok (co_AccessTokenExpirationTime ctrl)"
    and "ko_MustDuration konf ''session.refresh_token_ttl'' = Ok (co_RefreshTokenExpirationTime ctrl)"
  using assms
  by (auto simp: prepare_server_def controller_of_def kdf_def split: prod.splits sum.splits outcome.splits)

subsection \<open>Example\<close>

text \<open>
  A configuration without the signing key, which is a credential of the service manager, and without
  registration.
\<close>

definition desk_konf :: konf where
  "desk_konf =
     \<lparr>ko_Bytes = (\<lambda>p. if p = ''session.secret'' then ''s'' else []), ko_String = (\<lambda>p. if p = ''address'' then ''unix:/run/sf.sock'' else []),
      ko_Bool = (\<lambda>p. p = ''no_registration''), ko_Int = (\<lambda>p. 0), ko_MustStrings = (\<lambda>p. Ok [''*'']),
      ko_MustDuration = (\<lambda>p. Ok (hours 24))\<rparr>"

definition desk_launch :: "(memdb, string, unit) launch_lib" where
  "desk_launch =
     \<lparr>ll_Load = (\<lambda>f w. (Inr desk_konf, w)), ll_Getenv = (\<lambda>v. ''/run/credentials/''),
      ll_HKDF = (\<lambda>k n. Inr (replicate n (if k = [] then CHR ''0'' else hd k))),
      ll_Open = (\<lambda>f w. (Inr mem_storm, w)), ll_Init = (\<lambda>t d w. (None, w)), ll_ReIndex = (\<lambda>t d w. (None, w)),
      ll_Close = (\<lambda>d w. w), ll_Engine = desk_server, ll_Listen = (\<lambda>n a w. (None, w)), ll_Chmod = (\<lambda>f m w. (None, w)),
      ll_Serve = (\<lambda>s l w. (None, w)), ll_Start = (\<lambda>s a w. (None, w))\<rparr>"

definition desk_dir :: "unit outside world" where
  "desk_dir = \<lparr>w_db = \<lparr>o_files = [''/run/credentials/secret_key'' \<mapsto> ''key''], o_fault = (\<lambda>n. None), o_fileops = 0, o_net = ()\<rparr>,
     w_clock = int, w_ticks = 0, w_uuid = (\<lambda>n. []), w_uuids = 0, w_rand = (\<lambda>n. n), w_rands = 0, w_prng = (\<lambda>s n. n)\<rparr>"

definition desk_prepared :: "(err, memdb controller \<times> konf) outcome \<times> unit outside world" where
  "desk_prepared = prepare_server desk_launch ''1.0'' ''standardfile.yml'' desk_dir"

lemma desk_controller: "fst desk_prepared = Ok
   (\<lparr>co_Version = ''1.0'', co_Database = mem_storm, co_NoRegistration = True, co_ShowRealVersion = False,
     co_SubscriptionPayload = [], co_FeaturesPayload = [], co_AllowOrigins = [''*''], co_AllowMethods = [''*''],
     co_SigningKey = ''key'', co_SessionSecret = replicate 32 CHR ''s'',
     co_AccessTokenExpirationTime = hours 24, co_RefreshTokenExpirationTime = hours 24\<rparr>, desk_konf)"
proof -
  have "filepath_Join [''/run/credentials/'', ''secret_key''] = ''/run/credentials/secret_key''" by code_simp
  then show ?thesis
    by (simp add: desk_prepared_def prepare_server_def desk_launch_def keyFromConfig_def desk_konf_def os_ReadFile_def
        file_op_def desk_dir_def StormOpen_def subscription_files_def controller_of_def kdf_def)
qed

subsection \<open>Properties\<close>

text \<open>
  C26. A server that starts has the signing key found under \<^verbatim>\<open>secret_key\<close> and a session secret of 32 bytes derived
  from the secret found under \<^verbatim>\<open>session.secret\<close>. Neither of the two is empty, and each is the one of the
  configuration or else the contents of the credential file of its own name. Whether it offers registration is
  what the configuration says.
\<close>

theorem server_starts_configured:
  assumes "\<And>k n b. ll_HKDF ll k n = Inr b \<Longrightarrow> length b = n"
    and "prepare_server ll version cfg w = (Ok (ctrl, konf), w')"
  shows "\<exists>w1 secret. ll_Load ll cfg w = (Inr konf, w1)
    \<and> configured ll konf (o_files (w_db w1)) ''secret_key'' (co_SigningKey ctrl)
    \<and> configured ll konf (o_files (w_db w1)) ''session.secret'' secret
    \<and> ll_HKDF ll secret 32 = Inr (co_SessionSecret ctrl) \<and> length (co_SessionSecret ctrl) = 32
    \<and> mg_signingKey (sv_Sessions (engine_of lib ctrl)) = co_SigningKey ctrl
    \<and> mg_sessionSecret (sv_Sessions (engine_of lib ctrl)) = co_SessionSecret ctrl
    \<and> sv_NoRegistration (engine_of lib ctrl) = ko_Bool konf ''no_registration''"
  using assms(2)
proof (rule prepare_server_Ok)
  fix w1 w2 w3 secret
  assume load: "ll_Load ll cfg w = (Inr konf, w1)"
    and key: "keyFromConfig ll konf ''secret_key'' w1 = (Inr (co_SigningKey ctrl), w2)"
    and secret: "keyFromConfig ll konf ''session.secret'' w2 = (Inr secret, w3)"
    and kdf: "ll_HKDF ll secret 32 = Inr (co_SessionSecret ctrl)"
    and closed: "co_NoRegistration ctrl = ko_Bool konf ''no_registration''"
  have "configured ll konf (o_files (w_db w1)) ''session.secret'' secret"
    using keyFromConfig_Inr [OF secret] keyFromConfig_files [OF key] by simp
  then show ?thesis
    using load keyFromConfig_Inr [OF key] kdf assms(1) [OF kdf] closed
    by (intro exI [of _ w1] exI [of _ secret]) (simp add: engine_of_def NewManager_def)
qed

theorem server_starts_configured_witness:
  "\<exists>ctrl w'. prepare_server desk_launch ''1.0'' ''standardfile.yml'' desk_dir = (Ok (ctrl, desk_konf), w')
     \<and> co_SigningKey ctrl = ''key'' \<and> length (co_SessionSecret ctrl) = 32"
proof -
  obtain ctrl where ctrl: "fst desk_prepared = Ok (ctrl, desk_konf)" and key: "co_SigningKey ctrl = ''key''"
    by (simp add: desk_controller)
  then have run: "prepare_server desk_launch ''1.0'' ''standardfile.yml'' desk_dir = (Ok (ctrl, desk_konf), snd desk_prepared)"
    by (metis desk_prepared_def prod.collapse)
  have law: "ll_HKDF desk_launch k n = Inr b \<Longrightarrow> length b = n" for k n b by (auto simp: desk_launch_def)
  have "length (co_SessionSecret ctrl) = 32"
    by (rule exE [OF server_starts_configured [OF _ run, where lib = desk_server]], rule law, assumption, elim exE conjE)
  then show ?thesis using run key by blast
qed

text \<open>
  C27. A server started with a configuration that turns registration off has the accounts it started with:
  whatever requests it serves, no account is added and none is lost.
\<close>

theorem no_registration_keeps_accounts:
  assumes "prepare_server ll version cfg w0 = (Ok (ctrl, konf), w0')" and "ko_Bool konf ''no_registration''"
    and "serving (engine_of lib ctrl) V" and "server_run (engine_of lib ctrl) qs w w'"
    and "accounts_ok V (w_db w)" and "[] \<notin> ID ` v_users V (w_db w)"
  shows "ID ` v_users V (w_db w') = ID ` v_users V (w_db w)"
proof -
  have "sv_NoRegistration (engine_of lib ctrl)"
    using assms(1,2) by (auto simp: engine_of_def elim: prepare_server_Ok)
  then show ?thesis
    using serving.server_run_accounts [OF assms(3,4), of "ID ` v_users V (w_db w)"] assms(5,6)
    by (simp add: accounts_are_def)
qed

definition closed_server :: "(memdb, string) server" where
  "closed_server = engine_of desk_server (fst (the_Ok (fst desk_prepared)))"

definition closed_served :: "response option \<times> memdb world" where
  "closed_served = serve closed_server (restricted_route ''POST'' ''/items/sync'' E_Sync) (desk_request ''Bearer alice'' [])
     desk_world"

theorem no_registration_keeps_accounts_witness:
  "ID ` v_users mem_view (w_db (snd closed_served)) = ID ` {account_user, bob}"
proof -
  let ?ctrl = "fst (the_Ok (fst desk_prepared))"
  have "prepare_server desk_launch ''1.0'' ''standardfile.yml'' desk_dir = (Ok (?ctrl, desk_konf), snd desk_prepared)"
    by (metis desk_prepared_def desk_controller fst_conv prod.collapse the_Ok.simps)
  moreover have "ko_Bool desk_konf ''no_registration''" by (simp add: desk_konf_def)
  moreover have "serving (engine_of desk_server ?ctrl) mem_view"
    using desk.serving_axioms unfolding serving_def by (simp add: engine_of_def desk_controller desk_server_def)
  moreover have "server_run (engine_of desk_server ?ctrl)
      [(restricted_route ''POST'' ''/items/sync'' E_Sync, desk_request ''Bearer alice'' [])] desk_world (snd closed_served)"
    by (rule server_run.server_serves [OF server_run.server_idle, where r = "fst closed_served"])
      (simp_all add: closed_served_def closed_server_def EchoEngine_def)
  moreover have "[] \<notin> ID ` v_users mem_view (w_db desk_world)"
    unfolding desk_users by (auto simp: account_user_def bob_def)
  ultimately show ?thesis using no_registration_keeps_accounts [OF _ _ _ _ desk_accounts] desk_users by simp
qed

end
