(* ===== verification/Interleaving.thy ===== *)
theory Interleaving
  imports Prelude
begin

text \<open>
  Requests that run at the same time. Go serves every request in its own goroutine, the server has no lock of its
  own, and the storage engine runs one operation of a request after that of another in any order. A handler is
  here the task of its storage operations: each is atomic, and says how the task goes on. What a task promises
  of its operations, whatever the others do in between, carries over to every interleaving.
\<close>

datatype ('w, 'a) task = Done 'a | Op "'w \<Rightarrow> ('w, 'a) task \<times> 'w"

text \<open>A task that is alone.\<close>

primrec run_task :: "('w, 'a) task \<Rightarrow> 'w \<Rightarrow> 'a \<times> 'w" where
  "run_task (Done a) = (\<lambda>w. (a, w))"
| "run_task (Op f) = (\<lambda>w. (\<lambda>(g, w1). g w1) (map_prod run_task id (f w)))"

lemma run_task_Op [simp]: "run_task (Op f) w = (case f w of (t, w1) \<Rightarrow> run_task t w1)"
  by (simp add: case_prod_beta)

lemma run_task_Done [simp]: "run_task (Done a) w = (a, w)"
  by simp

declare run_task.simps [simp del]

text \<open>
  The states a server can reach from one of \<open>start\<close>: \<open>evs\<close> are the requests that have ended, the last
  first, and \<open>ts\<close> the running ones. Between them other steps may happen, as \<open>rest\<close> allows.
\<close>

inductive interleaved ::
  "('l \<Rightarrow> ('w, 'a) task) \<Rightarrow> ('w \<Rightarrow> 'w \<Rightarrow> bool) \<Rightarrow> ('w \<Rightarrow> bool)
   \<Rightarrow> ('l \<times> 'a) list \<Rightarrow> ('l \<times> ('w, 'a) task) list \<Rightarrow> 'w \<Rightarrow> bool"
  for prog rest start where
  initial: "start w \<Longrightarrow> interleaved prog rest start [] [] w"
| begins: "interleaved prog rest start evs ts w \<Longrightarrow> interleaved prog rest start evs ((l, prog l) # ts) w"
| continues: "interleaved prog rest start evs (xs @ (l, Op f) # ys) w \<Longrightarrow> f w = (Op g, w')
    \<Longrightarrow> interleaved prog rest start evs (xs @ (l, Op g) # ys) w'"
| ends: "interleaved prog rest start evs (xs @ (l, Op f) # ys) w \<Longrightarrow> f w = (Done a, w')
    \<Longrightarrow> interleaved prog rest start ((l, a) # evs) (xs @ ys) w'"
| others: "interleaved prog rest start evs ts w \<Longrightarrow> rest w w' \<Longrightarrow> interleaved prog rest start evs ts w'"

text \<open>Every operation of a task changes the state as \<open>E\<close> says; its result is there when the task ends with it.\<close>

inductive within :: "('w \<Rightarrow> 'a option \<Rightarrow> 'w \<Rightarrow> bool) \<Rightarrow> ('w, 'a) task \<Rightarrow> bool" for E where
  within_Done: "within E (Done a)"
| within_Op: "(\<And>w t w'. f w = (t, w') \<Longrightarrow>
      E w (case t of Done a \<Rightarrow> Some a | Op g \<Rightarrow> None) w' \<and> within E t) \<Longrightarrow> within E (Op f)"

inductive_simps within_Op_iff: "within E (Op f)"
inductive_simps within_Done_iff [simp]: "within E (Done a)"

text \<open>
  What the tasks promise and the other steps leave alone is an invariant of all interleavings.
\<close>

text \<open>A task that goes on to its end while the others wait.\<close>

lemma runs_to_end:
  assumes "interleaved prog rest start evs (xs @ (l, Op f) # ys) w" and "run_task (Op f) w = (a, w')"
  shows "interleaved prog rest start ((l, a) # evs) (xs @ ys) w'"
proof -
  have "t = Op f \<Longrightarrow> interleaved prog rest start evs (xs @ (l, t) # ys) w \<Longrightarrow> run_task t w = (a, w') \<Longrightarrow> ?thesis" for t
  proof (induction t arbitrary: f w)
    case (Op h)
    obtain t w1 where t: "f w = (t, w1)" by force
    show ?case
    proof (cases t)
      case (Done b)
      then show ?thesis using ends [of prog rest start evs xs l f ys w b w1] Op.prems t by simp
    next
      case cont: (Op g)
      have "(Op g, w1) \<in> range h" using t cont Op.prems(1) by (metis rangeI task.inject(2))
      then show ?thesis
        using Op.IH [of "(Op g, w1)" "Op g" g w1] continues [of prog rest start evs xs l f ys w g w1] Op.prems t cont
        by auto
    qed
  qed simp
  then show ?thesis using assms by blast
qed

locale promises =
  fixes prog :: "'l \<Rightarrow> ('w, 'a) task" and rest :: "'w \<Rightarrow> 'w \<Rightarrow> bool" and start :: "'w \<Rightarrow> bool"
    and E :: "'l \<Rightarrow> 'w \<Rightarrow> 'a option \<Rightarrow> 'w \<Rightarrow> bool" and I :: "('l \<times> 'a) list \<Rightarrow> 'w \<Rightarrow> bool"
  assumes promised: "within (E l) (prog l)"
    and at_start: "start w \<Longrightarrow> I [] w"
    and on_step: "I evs w \<Longrightarrow> E l w None w' \<Longrightarrow> I evs w'"
    and on_end: "I evs w \<Longrightarrow> E l w (Some a) w' \<Longrightarrow> I ((l, a) # evs) w'"
    and on_rest: "I evs w \<Longrightarrow> rest w w' \<Longrightarrow> I evs w'"
begin

lemma interleaved_keeps:
  "interleaved prog rest start evs ts w \<Longrightarrow> (\<forall>(l, t) \<in> set ts. within (E l) t) \<and> I evs w"
proof (induction rule: interleaved.induct)
  case (initial w)
  then show ?case using at_start by simp
next
  case (begins evs ts w l)
  then show ?case using promised by auto
next
  case (continues evs xs l f ys w g w')
  then have "within (E l) (Op f)" by simp
  then have "E l w None w' \<and> within (E l) (Op g)"
    using continues.hyps(2) by (fastforce simp: within_Op_iff)
  then show ?case using continues.IH on_step by auto
next
  case (ends evs xs l f ys w a w')
  then have "within (E l) (Op f)" by simp
  then have "E l w (Some a) w'" using ends.hyps(2) by (fastforce simp: within_Op_iff)
  then show ?case using ends.IH on_end by auto
next
  case (others evs ts w w')
  then show ?case using on_rest by blast
qed

end

subsection \<open>Schedules\<close>

text \<open>A schedule names the running task that makes the next step; what it leads to is an interleaving.\<close>

fun task_step ::
  "nat \<Rightarrow> ('l \<times> 'a) list \<times> ('l \<times> ('w, 'a) task) list \<times> 'w \<Rightarrow> ('l \<times> 'a) list \<times> ('l \<times> ('w, 'a) task) list \<times> 'w" where
  "task_step n (evs, ts, w) =
     (case drop n ts of
        [] \<Rightarrow> (evs, ts, w)
      | (l, Done a) # ys \<Rightarrow> (evs, ts, w)
      | (l, Op f) # ys \<Rightarrow>
          (case f w of
             (Done a, w1) \<Rightarrow> ((l, a) # evs, take n ts @ ys, w1)
           | (Op g, w1) \<Rightarrow> (evs, take n ts @ (l, Op g) # ys, w1)))"

definition scheduled ::
  "('l \<Rightarrow> ('w, 'a) task) \<Rightarrow> 'l list \<Rightarrow> nat list \<Rightarrow> 'w \<Rightarrow> ('l \<times> 'a) list \<times> ('l \<times> ('w, 'a) task) list \<times> 'w" where
  "scheduled prog ls ns w = fold task_step ns ([], map (\<lambda>l. (l, prog l)) ls, w)"

lemma task_step_interleaved:
  assumes "interleaved prog rest start evs ts w" and "task_step n (evs, ts, w) = (evs', ts', w')"
  shows "interleaved prog rest start evs' ts' w'"
proof (cases "drop n ts")
  case (Cons y ys)
  obtain l t where y: "y = (l, t)" by force
  have ts: "ts = take n ts @ (l, t) # ys" using Cons y by (metis append_take_drop_id)
  show ?thesis
  proof (cases t)
    case (Op f)
    have run: "interleaved prog rest start evs (take n ts @ (l, Op f) # ys) w" using assms(1) ts Op by simp
    show ?thesis
    proof (cases "f w")
      case (Pair g w1)
      then show ?thesis using assms(2) Cons y Op interleaved.continues [OF run] interleaved.ends [OF run]
        by (cases g) auto
    qed
  qed (use assms Cons y in auto)
qed (use assms in auto)

lemma begun_interleaved:
  "start w \<Longrightarrow> interleaved prog rest start [] (map (\<lambda>l. (l, prog l)) ls) w"
  by (induction ls) (auto intro: interleaved.initial interleaved.begins)

lemma scheduled_interleaved:
  assumes "start w" and "scheduled prog ls ns w = (evs, ts, w')"
  shows "interleaved prog rest start evs ts w'"
proof -
  have "interleaved prog rest start e t v \<Longrightarrow> fold task_step ns (e, t, v) = (evs, ts, w') \<Longrightarrow> ?thesis" for e t v
  proof (induction ns arbitrary: e t v)
    case (Cons n ns)
    obtain e1 t1 v1 where one: "task_step n (e, t, v) = (e1, t1, v1)" by (metis prod_cases3)
    then show ?case using Cons.IH [OF task_step_interleaved [OF Cons.prems(1) one]] Cons.prems(2) by simp
  qed simp
  then show ?thesis using begun_interleaved [of start w, OF assms(1)] assms(2) unfolding scheduled_def by blast
qed

end
