(* ===== verification/Concurrent_Requests.thy ===== *)
theory Concurrent_Requests
  imports Interleaving Pkce Sync_Properties
begin

text \<open>
  Two services as tasks of their storage operations, and what their requests do to each other when they
  interleave: the challenges of \<^verbatim>\<open>internal/server/service/pkce.go\<close>, which stay single use, and the saving of an
  item in \<^verbatim>\<open>sync_20190520.go\<close>, whose comparison with the stored item is not atomic with the write.
\<close>

subsection \<open>Challenges\<close>

datatype challenge_call = Storing string | Checking string

fun challenge_task :: "'db storm \<Rightarrow> challenge_call \<Rightarrow> ('db world, err option) task" where
  "challenge_task S (Storing c) =
     Op (\<lambda>w. case RevokeExpiredChallenges S w of
               (Some e, w1) \<Rightarrow> (Done (Some e), w1)
             | (None, w1) \<Rightarrow>
                 (Op (\<lambda>w. let (now, w1) = Now w
                         in (Op (\<lambda>w. let (_, e, w1) = Save (st_pkces S) (new_pkce c (now + hours 1)) w in (Done e, w1)),
                             w1)), w1))"
| "challenge_task S (Checking c) =
     Op (\<lambda>w. case RevokeExpiredChallenges S w of
               (Some e, w1) \<Rightarrow> (Done (Some e), w1)
             | (None, w1) \<Rightarrow>
                 (Op (\<lambda>w. case FindPKCE S c w of
                            Inl e \<Rightarrow> (Done (Some e), w)
                          | Inr _ \<Rightarrow> (Op (\<lambda>w. let (e, w1) = RemovePKCE S c w in (Done e, w1)), w)), w1))"

text \<open>Alone, a task is the operation of the service.\<close>

lemma run_challenge_task:
  "run_task (challenge_task S (Storing c)) w = StoreChallenge S c w"
  "run_task (challenge_task S (Checking c)) w = CheckChallenge S c w"
  by (auto simp: StoreChallenge_def CheckChallenge_def Now_def Let_def split: prod.splits option.splits sum.splits)

text \<open>
  What the operations of a call promise: only a store that succeeds adds a challenge, its own, and a check
  only succeeds with an operation that finds the challenge and removes it.
\<close>

definition challenge_promise ::
  "'db view \<Rightarrow> challenge_call \<Rightarrow> 'db world \<Rightarrow> err option option \<Rightarrow> 'db world \<Rightarrow> bool" where
  "challenge_promise V l w r w' \<longleftrightarrow>
     (case l of
        Storing c \<Rightarrow> challenges V w' \<subseteq> (if r = Some None then insert c (challenges V w) else challenges V w)
      | Checking c \<Rightarrow> challenges V w' \<subseteq> challenges V w
          \<and> (r = Some None \<longrightarrow> c \<in> challenges V w \<and> c \<notin> challenges V w'))"

definition balanced :: "'db view \<Rightarrow> (challenge_call \<times> err option) list \<Rightarrow> 'db world \<Rightarrow> bool" where
  "balanced V evs w \<longleftrightarrow>
     (\<forall>c. count_list evs (Checking c, None) + (if c \<in> challenges V w then 1 else 0) \<le> count_list evs (Storing c, None))"

context store
begin

lemma Revoke_challenges: "RevokeExpiredChallenges S w = (e, w') \<Longrightarrow> challenges V w' \<subseteq> challenges V w"
  using RevokeExpired_None [of w w'] RevokeExpired_Some [of w _ w'] by (cases e) (auto simp: challenges_def)

lemma Save_challenges:
  "Save (st_pkces S) (new_pkce c t) w = (p, None, w') \<Longrightarrow> x \<in> challenges V w' \<Longrightarrow> x = c \<or> x \<in> challenges V w"
  "Save (st_pkces S) (new_pkce c t) w = (p, Some e, w') \<Longrightarrow> challenges V w' = challenges V w"
  using Save_result(1) [of "st_pkces S" "new_pkce c t" w p None w']
  by (auto simp: challenges_def pkces.Save_rows pkces.Save_rows_failed new_pkce_def)

lemma Now_challenges [simp]: "challenges V (w\<lparr>w_ticks := n\<rparr>) = challenges V w"
  by (simp add: challenges_def)

lemma Remove_challenges:
  "RemovePKCE S c w = (e, w') \<Longrightarrow> challenges V w' \<subseteq> challenges V w
     \<and> (e = None \<longrightarrow> c \<in> challenges V w \<and> c \<notin> challenges V w')"
  using RemovePKCE_subset [of c w e w'] RemovePKCE_None [of c w w'] RemovePKCE_found [of c w w']
  by (auto simp: challenges_def)

lemma challenge_task_promise: "within (challenge_promise V l) (challenge_task S l)"
proof (cases l)
  case (Storing c)
  show ?thesis unfolding Storing
    by (auto simp: within_Op_iff challenge_promise_def Now_def Let_def Save_challenges(2)
        dest: subsetD [OF Revoke_challenges] split: prod.splits option.splits if_splits)
      (metis Save_challenges(1))
next
  case (Checking c)
  show ?thesis unfolding Checking
    by (auto simp: within_Op_iff challenge_promise_def Let_def
        dest: Revoke_challenges Remove_challenges split: prod.splits option.splits sum.splits)
qed

end

sublocale store \<subseteq> calls: promises "challenge_task S" "\<lambda>w w'. challenges V w' = challenges V w"
    "\<lambda>w. challenges V w = {}" "challenge_promise V" "balanced V"
proof (unfold_locales, goal_cases)
  case (1 l) show ?case by (rule challenge_task_promise)
next
  case (2 w) then show ?case by (simp add: balanced_def)
next
  case (3 evs w l w')
  then have sub: "challenges V w' \<subseteq> challenges V w" by (auto simp: challenge_promise_def split: challenge_call.splits)
  show ?case unfolding balanced_def
  proof
    fix c
    have "count_list evs (Checking c, None) + (if c \<in> challenges V w then 1 else 0) \<le> count_list evs (Storing c, None)"
      using 3(1) by (simp add: balanced_def)
    then show "count_list evs (Checking c, None) + (if c \<in> challenges V w' then 1 else 0)
        \<le> count_list evs (Storing c, None)"
      using sub by (cases "c \<in> challenges V w'") auto
  qed
next
  case (4 evs w l a w')
  show ?case unfolding balanced_def
  proof
    fix c
    have b: "count_list evs (Checking c, None) + (if c \<in> challenges V w then 1 else 0) \<le> count_list evs (Storing c, None)"
      using 4(1) by (simp add: balanced_def)
    show "count_list ((l, a) # evs) (Checking c, None) + (if c \<in> challenges V w' then 1 else 0)
        \<le> count_list ((l, a) # evs) (Storing c, None)"
      using 4(2) b by (cases l) (auto simp: challenge_promise_def split: if_splits)
  qed
qed (simp add: balanced_def)

context store
begin

lemma interleaved_balanced:
  "interleaved (challenge_task S) (\<lambda>w w'. challenges V w' = challenges V w) (\<lambda>w. challenges V w = {}) evs ts w
   \<Longrightarrow> balanced V evs w"
  using calls.interleaved_keeps by blast

end

subsection \<open>Saving an item\<close>

text \<open>The round of the saving loop in two operations: the lookup that decides, and the write.\<close>

definition update_task ::
  "'db storm \<Rightarrow> item \<Rightarrow> ('db world, (err, item list \<times> conflict_item list \<times> string list) outcome) task" where
  "update_task S i1 =
     Op (\<lambda>w. let i2 = (if it_Deleted i1 then prepareDelete i1 else i1); (i3, e, w1) = Save (st_items S) i2 w
            in (Done (case e of
                  Some _ \<Rightarrow> Ok ([], [\<lparr>ci_UnsavedItem = Some i3, ci_ServerItem = None, ci_Type = ''uuid_conflict''\<rparr>], [])
                | None \<Rightarrow> Ok ([i3], [], [])), w1))"

definition item_task ::
  "'db storm \<Rightarrow> user \<times> item \<Rightarrow> ('db world, (err, item list \<times> conflict_item list \<times> string list) outcome) task" where
  "item_task S l =
     (let (u, i) = l; i1 = i\<lparr>it_UserID := ID u\<rparr>
      in Op (\<lambda>w.
        (case FindItemByUserID S (ID i1) (ID u) w of
           Inl e \<Rightarrow>
             if \<not> IsNotFound (Some e)
             then Done (Ok ([], [\<lparr>ci_UnsavedItem = Some i1, ci_ServerItem = None, ci_Type = ''internal_error''\<rparr>], []))
             else update_task S i1
         | Inr serverItem \<Rightarrow>
             (case (UpdatedAt i1, UpdatedAt serverItem) of
                (Some incoming, Some server) \<Rightarrow>
                  if \<not> saveIncoming incoming server
                  then Done (Ok ([], [\<lparr>ci_UnsavedItem = None, ci_ServerItem = Some serverItem,
                                      ci_Type = ''sync_conflict''\<rparr>], [ID serverItem]))
                  else update_task S i1
              | _ \<Rightarrow> Done (Panic ''nil pointer dereference'')), w)))"

lemma run_item_task: "run_task (item_task S (u, i)) w = save19_item S u i w"
  by (auto simp: item_task_def update_task_def save19_item_def Let_def split: prod.splits option.splits sum.splits)

lemma item_task_updates:
  assumes "FindItemByUserID S (ID i) (ID u) w = Inr x" and "UpdatedAt i = Some t" and "UpdatedAt x = Some t"
  shows "\<exists>f. item_task S (u, i) = Op f \<and> f w = (update_task S (i\<lparr>it_UserID := ID u\<rparr>), w)"
  using assms by (simp add: item_task_def saveIncoming_iff Let_def)

lemma update_task_saves:
  assumes "Save (st_items S) (owned_item u i) w = (si, None, w1)"
  shows "\<exists>f. update_task S (i\<lparr>it_UserID := ID u\<rparr>) = Op f \<and> f w = (Done (Ok ([si], [], [])), w1)"
  using assms by (simp add: update_task_def owned_item_def Let_def)

text \<open>
  What saving an item promises: the items stay as they are, or one of the requester with the ID that was pushed
  takes its place; an item without an ID gets a new one.
\<close>

definition item_promise :: "'db view \<Rightarrow> user \<times> item \<Rightarrow> 'db world \<Rightarrow> 'r option \<Rightarrow> 'db world \<Rightarrow> bool" where
  "item_promise V l w r w' \<longleftrightarrow>
     v_items V (w_db w') = v_items V (w_db w)
     \<or> r \<noteq> None \<and> (\<exists>x. it_UserID x = ID (fst l) \<and> (ID (snd l) \<noteq> [] \<longrightarrow> ID x = ID (snd l))
         \<and> v_items V (w_db w') = insert x {y \<in> v_items V (w_db w). ID y \<noteq> ID x})"

definition items_from :: "'db view \<Rightarrow> item set \<Rightarrow> ((user \<times> item) \<times> 'r) list \<Rightarrow> 'db world \<Rightarrow> bool" where
  "items_from V X evs w \<longleftrightarrow>
     (\<forall>x \<in> v_items V (w_db w). x \<in> X
        \<or> (\<exists>u i r. ((u, i), r) \<in> set evs \<and> it_UserID x = ID u \<and> (ID i \<noteq> [] \<longrightarrow> ID x = ID i)))"

context store
begin

lemma update_task_promise:
  assumes "it_UserID i = ID u" and "ID i = ID j"
  shows "within (item_promise V (u, j)) (update_task S i)"
proof -
  have "item_promise V (u, j) w (Some r) w'"
    if s: "Save (st_items S) (if it_Deleted i then prepareDelete i else i) w = (i3, e, w')" for w i3 e w' r
  proof (cases e)
    case None
    have "i3 = stamped (if it_Deleted i then prepareDelete i else i) w" using Save_result(1) [OF s] .
    then have "it_UserID i3 = ID u" "ID j \<noteq> [] \<longrightarrow> ID i3 = ID j"
      using assms by (simp_all add: prepareDelete_def ID_stamped)
    then show ?thesis using items.Save_rows [OF s [unfolded None]] by (auto simp: item_promise_def)
  next
    case (Some x)
    then show ?thesis using items.Save_rows_failed [OF s [unfolded Some]] by (simp add: item_promise_def)
  qed
  then show ?thesis by (auto simp: update_task_def within_Op_iff Let_def split: prod.splits)
qed

lemma item_task_promise: "within (item_promise V l) (item_task S l)"
proof -
  obtain u i where l: "l = (u, i)" by force
  have same: "item_promise V (u, i) w r w" for w and r :: "'x option" by (simp add: item_promise_def)
  have "within (item_promise V (u, i)) (update_task S (i\<lparr>it_UserID := ID u\<rparr>))"
    by (rule update_task_promise) simp_all
  then show ?thesis unfolding l
    by (auto simp: item_task_def within_Op_iff Let_def same split: sum.splits option.splits)
qed

end

sublocale store \<subseteq> saves: promises "item_task S" "\<lambda>w w'. v_items V (w_db w') = v_items V (w_db w)"
    "\<lambda>w. v_items V (w_db w) = X" "item_promise V" "items_from V X" for X
proof (unfold_locales, goal_cases)
  case (1 l) show ?case by (rule item_task_promise)
next
  case (2 w) then show ?case by (simp add: items_from_def)
next
  case (3 evs w l w') then show ?case by (simp add: item_promise_def items_from_def)
next
  case (4 evs w l r w')
  have kept: "x \<in> X \<or> (\<exists>u i q. ((u, i), q) \<in> set ((l, r) # evs) \<and> it_UserID x = ID u \<and> (ID i \<noteq> [] \<longrightarrow> ID x = ID i))"
    if "x \<in> v_items V (w_db w)" for x
    using 4(1) that by (fastforce simp: items_from_def)
  have pushed: "\<exists>u i q. ((u, i), q) \<in> set ((l, r) # evs) \<and> it_UserID x = ID u \<and> (ID i \<noteq> [] \<longrightarrow> ID x = ID i)"
    if "it_UserID x = ID (fst l)" "ID (snd l) \<noteq> [] \<longrightarrow> ID x = ID (snd l)" for x :: item
    using that by (intro exI [of _ "fst l"] exI [of _ "snd l"] exI [of _ r]) simp
  show ?case unfolding items_from_def
  proof
    fix x
    assume "x \<in> v_items V (w_db w')"
    then have "x \<in> v_items V (w_db w)
        \<or> it_UserID x = ID (fst l) \<and> (ID (snd l) \<noteq> [] \<longrightarrow> ID x = ID (snd l))"
      using 4(2) by (auto simp: item_promise_def)
    then show "x \<in> X \<or> (\<exists>u i q. ((u, i), q) \<in> set ((l, r) # evs) \<and> it_UserID x = ID u \<and> (ID i \<noteq> [] \<longrightarrow> ID x = ID i))"
      using kept [of x] pushed [of x] by blast
  qed
qed (simp add: items_from_def)

context store
begin

lemma items_from_start:
  "interleaved (item_task S) (\<lambda>w w'. v_items V (w_db w') = v_items V (w_db w)) (\<lambda>w. v_items V (w_db w) = X) evs ts w
   \<Longrightarrow> items_from V X evs w"
  using saves.interleaved_keeps by blast

end

text \<open>Isolation at the grain of the storage operations: an item was there at the start or belongs to a user who pushed it.\<close>

lemma items_isolated_interleaved:
  assumes "store S V"
    and "interleaved (item_task S) (\<lambda>w w'. v_items V (w_db w') = v_items V (w_db w)) (\<lambda>w. v_items V (w_db w) = X) evs ts w"
    and "x \<in> v_items V (w_db w)" and "x \<notin> X"
  shows "\<exists>u i r. ((u, i), r) \<in> set evs \<and> it_UserID x = ID u \<and> (ID i \<noteq> [] \<longrightarrow> ID x = ID i)"
  using store.items_from_start [OF assms(1,2)] assms(3,4) by (auto simp: items_from_def)

text \<open>Two updates of which the second looks the item up before the first writes it.\<close>

lemma overtaken:
  assumes "FindItemByUserID S (ID i) (ID u) w = Inr x" and "ID j = ID i"
    and "UpdatedAt x = Some t" and "UpdatedAt i = Some t" and "UpdatedAt j = Some t"
    and "Save (st_items S) (owned_item u i) w = (si, None, w1)" and "Save (st_items S) (owned_item u j) w1 = (sj, None, w2)"
  shows "interleaved (item_task S) rest (\<lambda>v. v = w)
    [((u, j), Ok ([sj], [], [])), ((u, i), Ok ([si], [], []))] [] w2"
proof -
  let ?run = "interleaved (item_task S) rest (\<lambda>v. v = w)"
  obtain fi fj gi gj where tasks: "item_task S (u, i) = Op fi" "item_task S (u, j) = Op fj"
      "update_task S (i\<lparr>it_UserID := ID u\<rparr>) = Op gi" "update_task S (j\<lparr>it_UserID := ID u\<rparr>) = Op gj"
    and looks: "fi w = (Op gi, w)" "fj w = (Op gj, w)"
    and saves: "gi w = (Done (Ok ([si], [], [])), w1)" "gj w1 = (Done (Ok ([sj], [], [])), w2)"
    using item_task_updates [OF assms(1,4,3)] item_task_updates [of S j u w x t] assms(1,2,3,5)
      update_task_saves [OF assms(6)] update_task_saves [OF assms(7)] by auto
  have "?run [] ([] @ ((u, i), Op fi) # [((u, j), Op fj)]) w"
    using begun_interleaved [of "\<lambda>v. v = w" w "item_task S" rest "[(u, i), (u, j)]"] tasks by simp
  from continues [OF this looks(1)] have "?run [] ([((u, i), Op gi)] @ ((u, j), Op fj) # []) w" by simp
  from continues [OF this looks(2)] have "?run [] ([] @ ((u, i), Op gi) # [((u, j), Op gj)]) w" by simp
  from ends [OF this saves(1)] have "?run [((u, i), Ok ([si], [], []))] ([] @ ((u, j), Op gj) # []) w1" by simp
  from ends [OF this saves(2)] show ?thesis by simp
qed

context store
begin

lemma saved_alone:
  "Save (st_items S) (owned_item u i) w = (si, None, w1) \<Longrightarrow> ID i \<noteq> [] \<Longrightarrow>
     {z \<in> v_items V (w_db w1). ID z = ID i} = {si}"
  using Save_result(1) [of "st_items S" "owned_item u i" w si None w1] by (auto simp: items.Save_rows ID_stamped)

lemma saved_found:
  assumes "Save (st_items S) (owned_item u i) w = (si, None, w1)" and "ID i \<noteq> []"
    and "FindItemByUserID S (ID i) (ID u) w1 = Inr y"
  shows "y = si \<and> UpdatedAt si = Some (w_clock w (w_ticks w))"
proof
  have "y \<in> {z \<in> v_items V (w_db w1). ID z = ID i}" using FindItemByUserID_Inr [OF assms(3)] by simp
  then show "y = si" using saved_alone [OF assms(1,2)] by simp
  show "UpdatedAt si = Some (w_clock w (w_ticks w))" using Save_result(1) [OF assms(1)] by simp
qed

end

subsection \<open>Properties\<close>

text \<open>
  C14. However the storage operations of concurrent requests interleave, and whatever other requests do to the rest of
  the database in between, a challenge is accepted at most as often as it was stored: the deletion that ends a
  check succeeds for one of them only. The tasks are the operations of the service cut at their accesses to the
  storage.
\<close>

theorem challenge_single_use_interleaved:
  assumes "store S V"
    and "interleaved (challenge_task S) (\<lambda>w w'. challenges V w' = challenges V w) (\<lambda>w. challenges V w = {}) evs ts w"
  shows "count_list evs (Checking c, None) \<le> count_list evs (Storing c, None)
    \<and> run_task (challenge_task S (Checking c)) w = CheckChallenge S c w
    \<and> run_task (challenge_task S (Storing c)) w = StoreChallenge S c w"
proof -
  have "count_list evs (Checking c, None) + (if c \<in> challenges V w then 1 else 0) \<le> count_list evs (Storing c, None)"
    using store.interleaved_balanced [OF assms] by (simp add: balanced_def)
  then show ?thesis by (simp only: run_challenge_task) simp
qed

text \<open>A challenge is stored, and then two logins check it at the same time, step by step in turn.\<close>

definition raced :: "(challenge_call \<times> err option) list \<times> (challenge_call \<times> (memdb world, err option) task) list \<times> memdb world" where
  "raced = scheduled (challenge_task mem_storm) [Storing ''c'', Checking ''c'', Checking ''c'']
     [0, 0, 0, 0, 1, 0, 1, 0, 0] pkce_start"

theorem challenge_single_use_interleaved_witness:
  "count_list (fst raced) (Checking ''c'', None) = 1 \<and> length (fst raced) = 3
   \<and> count_list (fst raced) (Checking ''c'', None) \<le> count_list (fst raced) (Storing ''c'', None)"
proof -
  have run: "count_list (fst raced) (Checking ''c'', None) = 1" "length (fst raced) = 3" by code_simp+
  have "challenges mem_view pkce_start = {}"
    by (simp add: challenges_def mem_view_def pkce_start_def memory_world_def empty_db_def)
  then have "interleaved (challenge_task mem_storm) (\<lambda>w w'. challenges mem_view w' = challenges mem_view w)
      (\<lambda>w. challenges mem_view w = {}) (fst raced) (fst (snd raced)) (snd (snd raced))"
    by (rule scheduled_interleaved [of _ _ _ _ "[0, 0, 0, 0, 1, 0, 1, 0, 0]"]) (simp add: raced_def)
  from challenge_single_use_interleaved [OF mem_store this, of "''c''"] run show ?thesis by simp
qed

text \<open>
  C15. The comparison with the stored item is no protection between requests that run at the same time. Two
  requests of a user that both carry the stored timestamp of an item can each look it up before the other has
  written: both are answered that their item was saved, and only the later one is stored. One after the other
  the second would have been refused, with the item of the first, as soon as that was stamped a millisecond or
  more away from the timestamp.
\<close>

theorem concurrent_updates_lose_one:
  assumes "store S V" and "FindItemByUserID S (ID i) (ID u) w = Inr x"
    and "ID i \<noteq> []" and "ID j = ID i" and "UpdatedAt x = Some t" and "UpdatedAt i = Some t" and "UpdatedAt j = Some t"
    and "Save (st_items S) (owned_item u i) w = (si, None, w1)" and "Save (st_items S) (owned_item u j) w1 = (sj, None, w2)"
    and "1000000 \<le> \<bar>t - w_clock w (w_ticks w)\<bar>" and "FindItemByUserID S (ID i) (ID u) w1 = Inr y"
  shows "interleaved (item_task S) (=) (\<lambda>v. v = w) [((u, j), Ok ([sj], [], [])), ((u, i), Ok ([si], [], []))] [] w2
    \<and> {z \<in> v_items V (w_db w2). ID z = ID i} = {sj}
    \<and> save19_item S u j w1 = (Ok ([], [\<lparr>ci_UnsavedItem = None, ci_ServerItem = Some si, ci_Type = ''sync_conflict''\<rparr>], [ID si]), w1)"
proof (intro conjI)
  show "interleaved (item_task S) (=) (\<lambda>v. v = w) [((u, j), Ok ([sj], [], [])), ((u, i), Ok ([si], [], []))] [] w2"
    by (rule overtaken) (use assms in auto)
next
  show "{z \<in> v_items V (w_db w2). ID z = ID i} = {sj}"
    using store.saved_alone [OF assms(1) assms(9)] assms(3,4) by simp
next
  have "y = si" "UpdatedAt si = Some (w_clock w (w_ticks w))"
    using store.saved_found [OF assms(1) assms(8)] assms(3,11) by simp_all
  then show "save19_item S u j w1 = (Ok ([], [\<lparr>ci_UnsavedItem = None, ci_ServerItem = Some si, ci_Type = ''sync_conflict''\<rparr>], [ID si]), w1)"
    using assms(4,7,10,11) by (simp add: save19_item_def saveIncoming_iff Let_def)
qed

definition race_item :: "string \<Rightarrow> item" where
  "race_item text = (example_item ''n2'' ''x'' 20000000000)\<lparr>it_Content := text\<rparr>"

definition race_save :: "string \<Rightarrow> memdb world \<Rightarrow> item \<times> err option \<times> memdb world" where
  "race_save text w = Save (st_items mem_storm) (owned_item (example_user ''alice'') (race_item text)) w"

definition race_world :: "nat \<Rightarrow> memdb world" where
  "race_world n = (let w1 = snd (snd (race_save ''one'' example_world))
                   in if n = 0 then example_world else if n = 1 then w1 else snd (snd (race_save ''two'' w1)))"

theorem concurrent_updates_lose_one_witness:
  "interleaved (item_task mem_storm) (=) (\<lambda>v. v = example_world)
     [((example_user ''alice'', race_item ''two''), Ok ([fst (race_save ''two'' (race_world 1))], [], [])),
      ((example_user ''alice'', race_item ''one''), Ok ([fst (race_save ''one'' example_world)], [], []))] [] (race_world 2)
   \<and> it_Content (fst (race_save ''two'' (race_world 1))) = ''two''"
proof -
  let ?u = "example_user ''alice''"
  have found: "FindItemByUserID mem_storm (ID (race_item ''one'')) (ID ?u) example_world
      = Inr (example_item ''n2'' ''alice'' 20000000000)" by code_simp
  have one: "Save (st_items mem_storm) (owned_item ?u (race_item ''one'')) example_world
      = (fst (race_save ''one'' example_world), None, race_world 1)"
    and two: "Save (st_items mem_storm) (owned_item ?u (race_item ''two'')) (race_world 1)
      = (fst (race_save ''two'' (race_world 1)), None, race_world 2)"
  proof -
    have "fst (snd (race_save ''one'' example_world)) = None" "fst (snd (race_save ''two'' (race_world 1))) = None"
      by code_simp+
    then show "Save (st_items mem_storm) (owned_item ?u (race_item ''one'')) example_world
        = (fst (race_save ''one'' example_world), None, race_world 1)"
      and "Save (st_items mem_storm) (owned_item ?u (race_item ''two'')) (race_world 1)
        = (fst (race_save ''two'' (race_world 1)), None, race_world 2)"
      by (simp_all add: race_save_def race_world_def prod_eq_iff)
  qed
  have again: "FindItemByUserID mem_storm (ID (race_item ''one'')) (ID ?u) (race_world 1)
      = Inr (fst (race_save ''one'' example_world))" by code_simp
  have late: "1000000 \<le> \<bar>20000000000 - w_clock example_world (w_ticks example_world)\<bar>" by code_simp
  have "it_Content (fst (race_save ''two'' (race_world 1))) = ''two''" by code_simp
  then show ?thesis
    using concurrent_updates_lose_one [OF mem_store found _ _ _ _ _ one two late again]
    by (simp add: race_item_def example_item_def)
qed

end
