(* ===== verification/Concurrent_Accounts.thy ===== *)
theory Concurrent_Accounts
  imports Interleaving User_Service
begin

text \<open>
  Requests about an account that run at the same time. The middleware
  (\<^verbatim>\<open>internal/server/middlewares/session.go\<close>) reads the user at the start of a request, and the operations of
  \<^verbatim>\<open>internal/server/service/user.go\<close> write the whole record back at its end; a registration looks for its email
  first and writes the user later.
\<close>

subsection \<open>A change of the password and another update\<close>

datatype account_call = Updating update_user_params | Changing update_password_params

text \<open>
  The storage operations of the service: the write of the user, with what the change of a password checks and draws
  before it, and the payload, which can write a session.
\<close>

definition account_writes ::
  "'db storm \<Rightarrow> 'c crypto_scheme \<Rightarrow> manager \<Rightarrow> string \<Rightarrow> user \<Rightarrow> account_call \<Rightarrow> 'db world
   \<Rightarrow> ('db world, (err, json) outcome) task \<times> 'db world" where
  "account_writes S cr m version u call w =
     (let answer = (\<lambda>u1 p response. Op (\<lambda>w. let (r, w1) = user_success S cr m version u1 p response w in (Done r, w1)));
          write = (\<lambda>u p response w. let (u1, e, w1) = Save (st_users S) u w
                     in case e of
                          Some e \<Rightarrow> (Done (Err (Wrap ''could not persist user'' e)), w1)
                        | None \<Rightarrow> (answer u1 p response, w1))
      in case call of
           Updating p \<Rightarrow> write (apply_params u p) (params.truncate p) None w
         | Changing p \<Rightarrow>
             (case cr_Compare cr (us_Password u) (pw_CurrentPassword p) of
                Some e \<Rightarrow>
                  (Done (Err (if e = cr_Mismatched cr
                     then NewWithTagCode 401 [] ''The current password you entered is incorrect. Please try again.''
                     else Wrap ''could not validate password'' e)), w)
              | None \<Rightarrow>
                  (let (salt, w1) = Rand w
                   in case cr_Generate cr salt (pw_NewPassword p) of
                        Inl e \<Rightarrow> (Done (Err (Wrap ''could not store user password safe'' e)), w1)
                      | Inr hash \<Rightarrow>
                          (let (now, w2) = Now w1;
                               u1 = u\<lparr>us_Password := hash, us_PasswordUpdatedAt := time_Unix now\<rparr>;
                               u2 = (if pw_NewEmail p \<noteq> [] then u1\<lparr>us_Email := pw_NewEmail p\<rparr> else u1)
                           in write (apply_params u2 p) (params.truncate p)
                                (if version = ''20200115'' then Some [(''key_params'', JObj (KeyParams u))] else None) w2))))"

text \<open>The middleware's lookup of the user, and then the operations of the service on the user found.\<close>

definition account_task ::
  "'db storm \<Rightarrow> 'c crypto_scheme \<Rightarrow> manager \<Rightarrow> string \<Rightarrow> string \<Rightarrow> account_call \<Rightarrow> ('db world, (err, json) outcome) task" where
  "account_task S cr m version i call =
     Op (\<lambda>w. case FindUser S i w of
               Inl e \<Rightarrow> (Done (Err e), w)
             | Inr u \<Rightarrow> (Op (account_writes S cr m version u call), w))"

text \<open>Alone, the operations are those of the service.\<close>

lemma run_account_writes:
  "run_task (Op (account_writes S cr m version u (Updating p))) w = user_Update S cr m version u p w"
  "run_task (Op (account_writes S cr m version u (Changing q))) w = user_Password S cr m version u q w"
  by (auto simp: account_writes_def user_Update_def update_user_def user_Password_def password_def Let_def Rand_def Now_def
      split: prod.splits option.splits sum.splits)

lemma overtaken_update:
  assumes "FindUser S i w = Inr u" and "user_Password S cr m version u q w = (r1, w1)"
    and "user_Update S cr m version u p w1 = (r2, w2)"
  shows "interleaved (account_task S cr m version i) rest (\<lambda>v. v = w) [(Updating p, r2), (Changing q, r1)] [] w2"
proof -
  let ?prog = "account_task S cr m version i" and ?writes = "\<lambda>c. Op (account_writes S cr m version u c)"
  obtain fu fc where tasks: "?prog (Updating p) = Op fu" "?prog (Changing q) = Op fc"
    and looks: "fu w = (?writes (Updating p), w)" "fc w = (?writes (Changing q), w)"
    using assms(1) by (simp add: account_task_def)
  have "interleaved ?prog rest (\<lambda>v. v = w) [] ([] @ (Updating p, Op fu) # [(Changing q, Op fc)]) w"
    using begun_interleaved [of "\<lambda>v. v = w" w ?prog rest "[Updating p, Changing q]"] tasks by simp
  from continues [OF this looks(1)]
  have "interleaved ?prog rest (\<lambda>v. v = w) [] ([(Updating p, ?writes (Updating p))] @ (Changing q, Op fc) # []) w" by simp
  from continues [OF this looks(2)]
  have "interleaved ?prog rest (\<lambda>v. v = w) [] ([(Updating p, ?writes (Updating p))] @ (Changing q, ?writes (Changing q)) # []) w" .
  from runs_to_end [OF this, unfolded run_account_writes, OF assms(2)]
  have "interleaved ?prog rest (\<lambda>v. v = w) [(Changing q, r1)] ([] @ (Updating p, ?writes (Updating p)) # []) w1" by simp
  from runs_to_end [OF this, unfolded run_account_writes, OF assms(3)] show ?thesis by simp
qed

context store
begin

lemma user_Update_stores:
  assumes "user_Update S cr m version u p w = (Ok j, w')" and "ID u \<noteq> []"
  shows "\<exists>x \<in> v_users V (w_db w'). ID x = ID u \<and> us_Password x = us_Password u
    \<and> us_PasswordUpdatedAt x = us_PasswordUpdatedAt u"
proof -
  obtain x e w1 where sv: "Save (st_users S) (apply_params u p) w = (x, e, w1)" by (metis prod_cases3)
  have e: "e = None" and ok: "user_success S cr m version x (params.truncate p) None w1 = (Ok j, w')"
    using assms(1) sv by (auto simp: user_Update_def update_user_def split: option.splits)
  have "x \<in> v_users V (w_db w1)" using users.Save_rows [OF sv [unfolded e]] by simp
  then have "x \<in> v_users V (w_db w')" using payload.success_frame [OF ok] by simp
  moreover have "ID x = ID u" "us_Password x = us_Password u" "us_PasswordUpdatedAt x = us_PasswordUpdatedAt u"
    using Save_result(1) [OF sv] assms(2) by (simp_all add: ID_stamped)
  ultimately show ?thesis by blast
qed

lemma user_Password_stores:
  assumes "user_Password S cr m version u p w = (Ok j, w')" and "ID u \<noteq> []"
  shows "\<exists>x \<in> v_users V (w_db w'). ID x = ID u
    \<and> (\<exists>salt. cr_Generate cr salt (pw_NewPassword p) = Inr (us_Password x))"
proof -
  obtain salt u1 w3 where h: "cr_Generate cr salt (pw_NewPassword p) = Inr (us_Password u1)" and u1: "ID u1 = ID u"
    and rows: "v_users V (w_db w3) = insert u1 {x \<in> v_users V (w_db w). ID x \<noteq> ID u1}"
    and ok: "user_success S cr m version u1 (params.truncate p)
      (if version = ''20200115'' then Some [(''key_params'', JObj (KeyParams u))] else None) w3 = (Ok j, w')"
    by (rule password_OkE [OF assms(1) [unfolded user_Password_def]]) (use assms(2) in auto)
  have "u1 \<in> v_users V (w_db w')" using rows payload.success_frame [OF ok] by simp
  then show ?thesis using h u1 by blast
qed

end

text \<open>
  C16. A change of the password is undone by another update of the account that has read the user before: it writes
  the old hash and the old time of the last change back, although both requests succeed, and the new password
  was stored in between.
\<close>

theorem update_restores_password:
  assumes "store S V" and "FindUser S i w = Inr u" and "i \<noteq> []"
    and "user_Password S cr m version u q w = (Ok j1, w1)" and "user_Update S cr m version u p w1 = (Ok j2, w2)"
  shows "interleaved (account_task S cr m version i) (=) (\<lambda>v. v = w) [(Updating p, Ok j2), (Changing q, Ok j1)] [] w2
    \<and> (\<exists>x \<in> v_users V (w_db w1). ID x = i \<and> (\<exists>salt. cr_Generate cr salt (pw_NewPassword q) = Inr (us_Password x)))
    \<and> (\<exists>x \<in> v_users V (w_db w2). ID x = i \<and> us_Password x = us_Password u
         \<and> us_PasswordUpdatedAt x = us_PasswordUpdatedAt u)"
proof -
  have i: "ID u = i" using store.FindUser_Inr [OF assms(1,2)] by simp
  then have "ID u \<noteq> []" using assms(3) by simp
  then show ?thesis
    using overtaken_update [OF assms(2,4,5)] store.user_Password_stores [OF assms(1,4)] store.user_Update_stores [OF assms(1,5)]
    unfolding i by blast
qed

definition example_update :: update_user_params where
  "example_update = \<lparr>pa_APIVersion = ''20161215'', pa_UserAgent = [], pa_Session = None, up_PasswordCost = 0,
     up_PasswordNonce = ''n3'', up_PasswordSalt = [], up_Version = []\<rparr>"

definition update_run :: "(err, json) outcome \<times> memdb world" where
  "update_run = user_Update mem_storm example_crypto example_manager ''20161215'' account_user example_update (snd change_run)"

theorem update_restores_password_witness:
  "\<exists>x \<in> v_users mem_view (w_db (snd update_run)). ID x = ''alice'' \<and> us_Password x = ''h:old''"
proof -
  have "is_Ok (fst change_run)" "is_Ok (fst update_run)" by code_simp+
  then have runs: "user_Password mem_storm example_crypto example_manager ''20161215'' account_user example_change account_world
        = (Ok (the_Ok (fst change_run)), snd change_run)"
      "user_Update mem_storm example_crypto example_manager ''20161215'' account_user example_update (snd change_run)
        = (Ok (the_Ok (fst update_run)), snd update_run)"
    unfolding change_run_def update_run_def by (simp_all only: is_Ok_result)
  have found: "FindUser mem_storm ''alice'' account_world = Inr account_user" by code_simp
  show ?thesis
    using update_restores_password [OF mem_store found _ runs] by (auto simp: account_user_def)
qed

subsection \<open>Registrations\<close>

text \<open>The lookup of the email, the write of the user (with its hash and its time), and the payload.\<close>

definition register_task ::
  "'db storm \<Rightarrow> 'c crypto_scheme \<Rightarrow> manager \<Rightarrow> string \<Rightarrow> register_params \<Rightarrow> ('db world, (err, json) outcome) task" where
  "register_task S cr m version p =
     Op (\<lambda>w. case FindUserByMail S (rg_Email p) w of
               Inr _ \<Rightarrow> (Done (Err (NewWithTagCode 401 [] ''This email is already registered.'')), w)
             | Inl e \<Rightarrow>
                 if \<not> IsNotFound (Some e) then (Done (Err (Wrap ''could not get access to database'' e)), w)
                 else
                   (Op (\<lambda>w. let (salt, w1) = Rand w
                           in case cr_Generate cr salt (rg_RegistrationPassword p) of
                                Inl e \<Rightarrow> (Done (Err (Wrap ''could not store user password safe'' e)), w1)
                              | Inr hash \<Rightarrow>
                                  (let (now, w2) = Now w1;
                                       u = (registered_user p)\<lparr>us_Password := hash, us_PasswordUpdatedAt := time_Unix now\<rparr>;
                                       (u1, e, w3) = Save (st_users S) u w2
                                   in case e of
                                        Some e \<Rightarrow> (Done (Err (Wrap ''could not persist user'' e)), w3)
                                      | None \<Rightarrow>
                                          (Op (\<lambda>w. let (r, w1) = user_success S cr m version u1 (params.truncate p) None w
                                                  in (Done r, w1)), w3))), w))"

lemma run_register_task: "run_task (register_task S cr m version p) w = user_Register S cr m version p w"
  by (auto simp: register_task_def user_Register_def register_def Let_def Rand_def Now_def
      split: prod.splits option.splits sum.splits)

definition emails_unique :: "'db view \<Rightarrow> 'db world \<Rightarrow> bool" where
  "emails_unique V w \<longleftrightarrow>
     (\<forall>x \<in> v_users V (w_db w). \<forall>y \<in> v_users V (w_db w). us_Email x = us_Email y \<longrightarrow> us_Email x \<noteq> [] \<longrightarrow> x = y)"

definition email_promise :: "'db view \<Rightarrow> 'l \<Rightarrow> 'db world \<Rightarrow> 'r option \<Rightarrow> 'db world \<Rightarrow> bool" where
  "email_promise V l w r w' \<longleftrightarrow> (emails_unique V w \<longrightarrow> emails_unique V w')"

lemma emails_unique_cong: "v_users V (w_db w') = v_users V (w_db w) \<Longrightarrow> emails_unique V w' = emails_unique V w"
  by (simp add: emails_unique_def)

context store
begin

lemma Save_emails_unique:
  assumes "Save (st_users S) u w = (u1, e, w1)" and "emails_unique V w"
  shows "emails_unique V w1"
proof (cases e)
  case None
  note r = Save_result(1,4) [OF assms(1)]
  have new: "us_Email u1 \<noteq> us_Email x \<or> us_Email u1 = []" if "x \<in> v_users V (w_db w)" "ID x \<noteq> ID u1" for x
    using users.save_no_conflict [OF r(2) [OF None] that] by (auto simp: email_conflict_def)
  have rows: "v_users V (w_db w1) = insert u1 {x \<in> v_users V (w_db w). ID x \<noteq> ID u1}"
    using users.Save_rows [OF assms(1) [unfolded None]] .
  show ?thesis unfolding emails_unique_def rows
  proof (intro ballI impI)
    fix x y
    assume xy: "x \<in> insert u1 {x \<in> v_users V (w_db w). ID x \<noteq> ID u1}" "y \<in> insert u1 {x \<in> v_users V (w_db w). ID x \<noteq> ID u1}"
      "us_Email x = us_Email y" "us_Email x \<noteq> []"
    then consider "x = u1" "y = u1" | "x = u1" "y \<in> v_users V (w_db w)" "ID y \<noteq> ID u1"
      | "y = u1" "x \<in> v_users V (w_db w)" "ID x \<noteq> ID u1" | "x \<in> v_users V (w_db w)" "y \<in> v_users V (w_db w)" by blast
    then show "x = y"
      using xy(3,4) new [of x] new [of y] assms(2) by cases (auto simp: emails_unique_def)
  qed
next
  case (Some x)
  then show ?thesis using assms users.Save_rows_failed [of u w u1 x w1] by (simp add: emails_unique_def)
qed

text \<open>The draws of the random source and of the clock before a write do not matter.\<close>

lemma emails_unique_draws:
  "emails_unique V (w\<lparr>w_rands := n\<rparr>) = emails_unique V w" "emails_unique V (w\<lparr>w_ticks := n\<rparr>) = emails_unique V w"
  by (simp_all add: emails_unique_def)

lemma drawn_Save_emails_unique:
  "Save (st_users S) u (w\<lparr>w_rands := n, w_ticks := k\<rparr>) = (u1, e, w1) \<Longrightarrow> emails_unique V w \<Longrightarrow> emails_unique V w1"
  by (erule Save_emails_unique) (simp add: emails_unique_def)

lemma payload_emails_unique:
  "user_success S cr m version u q r w = (out, w1) \<Longrightarrow> emails_unique V w1 = emails_unique V w"
  by (rule emails_unique_cong) (simp add: payload.success_frame)

lemmas email_steps = email_promise_def Let_def Rand_def Now_def emails_unique_draws payload_emails_unique

lemma register_task_promise: "within (email_promise V l) (register_task S cr m version p)"
  by (auto simp: register_task_def within_Op_iff email_steps intro: drawn_Save_emails_unique
      split: prod.splits option.splits sum.splits)

lemma account_writes_promise: "within (email_promise V l) (Op (account_writes S cr m version u call))"
  by (auto simp: account_writes_def within_Op_iff email_steps
      intro: Save_emails_unique drawn_Save_emails_unique
      split: prod.splits option.splits sum.splits account_call.splits)

lemma account_task_promise: "within (email_promise V l) (account_task S cr m version i call)"
  unfolding account_task_def
  by (rule within_Op) (auto simp: email_promise_def account_writes_promise split: sum.splits)

end

text \<open>The requests that write users: registrations, and updates and changes of the password of the user \<open>i\<close>.\<close>

datatype account_request = Registers register_params | Account string account_call

primrec account_prog ::
  "'db storm \<Rightarrow> 'c crypto_scheme \<Rightarrow> manager \<Rightarrow> string \<Rightarrow> account_request \<Rightarrow> ('db world, (err, json) outcome) task" where
  "account_prog S cr m version (Registers p) = register_task S cr m version p"
| "account_prog S cr m version (Account i call) = account_task S cr m version i call"

sublocale store \<subseteq> account_requests: promises "account_prog S cr m version" "\<lambda>w w'. emails_unique V w \<longrightarrow> emails_unique V w'"
    "emails_unique V" "email_promise V" "\<lambda>evs. emails_unique V" for cr m version
proof (unfold_locales, goal_cases)
  case (1 l)
  then show ?case by (cases l) (simp_all add: register_task_promise account_task_promise)
qed (simp_all add: email_promise_def)

context store
begin

lemma accounts_unique:
  "interleaved (account_prog S cr m version) (\<lambda>w w'. emails_unique V w \<longrightarrow> emails_unique V w') (emails_unique V) evs ts w
   \<Longrightarrow> emails_unique V w"
  using account_requests.interleaved_keeps by blast

end

text \<open>Two registrations with the same email: both look for it before either has written.\<close>

definition racing_registrations ::
  "(account_request \<times> (err, json) outcome) list
   \<times> (account_request \<times> (memdb world, (err, json) outcome) task) list \<times> memdb world" where
  "racing_registrations = scheduled (account_prog mem_storm example_crypto example_manager ''20161215'')
     [Registers example_registration, Registers example_registration] [0, 1, 0, 1, 0] (memory_world 1000 empty_db)"

text \<open>
  However the storage operations of registrations, updates and changes of the password interleave, at
  whatever point of theirs other requests write that keep the emails apart, no two users share an email: two
  registrations may both find it free, or a change of the email and a registration, but the unique index of the
  storage refuses the second write.
\<close>

theorem emails_unique_interleaved:
  assumes "store S V"
    and "interleaved (account_prog S cr m version) (\<lambda>w w'. emails_unique V w \<longrightarrow> emails_unique V w') (emails_unique V) evs ts w"
    and "x \<in> v_users V (w_db w)" and "y \<in> v_users V (w_db w)" and "us_Email x = us_Email y" and "us_Email x \<noteq> []"
  shows "x = y"
  using store.accounts_unique [OF assms(1,2)] assms(3-6) by (simp add: emails_unique_def)

theorem emails_unique_interleaved_example:
  "map (is_Ok \<circ> snd) (fst racing_registrations) = [True, False]
   \<and> (\<exists>x. us_Email x = ''a@b'' \<and> v_users mem_view (w_db (snd (snd racing_registrations))) = {x})"
proof -
  have ended: "map (is_Ok \<circ> snd) (fst racing_registrations) = [True, False]"
    and emails: "map us_Email (md_users (w_db (snd (snd racing_registrations)))) = [''a@b'']" by code_simp+
  let ?U = "v_users mem_view (w_db (snd (snd racing_registrations)))"
  have start: "emails_unique mem_view (memory_world 1000 empty_db)"
    by (simp add: emails_unique_def mem_view_def memory_world_def empty_db_def)
  have run: "interleaved (account_prog mem_storm example_crypto example_manager ''20161215'')
      (\<lambda>w w'. emails_unique mem_view w \<longrightarrow> emails_unique mem_view w') (emails_unique mem_view)
      (fst racing_registrations) (fst (snd racing_registrations)) (snd (snd racing_registrations))"
    using start
    by (rule scheduled_interleaved [of _ _ _ _ "[0, 1, 0, 1, 0]"]) (simp add: racing_registrations_def)
  have users: "us_Email x = ''a@b''" if "x \<in> ?U" for x
    using that emails by (auto simp: mem_view_def)
  obtain x where x: "x \<in> ?U" using emails by (auto simp: mem_view_def)
  have "y = x" if "y \<in> ?U" for y
    using emails_unique_interleaved [OF mem_store run that x] users that x by simp
  then show ?thesis using ended users x by blast
qed

end
