(* ===== verification/Client_Log.thy ===== *)
theory Client_Log
  imports World
begin

text \<open>
  \<^verbatim>\<open>internal/client/tui/logger.go\<close>: the log file of the text interface. The interface owns the terminal, so the
  logger drops its output and writes through a hook, which every level fires, into a rotated file. The logging
  library, the rotation (\<^verbatim>\<open>lumberjack\<close>), the printing of values and of instants are parameters.
\<close>

datatype level = PanicLevel | FatalLevel | ErrorLevel | WarnLevel | InfoLevel | DebugLevel | TraceLevel

text \<open>The names of the levels, in upper case as \<^verbatim>\<open>strings.ToUpper(entry.Level.String())\<close> gives them.\<close>

fun level_NAME :: "level \<Rightarrow> string" where
  "level_NAME PanicLevel = ''PANIC''"
| "level_NAME FatalLevel = ''FATAL''"
| "level_NAME ErrorLevel = ''ERROR''"
| "level_NAME WarnLevel = ''WARNING''"
| "level_NAME InfoLevel = ''INFO''"
| "level_NAME DebugLevel = ''DEBUG''"
| "level_NAME TraceLevel = ''TRACE''"

text \<open>\<open>en_Data\<close> are the fields in the order in which Go ranges over their map, with the values as \<^verbatim>\<open>%v\<close> prints them.\<close>

record entry_log =
  en_Level :: level
  en_Message :: string
  en_Data :: "(string \<times> string) list"

fun join_strings :: "string \<Rightarrow> string list \<Rightarrow> string" where
  "join_strings sep [] = []"
| "join_strings sep [p] = p"
| "join_strings sep (p # ps) = p @ sep @ join_strings sep ps"

definition newline :: string where "newline = [CHR 0x0A]"

text \<open>\<open>rfc3339\<close> prints an instant in the local time zone; the name of the level is padded to five characters.\<close>

definition log_Format :: "(time \<Rightarrow> string) \<Rightarrow> entry_log \<Rightarrow> 'db world \<Rightarrow> (err + bytes) \<times> 'db world" where
  "log_Format rfc3339 entry w =
     (let fs = map (\<lambda>(k, v). k @ ''='' @ v) (en_Data entry);
          fields = (if en_Data entry \<noteq> [] then '' ('' @ join_strings '', '' fs @ '')'' else []);
          name = level_NAME (en_Level entry);
          (now, w1) = Now w
      in (Inr (''['' @ rfc3339 now @ ''] '' @ replicate (5 - length name) CHR '' '' @ name @ '': ''
                @ en_Message entry @ fields @ newline), w1))"

text \<open>The settings of the rotated file: its size in megabytes, the number of backups, their age in days.\<close>

record lumberjack =
  lj_Filename :: string
  lj_MaxSize :: int
  lj_MaxBackups :: int
  lj_MaxAge :: int

definition Fire ::
  "(entry_log \<Rightarrow> 'db world \<Rightarrow> (err + bytes) \<times> 'db world) \<Rightarrow> (bytes \<Rightarrow> 'db world \<Rightarrow> err option \<times> 'db world)
   \<Rightarrow> entry_log \<Rightarrow> 'db world \<Rightarrow> err option \<times> 'db world" where
  "Fire format rotate_Write entry w =
     (case format entry w of
        (Inl e, w1) \<Rightarrow> (Some e, w1)
      | (Inr msg, w1) \<Rightarrow> rotate_Write msg w1)"

definition hook_Levels :: "level list" where
  "hook_Levels = [PanicLevel, FatalLevel, ErrorLevel, WarnLevel, InfoLevel, DebugLevel, TraceLevel]"

text \<open>The logger: its output is discarded, its hook writes to the file.\<close>

record 'db logger =
  lg_Output :: "bytes \<Rightarrow> 'db world \<Rightarrow> err option \<times> 'db world"
  lg_Formatter :: "entry_log \<Rightarrow> 'db world \<Rightarrow> (err + bytes) \<times> 'db world"
  lg_Hook :: "entry_log \<Rightarrow> 'db world \<Rightarrow> err option \<times> 'db world"
  lg_Levels :: "level list"

definition NewLogger ::
  "(time \<Rightarrow> string) \<Rightarrow> (lumberjack \<Rightarrow> bytes \<Rightarrow> 'db world \<Rightarrow> err option \<times> 'db world) \<Rightarrow> 'db logger" where
  "NewLogger rfc3339 rotate_Write =
     \<lparr>lg_Output = (\<lambda>b w. (None, w)), lg_Formatter = log_Format rfc3339,
      lg_Hook = Fire (log_Format rfc3339)
        (rotate_Write \<lparr>lj_Filename = ''sfc.log'', lj_MaxSize = 20, lj_MaxBackups = 2, lj_MaxAge = 10\<rparr>),
      lg_Levels = hook_Levels\<rparr>"

text \<open>\<open>println\<close> is the library's \<^verbatim>\<open>Println\<close>; \<open>dump\<close> and \<open>show\<close> print a value with and without its structure.\<close>

definition debug ::
  "('db logger \<Rightarrow> string \<Rightarrow> 'db world \<Rightarrow> 'db world) \<Rightarrow> 'db logger \<Rightarrow> ('v \<Rightarrow> string) \<Rightarrow> ('v \<Rightarrow> string)
   \<Rightarrow> 'v \<Rightarrow> bool list \<Rightarrow> 'db world \<Rightarrow> 'db world" where
  "debug println new dump shown v verbose w =
     (if 0 < length verbose \<and> hd verbose then println new (dump v) w else println new (shown v) w)"

text \<open>
  Every entry of every level reaches the file, as one line when neither its message nor its fields have a line
  break; a failed write is the only failure.
\<close>

lemma hook_fires_always: "l \<in> set (lg_Levels (NewLogger rfc3339 wr))"
  by (cases l) (simp_all add: NewLogger_def hook_Levels_def)

lemma join_strings_newline:
  "CHR 0x0A \<notin> set sep \<Longrightarrow> \<forall>p \<in> set ps. CHR 0x0A \<notin> set p \<Longrightarrow> CHR 0x0A \<notin> set (join_strings sep ps)"
  by (induction sep ps rule: join_strings.induct) auto

lemma logged_line:
  assumes "\<And>t. CHR 0x0A \<notin> set (rfc3339 t)" and "CHR 0x0A \<notin> set (en_Message entry)"
    and "\<forall>(k, v) \<in> set (en_Data entry). CHR 0x0A \<notin> set k \<and> CHR 0x0A \<notin> set v"
  shows "\<exists>line. CHR 0x0A \<notin> set line \<and> lg_Hook (NewLogger rfc3339 wr) entry w
    = wr \<lparr>lj_Filename = ''sfc.log'', lj_MaxSize = 20, lj_MaxBackups = 2, lj_MaxAge = 10\<rparr> (line @ newline) (snd (Now w))"
proof -
  let ?name = "level_NAME (en_Level entry)"
  let ?fs = "map (\<lambda>(k, v). k @ ''='' @ v) (en_Data entry)"
  let ?line = "''['' @ rfc3339 (fst (Now w)) @ ''] '' @ replicate (5 - length ?name) CHR '' '' @ ?name @ '': ''
    @ en_Message entry @ (if en_Data entry \<noteq> [] then '' ('' @ join_strings '', '' ?fs @ '')'' else [])"
  have "CHR 0x0A \<notin> set ?name" by (cases "en_Level entry") simp_all
  moreover have "CHR 0x0A \<notin> set (join_strings '', '' ?fs)"
    using assms(3) by (intro join_strings_newline) auto
  ultimately have "CHR 0x0A \<notin> set ?line" using assms(1,2) by auto
  moreover have "lg_Hook (NewLogger rfc3339 wr) entry w
    = wr \<lparr>lj_Filename = ''sfc.log'', lj_MaxSize = 20, lj_MaxBackups = 2, lj_MaxAge = 10\<rparr> (?line @ newline) (snd (Now w))"
    by (simp add: NewLogger_def Fire_def log_Format_def split_beta Let_def)
  ultimately show ?thesis by blast
qed

end
