(* ===== verification/Client_Config.thy ===== *)
theory Client_Config
  imports Client_Files
begin

text \<open>
  \<^verbatim>\<open>internal/client/config.go\<close>: the credentials of the client, kept in a file that a passphrase encrypts.
  The file is the salt of the key derivation, the nonce of the AEAD and the ciphertext of the configuration
  in JSON. Which fields the JSON has is modelled here (those tagged \<^verbatim>\<open>-\<close> are not in it), its text is a
  parameter.
\<close>

subsection \<open>The configuration and its JSON\<close>

record config =
  cf_Endpoint :: string
  cf_Email :: string
  cf_BearerToken :: string
  cf_Session :: csession
  cf_KeyChain :: keychain

record keychain_json =
  kj_Version :: string
  kj_Password :: string
  kj_MasterKey :: string
  kj_AuthKey :: string

record config_json =
  cj_Endpoint :: string
  cj_Email :: string
  cj_BearerToken :: string
  cj_Session :: "session_json option"
  cj_KeyChain :: keychain_json

definition keychain_MarshalJSON :: "keychain \<Rightarrow> keychain_json" where
  "keychain_MarshalJSON k =
     \<lparr>kj_Version = kc_Version k, kj_Password = kc_Password k, kj_MasterKey = kc_MasterKey k, kj_AuthKey = kc_AuthKey k\<rparr>"

definition config_MarshalJSON :: "config \<Rightarrow> config_json" where
  "config_MarshalJSON cfg =
     \<lparr>cj_Endpoint = cf_Endpoint cfg, cj_Email = cf_Email cfg, cj_BearerToken = cf_BearerToken cfg,
      cj_Session = Some (session_MarshalJSON (cf_Session cfg)), cj_KeyChain = keychain_MarshalJSON (cf_KeyChain cfg)\<rparr>"

text \<open>Decoding starts from a configuration whose map of items keys is empty.\<close>

definition config_UnmarshalJSON :: "config_json \<Rightarrow> config" where
  "config_UnmarshalJSON j =
     \<lparr>cf_Endpoint = cj_Endpoint j, cf_Email = cj_Email j, cf_BearerToken = cj_BearerToken j,
      cf_Session = (case cj_Session j of None \<Rightarrow> zero_session | Some s \<Rightarrow> session_UnmarshalJSON s),
      cf_KeyChain = \<lparr>kc_Version = kj_Version (cj_KeyChain j), kc_Password = kj_Password (cj_KeyChain j),
        kc_MasterKey = kj_MasterKey (cj_KeyChain j), kc_AuthKey = kj_AuthKey (cj_KeyChain j),
        kc_ItemsKey = Some Map.empty\<rparr>\<rparr>"

text \<open>The JSON texts of the commands, and the time stamp of a backup's name.\<close>

record 'n client_lib = "'n prompts" +
  li_MarshalConfig :: "config_json \<Rightarrow> err + bytes"
  li_UnmarshalConfig :: "bytes \<Rightarrow> config_json \<times> err option"
  li_MarshalAuth :: "auth \<Rightarrow> err + bytes"
  li_MarshalItems :: "citem option list \<Rightarrow> err + bytes"
  li_UnmarshalItems :: "bytes \<Rightarrow> citem option list \<times> err option"
  li_MarshalNotes :: "Note list \<Rightarrow> err + bytes"
  li_Timestamp :: "time \<Rightarrow> string"

subsection \<open>Loading and saving\<close>

definition credentialsfile :: string where "credentialsfile = ''.standardfile''"
definition saltKeyLength :: nat where "saltKeyLength = 16"

definition config_key :: "ciphers \<Rightarrow> string \<Rightarrow> bytes \<Rightarrow> bytes" where
  "config_key ci pass salt = ci_IDKey ci pass salt 3 65536 2 32"

definition Remove :: "'n outside world \<Rightarrow> err option \<times> 'n outside world" where
  "Remove w = os_Remove credentialsfile w"

text \<open>What is done with the bytes of the file; slicing a file that is too short panics.\<close>

definition open_credentials :: "ciphers \<Rightarrow> 'n client_lib \<Rightarrow> string \<Rightarrow> bytes \<Rightarrow> (err, config) outcome" where
  "open_credentials ci li pass file =
     (if length file < saltKeyLength then Panic ''slice bounds out of range''
      else
        let salt = take saltKeyLength file; rest = drop saltKeyLength file; hash = config_key ci pass salt
        in obind (wrap_err (Wrap ''could not create AEAD'') (chacha_NewX hash)) (\<lambda>_.
           if length rest < 24 then Panic ''slice bounds out of range''
           else
             obind (wrap_outcome ''could not decrypt credentials file'' (ci_XOpen ci hash (take 24 rest) (drop 24 rest) []))
               (\<lambda>payload.
                 case li_UnmarshalConfig li payload of
                   (j, None) \<Rightarrow> Ok (config_UnmarshalJSON j)
                 | (_, Some e) \<Rightarrow> Err (Wrap ''could not parse config'' e))))"

definition Load :: "ciphers \<Rightarrow> 'n client_lib \<Rightarrow> 'n outside world \<Rightarrow> (err, config) outcome \<times> 'n outside world" where
  "Load ci li w =
     (case os_ReadFile credentialsfile w of
        (Inl e, w1) \<Rightarrow> (Err (Wrap ''could not read credentials file'' e), w1)
      | (Inr file, w1) \<Rightarrow>
          (case ask (li_Password li ''passphrase: '') w1 of
             (Inl e, w2) \<Rightarrow> (Err (Wrap ''could not read passphrase from stdin'' e), w2)
           | (Inr pass, w2) \<Rightarrow> (open_credentials ci li pass file, w2)))"

definition Save_config :: "ciphers \<Rightarrow> 'n client_lib \<Rightarrow> config \<Rightarrow> 'n outside world \<Rightarrow> err option \<times> 'n outside world" where
  "Save_config ci li cfg w =
     (case li_MarshalConfig li (config_MarshalJSON cfg) of
        Inl e \<Rightarrow> (Some (Wrap ''could not serialize config'' e), w)
      | Inr payload \<Rightarrow>
     (case ask (li_Password li ''passphrase: '') w of
        (Inl e, w1) \<Rightarrow> (Some (Wrap ''could not read passphrase from stdin'' e), w1)
      | (Inr pass, w1) \<Rightarrow>
     (case ask (li_Random li saltKeyLength) w1 of
        (Inl e, w2) \<Rightarrow> (Some (Wrap ''could not generate salt for credentials'' e), w2)
      | (Inr salt, w2) \<Rightarrow>
     (case chacha_NewX (config_key ci pass salt) of
        Inl e \<Rightarrow> (Some (Wrap ''could not create AEAD'' e), w2)
      | Inr hash \<Rightarrow>
     (case ask (li_Random li 24) w2 of
        (Inl e, w3) \<Rightarrow> (Some (Wrap ''could not generate nonce for credentials'' e), w3)
      | (Inr nonce, w3) \<Rightarrow>
          write_file (''could not create '' @ credentialsfile) ''could not store credentials'' ''could not store credentials''
            credentialsfile (salt @ nonce @ ci_XSeal ci hash nonce payload []) w3)))))"

subsection \<open>Keeping the session alive\<close>

text \<open>A session that is good for an hour is kept.\<close>

definition Refresh ::
  "ciphers \<Rightarrow> 'n client_lib \<Rightarrow> 'n http_lib \<Rightarrow> client \<Rightarrow> config \<Rightarrow> 'n outside world
   \<Rightarrow> err option \<times> client \<times> config \<times> 'n outside world" where
  "Refresh ci li ht c cfg w =
     (let (now, w1) = Now w
      in if \<not> AccessExpiredAt (cf_Session cfg) (now + hours 1) then (None, c, cfg, w1)
         else
           case on_net (RefreshSession ht c (cs_AccessToken (cf_Session cfg)) (cs_RefreshToken (cf_Session cfg))) w1 of
             (Inl e, w2) \<Rightarrow> (Some (Wrap ''could not refresh session'' e), c, cfg, w2)
           | (Inr session, w2) \<Rightarrow>
               (let cfg1 = cfg\<lparr>cf_Session := session\<rparr>;
                    c1 = SetSession session c;
                    (e, w3) = Save_config ci li cfg1 w2
                in (wrap_opt ''could not save refreshed session'' e, c1, cfg1, w3)))"

subsection \<open>What was saved is loaded\<close>

text \<open>A configuration as the file keeps it.\<close>

definition stored_config :: "config \<Rightarrow> config" where
  "stored_config cfg =
     cfg\<lparr>cf_Session := session_UnmarshalJSON (session_MarshalJSON (cf_Session cfg)),
         cf_KeyChain := (cf_KeyChain cfg)\<lparr>kc_ItemsKey := Some Map.empty\<rparr>\<rparr>"

lemma config_JSON [simp]: "config_UnmarshalJSON (config_MarshalJSON cfg) = stored_config cfg"
  by (simp add: config_UnmarshalJSON_def config_MarshalJSON_def stored_config_def keychain_MarshalJSON_def)

text \<open>An instant within 64 bits of milliseconds is kept to the millisecond.\<close>

lemma session_JSON:
  "in_int64 (cs_AccessExpiration s div 1000000) \<Longrightarrow> in_int64 (cs_RefreshExpiration s div 1000000) \<Longrightarrow>
   session_UnmarshalJSON (session_MarshalJSON s)
     = s\<lparr>cs_AccessExpiration := cs_AccessExpiration s - cs_AccessExpiration s mod 1000000,
         cs_RefreshExpiration := cs_RefreshExpiration s - cs_RefreshExpiration s mod 1000000\<rparr>"
  by (simp add: session_UnmarshalJSON_def session_MarshalJSON_def UnixMilli_def time_of_milli_def wrap64_id
      minus_mod_eq_div_mult)

definition reads_back :: "'n client_lib \<Rightarrow> config \<Rightarrow> bool" where
  "reads_back li cfg \<longleftrightarrow>
     (case li_MarshalConfig li (config_MarshalJSON cfg) of
        Inl _ \<Rightarrow> True | Inr b \<Rightarrow> li_UnmarshalConfig li b = (config_MarshalJSON cfg, None))"

lemma Save_NoneE:
  assumes "Save_config ci li cfg w = (None, w1)"
  obtains payload pass salt nonce w3 where "li_MarshalConfig li (config_MarshalJSON cfg) = Inr payload"
    and "fst (li_Password li ''passphrase: '' (o_net (w_db w))) = Inr pass"
    and "\<exists>x. fst (li_Random li saltKeyLength x) = Inr salt" and "\<exists>x. fst (li_Random li 24 x) = Inr nonce"
    and "length (config_key ci pass salt) = 32"
    and "o_files (w_db w1) = (o_files (w_db w))
           (credentialsfile \<mapsto> salt @ nonce @ ci_XSeal ci (config_key ci pass salt) nonce payload [])"
proof -
  obtain payload where p: "li_MarshalConfig li (config_MarshalJSON cfg) = Inr payload"
    using assms by (cases "li_MarshalConfig li (config_MarshalJSON cfg)") (auto simp: Save_config_def)
  obtain r1 x1 where a1: "ask (li_Password li ''passphrase: '') w = (r1, x1)" by force
  then obtain pass where pass: "r1 = Inr pass" using assms p by (cases r1) (auto simp: Save_config_def)
  obtain r2 x2 where a2: "ask (li_Random li saltKeyLength) x1 = (r2, x2)" by force
  then obtain salt where salt: "r2 = Inr salt" using assms p a1 pass by (cases r2) (auto simp: Save_config_def)
  have key: "length (config_key ci pass salt) = 32"
    using assms p a1 pass a2 salt by (auto simp: Save_config_def chacha_NewX_def split: if_splits)
  obtain r3 x3 where a3: "ask (li_Random li 24) x2 = (r3, x3)" by force
  then obtain nonce where nonce: "r3 = Inr nonce"
    using assms p a1 pass a2 salt key by (cases r3) (auto simp: Save_config_def chacha_NewX_def)
  have "o_files (w_db w1) = (o_files (w_db x3))
      (credentialsfile \<mapsto> salt @ nonce @ ci_XSeal ci (config_key ci pass salt) nonce payload [])"
    using assms p a1 pass a2 salt key a3 nonce by (auto simp: Save_config_def chacha_NewX_def dest: write_file_ok)
  moreover have "o_files (w_db x3) = o_files (w_db w)"
    using ask_frame [OF a1] ask_frame [OF a2] ask_frame [OF a3] by (simp only:)
  moreover have "fst (li_Password li ''passphrase: '' (o_net (w_db w))) = Inr pass"
    using fst_ask [of "li_Password li ''passphrase: ''" w] a1 pass by simp
  moreover have "\<exists>x. fst (li_Random li saltKeyLength x) = Inr salt" "\<exists>x. fst (li_Random li 24 x) = Inr nonce"
    using fst_ask [of "li_Random li saltKeyLength" x1] fst_ask [of "li_Random li 24" x2] a2 a3 salt nonce by auto
  ultimately show thesis using that p key by metis
qed

lemma Save_opens:
  assumes prim: "primitives ci" and li: "prompter li" and save: "Save_config ci li cfg w = (None, w1)" and "reads_back li cfg"
    and pass: "fst (li_Password li ''passphrase: '' (o_net (w_db w))) = Inr pass"
  shows "\<exists>file. o_files (w_db w1) = (o_files (w_db w))(credentialsfile \<mapsto> file)
    \<and> open_credentials ci li pass file = Ok (stored_config cfg)"
  using save
proof (rule Save_NoneE)
  fix payload pass' salt nonce w3
  assume p: "li_MarshalConfig li (config_MarshalJSON cfg) = Inr payload"
    and "fst (li_Password li ''passphrase: '' (o_net (w_db w))) = Inr pass'"
    and salt: "\<exists>x. fst (li_Random li saltKeyLength x) = Inr salt" and nonce: "\<exists>x. fst (li_Random li 24 x) = Inr nonce"
    and key: "length (config_key ci pass' salt) = 32"
    and files: "o_files (w_db w1) = (o_files (w_db w))
           (credentialsfile \<mapsto> salt @ nonce @ ci_XSeal ci (config_key ci pass' salt) nonce payload [])"
  then have "pass' = pass" using pass by simp
  moreover have "length salt = saltKeyLength" "length nonce = 24"
    using salt nonce prompter.Random_length [OF li] by blast+
  moreover have "li_UnmarshalConfig li payload = (config_MarshalJSON cfg, None)"
    using assms(4) p by (simp add: reads_back_def)
  ultimately have "open_credentials ci li pass (salt @ nonce @ ci_XSeal ci (config_key ci pass' salt) nonce payload [])
      = Ok (stored_config cfg)"
    using key primitives.XOpen_XSeal [OF prim] by (simp add: open_credentials_def chacha_NewX_def wrap_outcome_def)
  then show ?thesis using files by blast
qed

lemma Load_reads:
  assumes "o_files (w_db w) credentialsfile = Some ct" and "o_fault (w_db w) (o_fileops (w_db w)) = None"
    and "fst (li_Password li ''passphrase: '' (o_net (w_db w))) = Inr pass"
  shows "fst (Load ci li w) = open_credentials ci li pass ct"
proof -
  have r: "fst (os_ReadFile credentialsfile w) = Inr ct" using assms(1,2) by (simp add: os_ReadFile_Inr_iff)
  obtain w1 where w1: "os_ReadFile credentialsfile w = (Inr ct, w1)" using r by (metis prod.collapse)
  then have net: "o_net (w_db w1) = o_net (w_db w)" using os_ReadFile_files [of credentialsfile w] by simp
  then obtain w2 where "ask (li_Password li ''passphrase: '') w1 = (Inr pass, w2)"
    using fst_ask [of "li_Password li ''passphrase: ''" w1] assms(3) by (metis prod.collapse)
  then show ?thesis using w1 by (simp add: Load_def)
qed

lemma config_UnmarshalJSON_ItemsKey: "kc_ItemsKey (cf_KeyChain (config_UnmarshalJSON j)) = Some Map.empty"
  by (simp add: config_UnmarshalJSON_def)

lemma open_credentials_OkE:
  assumes "open_credentials ci li pass file = Ok cfg"
  obtains j where "cfg = config_UnmarshalJSON j"
proof -
  obtain payload where "(case li_UnmarshalConfig li payload of
      (j, None) \<Rightarrow> Ok (config_UnmarshalJSON j) | (_, Some e) \<Rightarrow> Err (Wrap ''could not parse config'' e)) = Ok cfg"
    using assms by (auto simp: open_credentials_def Let_def split: if_splits)
  then show thesis using that by (cases "li_UnmarshalConfig li payload") (auto split: option.splits)
qed

lemma Load_ItemsKey: "Load ci li w = (Ok cfg, w1) \<Longrightarrow> kc_ItemsKey (cf_KeyChain cfg) = Some Map.empty"
  by (auto simp: Load_def config_UnmarshalJSON_ItemsKey elim!: open_credentials_OkE split: prod.splits sum.splits)

end
