(* ===== verification/Client_Commands.thy ===== *)
theory Client_Commands
  imports Client_Config
begin

text \<open>
  The commands of \<^verbatim>\<open>internal/client\<close>: logging in and out, the backup of all items and the decryption of a
  backup. A command reads and writes files, asks at the terminal and talks to the server; its only result is
  an error or a panic.
\<close>

subsection \<open>Shared steps\<close>

definition done_or :: "string \<Rightarrow> err option \<Rightarrow> (err, unit) outcome" where
  "done_or what e = (case e of None \<Rightarrow> Ok () | Some e \<Rightarrow> Err (Wrap what e))"

text \<open>\<open>backup\<close> of a value whose serialization is given.\<close>

definition backup :: "err + bytes \<Rightarrow> string \<Rightarrow> 'n outside world \<Rightarrow> err option \<times> 'n outside world" where
  "backup v filename w =
     (case v of
        Inl e \<Rightarrow> (Some (Wrap ''could not serialize value to backup'' e), w)
      | Inr payload \<Rightarrow>
          write_file ''could not create backup file'' ''could not write backuped values'' ''could not backup'' filename payload w)"

definition NewDefaultClient :: "'n http_lib \<Rightarrow> string \<Rightarrow> client \<times> err option" where
  "NewDefaultClient ht endpoint = NewClient ht APIVersion endpoint"

text \<open>The start of a command that works for a logged-in user: its client, with a session that is refreshed.\<close>

definition connect ::
  "ciphers \<Rightarrow> 'n client_lib \<Rightarrow> 'n http_lib \<Rightarrow> config \<Rightarrow> 'n outside world
   \<Rightarrow> (err, client \<times> config) outcome \<times> 'n outside world" where
  "connect ci li ht cfg w =
     (case NewDefaultClient ht (cf_Endpoint cfg) of
        (c, Some e) \<Rightarrow> (Err (Wrap ''could not reach StandardFile endpoint'' e), w)
      | (c, None) \<Rightarrow>
          (let c1 = SetBearerToken (cf_BearerToken cfg) c
           in if Defined (cf_Session cfg)
              then (case Refresh ci li ht (SetSession (cf_Session cfg) c1) cfg w of
                      (Some e, _, _, w1) \<Rightarrow> (Err e, w1)
                    | (None, c2, cfg1, w1) \<Rightarrow> (Ok (c2, cfg1), w1))
              else (Ok (c1, cfg), w)))"

subsection \<open>Login and logout\<close>

definition cmd_Login ::
  "ciphers \<Rightarrow> 'n client_lib \<Rightarrow> 'n http_lib \<Rightarrow> 'n outside world \<Rightarrow> (err, unit) outcome \<times> 'n outside world" where
  "cmd_Login ci li ht w =
     (case ask (li_Line li ''Endpoint: '') w of
        (Inl e, w1) \<Rightarrow> (Err (Wrap ''could not read endpoint from stdin'' e), w1)
      | (Inr endpoint, w1) \<Rightarrow>
     (case NewDefaultClient ht endpoint of
        (_, Some e) \<Rightarrow> (Err (Wrap ''could not reach given endpoint'' e), w1)
      | (c, None) \<Rightarrow>
     (case ask (li_Line li ''Email: '') w1 of
        (Inl e, w2) \<Rightarrow> (Err (Wrap ''could not read email from stdin'' e), w2)
      | (Inr email, w2) \<Rightarrow>
     (case on_net (GetAuthParams ht c email) w2 of
        (Inl e, w3) \<Rightarrow> (Err (Wrap ''could not get auth params'' e), w3)
      | (Inr a, w3) \<Rightarrow>
     (case IntegrityCheck a of
        Some e \<Rightarrow> (Err (Wrap ''invalid auth params'' e), w3)
      | None \<Rightarrow>
     (case ask (li_Password li ''Password: '') w3 of
        (Inl e, w4) \<Rightarrow> (Err (Wrap ''could not read password from stdin'' e), w4)
      | (Inr uip, w4) \<Rightarrow>
     (let (k, w5) = on_net (SymmetricKeyPair ci a uip) w4;
          ((e, c1), w6) = on_net (\<lambda>n. let (e, c1, n1) = client_Login ht (au_Identifier a) (kc_Password k) c n in ((e, c1), n1)) w5
      in case e of
           Some e \<Rightarrow> (Err (Wrap ''could not login'' e), w6)
         | None \<Rightarrow>
             (let cfg = \<lparr>cf_Endpoint = endpoint, cf_Email = email, cf_BearerToken = cl_bearer c1,
                         cf_Session = cl_session c1, cf_KeyChain = k\<lparr>kc_Password := []\<rparr>\<rparr>;
                  (e, w7) = Save_config ci li cfg w6
              in (case e of None \<Rightarrow> Ok () | Some e \<Rightarrow> Err e, w7)))))))))"

definition cmd_Logout ::
  "ciphers \<Rightarrow> 'n client_lib \<Rightarrow> 'n http_lib \<Rightarrow> 'n outside world \<Rightarrow> (err, unit) outcome \<times> 'n outside world" where
  "cmd_Logout ci li ht w =
     (case Load ci li w of
        (Err e, w1) \<Rightarrow> (Err (Wrap ''could not load config'' e), w1)
      | (Panic p, w1) \<Rightarrow> (Panic p, w1)
      | (Ok cfg, w1) \<Rightarrow>
     (case NewDefaultClient ht (cf_Endpoint cfg) of
        (_, Some e) \<Rightarrow> (Err (Wrap ''could not reach StandardFile endpoint'' e), w1)
      | (c, None) \<Rightarrow>
          if \<not> Defined (cf_Session cfg) then (Err (ErrLib ''could not logout because session is not defined''), w1)
          else
            (case on_net (client_Logout ht (SetSession (cf_Session cfg) c)) w1 of
               (Some e, w2) \<Rightarrow> (Err (Wrap ''could not logout'' e), w2)
             | (None, w2) \<Rightarrow> (let (e, w3) = Remove w2 in (done_or ''could not remive credential file'' e, w3)))))"

subsection \<open>Backup\<close>

definition cmd_Backup ::
  "ciphers \<Rightarrow> 'n client_lib \<Rightarrow> 'n http_lib \<Rightarrow> 'n outside world \<Rightarrow> (err, unit) outcome \<times> 'n outside world" where
  "cmd_Backup ci li ht w =
     (case Load ci li w of
        (Err e, w1) \<Rightarrow> (Err (Wrap ''could not load config'' e), w1)
      | (Panic p, w1) \<Rightarrow> (Panic p, w1)
      | (Ok cfg, w1) \<Rightarrow>
     (case connect ci li ht cfg w1 of
        (Err e, w2) \<Rightarrow> (Err e, w2)
      | (Panic p, w2) \<Rightarrow> (Panic p, w2)
      | (Ok (c, cfg1), w2) \<Rightarrow>
     (case on_net (GetAuthParams ht c (cf_Email cfg1)) w2 of
        (Inl e, w3) \<Rightarrow> (Err (Wrap ''could not get auth params'' e), w3)
      | (Inr a, w3) \<Rightarrow>
     (case backup (li_MarshalAuth li a) ''auth_params.json'' w3 of
        (Some e, w4) \<Rightarrow> (Err (Wrap ''auth_params'' e), w4)
      | (None, w4) \<Rightarrow>
     (case on_net (\<lambda>n. let (items, e, n1) = SyncItems ht c NewSyncItems n in ((items, e), n1)) w4 of
        ((items, Some e), w5) \<Rightarrow> (Err (Wrap ''could not get items'' e), w5)
      | ((items, None), w5) \<Rightarrow>
          (let (now, w6) = Now w5;
               (e, w7) = backup (li_MarshalItems li (si_Retrieved items)) (''items_'' @ li_Timestamp li now @ ''.json'') w6
           in (done_or ''items'' e, w7)))))))"

subsection \<open>Decrypting a backup\<close>

text \<open>\<open>strings.Replace\<close> of the first occurrence.\<close>

fun strings_Replace1 :: "string \<Rightarrow> string \<Rightarrow> string \<Rightarrow> string" where
  "strings_Replace1 old new [] = (if old = [] then new else [])"
| "strings_Replace1 old new (x # xs) =
     (if take (length old) (x # xs) = old then new @ drop (length old) (x # xs) else x # strings_Replace1 old new xs)"

text \<open>The loop over the retrieved items: items of another type are skipped, a nil item is dereferenced.\<close>

fun unseal_notes ::
  "ciphers \<Rightarrow> note_codecs \<Rightarrow> keychain \<Rightarrow> citem option list \<Rightarrow> (err, Note list) outcome" where
  "unseal_notes ci js k [] = Ok []"
| "unseal_notes ci js k (None # is) = Panic ''nil pointer dereference''"
| "unseal_notes ci js k (Some i # is) =
     (if ct_ContentType i \<noteq> ContentTypeNote then unseal_notes ci js k is
      else
        obind (wrap_outcome ''could not unseal item'' (Item_Unseal ci js k i)) (\<lambda>(i1, k1).
        case ct_Note i1 of
          None \<Rightarrow> Panic ''nil pointer dereference''
        | Some n \<Rightarrow> map_outcome_value (\<lambda>ns. n # ns) (unseal_notes ci js k1 is)))"

definition cmd_Unseal ::
  "ciphers \<Rightarrow> 'n client_lib \<Rightarrow> note_codecs \<Rightarrow> string \<Rightarrow> 'n outside world
   \<Rightarrow> (err, unit) outcome \<times> 'n outside world" where
  "cmd_Unseal ci li js filename w =
     (case Load ci li w of
        (Err e, w1) \<Rightarrow> (Err (Wrap ''could not load config'' e), w1)
      | (Panic p, w1) \<Rightarrow> (Panic p, w1)
      | (Ok cfg, w1) \<Rightarrow>
     (case os_ReadFile filename w1 of
        (Inl e, w2) \<Rightarrow> (Err (Wrap ''could not load file'' e), w2)
      | (Inr data, w2) \<Rightarrow>
     (case li_UnmarshalItems li data of
        (_, Some e) \<Rightarrow> (Err (Wrap ''could not parse backuped notes'' e), w2)
      | (items, None) \<Rightarrow>
     (case unseal_notes ci js (cf_KeyChain cfg) items of
        Err e \<Rightarrow> (Err e, w2)
      | Panic p \<Rightarrow> (Panic p, w2)
      | Ok notes \<Rightarrow>
          (let (e, w3) = backup (li_MarshalNotes li notes) (strings_Replace1 ''items_'' ''notes_'' filename) w2
           in (done_or ''notes'' e, w3))))))"

lemma backup_ok:
  "backup v name w = (None, w1) \<Longrightarrow> \<exists>b. v = Inr b \<and> o_files (w_db w1) = (o_files (w_db w))(name \<mapsto> b)"
  by (auto simp: backup_def dest: write_file_ok split: sum.splits)

subsection \<open>Notes under protocol 004\<close>

text \<open>Without a key there is nothing an item's key can be unsealed with.\<close>

lemma vault_unseal_no_key: "kc_MasterKey k = [] \<Longrightarrow> vault_unseal ci k v \<noteq> Ok p"
  by (cases v)
    (auto simp: vault_unseal_def unseal3_def unseal4_def hex_DecodeString_def aes_NewCipher_def chacha_NewX_def split: if_splits)

lemma vault_unseal_no_panic: "kc_MasterKey k = [] \<Longrightarrow> vault_unseal ci k v \<noteq> Panic x"
  by (cases v)
    (auto simp: vault_unseal_def unseal3_def unseal4_def obind_Panic_iff hex_DecodeString_def aes_NewCipher_def
      chacha_NewX_def split: if_splits)

lemma note_without_items_key:
  assumes "kc_Version k = ProtocolVersion4" and "kc_ItemsKey k = Some Map.empty" and "ct_ContentType i = ContentTypeNote"
  shows "\<exists>e. Item_Unseal ci js k i = Err e"
proof (cases "ct_EncryptedItemKey i = []")
  case False
  let ?i = "\<lambda>kv. vault_configure kv (i\<lparr>ct_key := Some kv\<rparr>)"
  have key: "kc_MasterKey (keyKeyChain k (?i kv)) = []" for kv
    using assms by (simp add: keyKeyChain_def ContentTypeNote_def ContentTypeItemsKey_def)
  have parse: "parse_vault js' s j \<noteq> Panic p" for js' s j p
    by (cases "parse3 js' (split_on CHR '':'' s) j"; cases "parse4 js' (split_on CHR '':'' s)")
      (auto simp: parse_vault_def parse3_def parse4_def Let_def obind_Panic_iff split: if_splits)
  show ?thesis
  proof (cases "parse_vault (codecs.truncate js) (ct_EncryptedItemKey i) (ct_ID i)")
    case (Ok kv)
    then show ?thesis using False vault_unseal_no_key [OF key] vault_unseal_no_panic [OF key]
      by (cases "vault_unseal ci (keyKeyChain k (?i kv)) kv") (auto simp: Item_Unseal_def wrap_outcome_def)
  qed (use False parse in \<open>auto simp: Item_Unseal_def wrap_outcome_def\<close>)
qed (simp add: Item_Unseal_def)

lemma notes_without_items_key:
  assumes "kc_Version k = ProtocolVersion4" and "kc_ItemsKey k = Some Map.empty"
    and "\<exists>i. Some i \<in> set is \<and> ct_ContentType i = ContentTypeNote" and "None \<notin> set is"
  shows "\<exists>e. unseal_notes ci js k is = Err e"
  using assms(3,4)
proof (induction "is")
  case (Cons x xs)
  then obtain i where x: "x = Some i" by (cases x) auto
  show ?case
  proof (cases "ct_ContentType i = ContentTypeNote")
    case True
    then obtain e where "Item_Unseal ci js k i = Err e" using note_without_items_key [OF assms(1,2)] by blast
    then show ?thesis using x True by (simp add: wrap_outcome_def)
  qed (use Cons x in auto)
qed simp

subsection \<open>A login that succeeds\<close>

lemma cmd_Login_OkE:
  fixes w :: "'n outside world"
  assumes "cmd_Login ci li ht w = (Ok (), w1)"
  obtains endpoint email a uip k w6 and c :: client and w4 :: "'n world" where "IntegrityCheck a = None"
    and "\<exists>x. fst (li_Password li ''Password: '' x) = Inr uip"
    and "k = fst (SymmetricKeyPair ci a uip w4)"
    and "o_files (w_db w6) = o_files (w_db w)"
    and "Save_config ci li \<lparr>cf_Endpoint = endpoint, cf_Email = email, cf_BearerToken = cl_bearer c,
           cf_Session = cl_session c, cf_KeyChain = k\<lparr>kc_Password := []\<rparr>\<rparr> w6 = (None, w1)"
proof -
  obtain r1 x1 where a1: "ask (li_Line li ''Endpoint: '') w = (r1, x1)" by force
  then obtain endpoint where e1: "r1 = Inr endpoint" using assms by (cases r1) (auto simp: cmd_Login_def)
  obtain c ce where c: "NewDefaultClient ht endpoint = (c, ce)" by force
  then have ce: "ce = None" using assms a1 e1 by (cases ce) (auto simp: cmd_Login_def)
  obtain r2 x2 where a2: "ask (li_Line li ''Email: '') x1 = (r2, x2)" by force
  then obtain email where e2: "r2 = Inr email" using assms a1 e1 c ce by (cases r2) (auto simp: cmd_Login_def)
  obtain r3 x3 where a3: "on_net (GetAuthParams ht c email) x2 = (r3, x3)" by force
  then obtain a where e3: "r3 = Inr a" using assms a1 e1 c ce a2 e2 by (cases r3) (auto simp: cmd_Login_def)
  have ok: "IntegrityCheck a = None"
    using assms a1 e1 c ce a2 e2 a3 e3 by (cases "IntegrityCheck a") (auto simp: cmd_Login_def)
  obtain r4 x4 where a4: "ask (li_Password li ''Password: '') x3 = (r4, x4)" by force
  then obtain uip where e4: "r4 = Inr uip"
    using assms a1 e1 c ce a2 e2 a3 e3 ok by (cases r4) (auto simp: cmd_Login_def)
  obtain k x5 where a5: "on_net (SymmetricKeyPair ci a uip) x4 = (k, x5)" by force
  obtain le c1 x6 where a6: "on_net (\<lambda>n. let (e, c1, n1) = client_Login ht (au_Identifier a) (kc_Password k) c n in ((e, c1), n1)) x5
      = ((le, c1), x6)" by (metis prod.collapse)
  have le: "le = None" using assms a1 e1 c ce a2 e2 a3 e3 ok a4 e4 a5 a6 by (cases le) (auto simp: cmd_Login_def)
  have save: "Save_config ci li \<lparr>cf_Endpoint = endpoint, cf_Email = email, cf_BearerToken = cl_bearer c1,
      cf_Session = cl_session c1, cf_KeyChain = k\<lparr>kc_Password := []\<rparr>\<rparr> x6 = (None, w1)"
    using assms a1 e1 c ce a2 e2 a3 e3 ok a4 e4 a5 a6 le
    by (auto simp: cmd_Login_def Let_def split: prod.splits option.splits)
  have "o_files (w_db x6) = o_files (w_db w)"
    using ask_frame [OF a1] ask_frame [OF a2] on_net_frame [OF a3] ask_frame [OF a4] on_net_frame [OF a5] on_net_frame [OF a6]
    by (simp only:)
  moreover have "\<exists>x. fst (li_Password li ''Password: '' x) = Inr uip"
    using fst_ask [of "li_Password li ''Password: ''" x3] a4 e4 by auto
  moreover have "k = fst (SymmetricKeyPair ci a uip (net_world x4))"
    using fst_on_net [of "SymmetricKeyPair ci a uip" x4] a5 by simp
  ultimately show thesis using that [OF ok _ _ _ save] by blast
qed

end
