(* ===== verification/Client_Notes.thy ===== *)
theory Client_Notes
  imports Client_Commands "HOL-Library.Multiset"
begin

text \<open>
  \<^verbatim>\<open>pkg/libsf/note.go\<close>, the unstructured application data of a note, and the abstraction of the list of notes in
  \<^verbatim>\<open>internal/client/tui/note_list.go\<close>: the notes registered in it, in the order they are shown.
\<close>

subsection \<open>The application data of a note\<close>

text \<open>
  \<open>'j\<close> are the values of the fastjson package. \<open>fs_SetString v path key s\<close> sets a key of the object at the
  path, and does nothing if there is no such object. A civil time is the number of milliseconds a clock
  shows since the start of 1970; \<open>fs_Civil\<close> and \<open>fs_ParseCivil\<close> are its text in the layout of
  \<^verbatim>\<open>noteTimeLayout\<close> (whose final \<open>Z\<close> is a plain letter, not a zone) and back. \<open>fs_Zone\<close> is the offset of the
  local time zone at an instant.
\<close>

record 'j note_lib =
  fs_Parse :: "string \<Rightarrow> err + 'j"
  fs_String :: "'j \<Rightarrow> string"
  fs_Exists :: "'j \<Rightarrow> string list \<Rightarrow> bool"
  fs_GetString :: "'j \<Rightarrow> string list \<Rightarrow> bytes"
  fs_SetString :: "'j \<Rightarrow> string list \<Rightarrow> string \<Rightarrow> string \<Rightarrow> 'j"
  fs_Civil :: "int \<Rightarrow> string"
  fs_ParseCivil :: "string \<Rightarrow> int option"
  fs_Zone :: "time \<Rightarrow> duration"

definition client_updated_at :: "string list" where
  "client_updated_at = [''org.standardnotes.sn'', ''client_updated_at'']"

definition ParseRaw :: "'j note_lib \<Rightarrow> Note \<Rightarrow> err + 'j" where
  "ParseRaw fs n =
     (case fs_Parse fs (nt_AppData n) of Inl e \<Rightarrow> Inl (Wrap ''could not parse raw data'' e) | Inr v \<Rightarrow> Inr v)"

definition SaveRaw :: "'j note_lib \<Rightarrow> 'j \<Rightarrow> Note \<Rightarrow> Note" where
  "SaveRaw fs v n = n\<lparr>nt_AppData := fs_String fs v\<rparr>"

text \<open>A text that does not parse gives the zero time; one that does is read as UTC.\<close>

definition note_UpdatedAt :: "'j note_lib \<Rightarrow> 'j \<Rightarrow> time" where
  "note_UpdatedAt fs v =
     (if fs_Exists fs v client_updated_at
      then case fs_ParseCivil fs (fs_GetString fs v client_updated_at) of
             None \<Rightarrow> zero_time | Some ms \<Rightarrow> time_of_milli ms
      else zero_time)"

text \<open>The current time is formatted in the local time zone.\<close>

definition SetUpdatedAtNow :: "'j note_lib \<Rightarrow> 'j \<Rightarrow> 'n world \<Rightarrow> 'j \<times> 'n world" where
  "SetUpdatedAtNow fs v w =
     (let (now, w1) = Now w; s = fs_Civil fs ((now + fs_Zone fs now) div 1000000)
      in (fs_SetString fs v [''org.standardnotes.sn''] ''client_updated_at'' s, w1))"

definition GetSortingField :: "'j note_lib \<Rightarrow> 'j \<Rightarrow> string" where
  "GetSortingField fs v =
     (if fs_Exists fs v [''org.standardnotes.sn'', ''sortBy''] then fs_GetString fs v [''org.standardnotes.sn'', ''sortBy'']
      else [])"

text \<open>The contract of the JSON values and of the time texts.\<close>

locale note_values =
  fixes fs :: "'j note_lib"
  assumes Exists_parent: "fs_Exists fs v (p @ [k]) \<Longrightarrow> fs_Exists fs v p"
    and Exists_Set: "fs_Exists fs v p \<Longrightarrow> fs_Exists fs (fs_SetString fs v p k s) (p @ [k])"
    and GetString_Set: "fs_Exists fs v p \<Longrightarrow> fs_GetString fs (fs_SetString fs v p k s) (p @ [k]) = s"
    and ParseCivil_Civil: "fs_ParseCivil fs (fs_Civil fs ms) = Some ms"
begin

lemma UpdatedAt_SetUpdatedAtNow:
  assumes "fs_Exists fs v [''org.standardnotes.sn'']"
  shows "note_UpdatedAt fs (fst (SetUpdatedAtNow fs v w))
    = time_of_milli ((fst (Now w) + fs_Zone fs (fst (Now w))) div 1000000)"
  using Exists_Set [OF assms] GetString_Set [OF assms] ParseCivil_Civil
  by (simp add: note_UpdatedAt_def SetUpdatedAtNow_def client_updated_at_def split_beta Let_def)

end

subsection \<open>The list of notes\<close>

text \<open>An entry of the list is an item with its note, which is never nil there, and the application data.\<close>

type_synonym 'j entry = "citem \<times> 'j"

definition empty_note :: Note where
  "empty_note = \<lparr>nt_Title = [], nt_Text = [], nt_PreviewPlain = [], nt_PreviewHTML = [], nt_References = [], nt_AppData = []\<rparr>"

definition note_of :: "citem \<Rightarrow> Note" where
  "note_of i = (case ct_Note i of None \<Rightarrow> empty_note | Some n \<Rightarrow> n)"

record 'j note_list =
  nl_widgets :: "'j entry list"
  nl_registred :: "string \<Rightarrow> bool"
  nl_focus :: int

definition newNoteListAbstraction :: "'j note_list" where
  "newNoteListAbstraction = \<lparr>nl_widgets = [], nl_registred = (\<lambda>_. False), nl_focus = 0\<rparr>"

definition Add :: "'j entry \<Rightarrow> 'j note_list \<Rightarrow> (err, 'j note_list \<times> nat) outcome" where
  "Add e l =
     (if nl_registred l (ct_ID (fst e)) then Panic ''TODO: update the item proprely''
      else let l1 = l\<lparr>nl_widgets := nl_widgets l @ [e], nl_registred := (nl_registred l)(ct_ID (fst e) := True)\<rparr>
           in Ok (l1, length (nl_widgets l1)))"

text \<open>\<open>srt less xs\<close> is \<^verbatim>\<open>sort.Slice\<close>, which may put equal elements in any order.\<close>

definition title_less :: "'j entry \<Rightarrow> 'j entry \<Rightarrow> bool" where
  "title_less a b \<longleftrightarrow> nt_Title (note_of (fst a)) < nt_Title (note_of (fst b))"

definition updated_less :: "'j note_lib \<Rightarrow> 'j entry \<Rightarrow> 'j entry \<Rightarrow> bool" where
  "updated_less fs a b \<longleftrightarrow> note_UpdatedAt fs (snd b) < note_UpdatedAt fs (snd a)"

definition note_list_Sort ::
  "'j note_lib \<Rightarrow> (('j entry \<Rightarrow> 'j entry \<Rightarrow> bool) \<Rightarrow> 'j entry list \<Rightarrow> 'j entry list) \<Rightarrow> string
   \<Rightarrow> 'j note_list \<Rightarrow> bool \<times> 'j note_list" where
  "note_list_Sort fs srt field l =
     (if field = ''name'' then (True, l\<lparr>nl_widgets := srt title_less (nl_widgets l)\<rparr>)
      else if field = ''client_updated_at'' then (True, l\<lparr>nl_widgets := srt (updated_less fs) (nl_widgets l)\<rparr>)
      else (False, l))"

definition First :: "'j note_list \<Rightarrow> int option" where
  "First l = (if nl_widgets l = [] then None else Some 0)"

definition Last :: "'j note_list \<Rightarrow> int option" where
  "Last l = (if nl_widgets l = [] then None else Some (int (length (nl_widgets l)) - 1))"

definition At :: "'j note_list \<Rightarrow> int \<Rightarrow> 'j entry option" where
  "At l pos = (if 0 \<le> pos \<and> pos < int (length (nl_widgets l)) then Some (nl_widgets l ! nat pos) else None)"

definition SetFocus :: "int \<Rightarrow> 'j note_list \<Rightarrow> 'j note_list" where
  "SetFocus pos l = l\<lparr>nl_focus := pos\<rparr>"

definition Next :: "'j note_list \<Rightarrow> int \<Rightarrow> int" where
  "Next l pos = (if pos = int (length (nl_widgets l)) - 1 then -1 else pos + 1)"

definition Previous :: "'j note_list \<Rightarrow> int \<Rightarrow> int" where
  "Previous l pos = (if pos - 1 = -1 then -1 else pos - 1)"

text \<open>What the list keeps: the registered IDs are those of its notes, each once.\<close>

definition note_list_ok :: "'j note_list \<Rightarrow> bool" where
  "note_list_ok l \<longleftrightarrow> distinct (map (ct_ID \<circ> fst) (nl_widgets l))
     \<and> (\<forall>i. nl_registred l i \<longleftrightarrow> i \<in> (ct_ID \<circ> fst) ` set (nl_widgets l))"

lemma note_list_ok_new: "note_list_ok newNoteListAbstraction"
  by (simp add: note_list_ok_def newNoteListAbstraction_def)

lemma note_list_ok_Add:
  assumes "note_list_ok l" and "Add e l = Ok (l1, n)"
  shows "note_list_ok l1 \<and> nl_widgets l1 = nl_widgets l @ [e]"
proof -
  have new: "\<not> nl_registred l (ct_ID (fst e))"
    and l1: "l1 = l\<lparr>nl_widgets := nl_widgets l @ [e], nl_registred := (nl_registred l)(ct_ID (fst e) := True)\<rparr>"
    using assms(2) by (auto simp: Add_def Let_def split: if_splits)
  then have "ct_ID (fst e) \<notin> (ct_ID \<circ> fst) ` set (nl_widgets l)" using assms(1) by (simp add: note_list_ok_def)
  then show ?thesis using assms(1) l1 by (simp add: note_list_ok_def)
qed

lemma note_list_ok_Sort:
  assumes "\<And>less xs. mset (srt less xs) = mset xs" and "note_list_ok l" and "note_list_Sort fs srt field l = (b, l1)"
  shows "note_list_ok l1 \<and> mset (nl_widgets l1) = mset (nl_widgets l)"
proof -
  have same: "mset (nl_widgets l1) = mset (nl_widgets l)" "nl_registred l1 = nl_registred l"
    using assms(1,3) by (auto simp: note_list_Sort_def split: if_splits)
  then have "set (nl_widgets l1) = set (nl_widgets l)" by (metis set_mset_mset)
  moreover have "mset (map (ct_ID \<circ> fst) (nl_widgets l1)) = mset (map (ct_ID \<circ> fst) (nl_widgets l))"
    using same by simp
  then have "distinct (map (ct_ID \<circ> fst) (nl_widgets l1))"
    using assms(2) mset_eq_imp_distinct_iff unfolding note_list_ok_def by blast
  ultimately show ?thesis using assms(2) same by (simp add: note_list_ok_def)
qed

end
