(* ===== verification/Client_Tui.thy ===== *)
theory Client_Tui
  imports Client_Notes
begin

text \<open>
  The text interface of the note-taking command: \<^verbatim>\<open>internal/client/tui/tui.go\<close> and the list of notes of
  \<^verbatim>\<open>note_list.go\<close> around its abstraction. Of the widgets there remains which note the editor shows and which
  messages the status bar got; drawing, layout and the routing of events belong to the gowid library. An item
  is shared by pointer between the list, its editor and the synchronizer: a change of it shows in the list.
\<close>

record 'j tui =
  ui_SortBy :: string
  ui_list :: "'j note_list"
  tu_editor :: "'j entry option"
  tu_status :: "string list"

text \<open>\<open>app\<close> is the error of creating the application, if any. An empty editor shows no note.\<close>

definition tui_New :: "err option \<Rightarrow> err + 'j tui" where
  "tui_New app =
     (case app of
        Some e \<Rightarrow> Inl (Wrap ''could not create application widgets'' e)
      | None \<Rightarrow> Inr \<lparr>ui_SortBy = ''name'', ui_list = newNoteListAbstraction, tu_editor = None, tu_status = []\<rparr>)"

definition DisplayStatus :: "string \<Rightarrow> 'j tui \<Rightarrow> 'j tui" where
  "DisplayStatus message u = u\<lparr>tu_status := tu_status u @ [message]\<rparr>"

definition ItemAt :: "'j note_list \<Rightarrow> int \<Rightarrow> (err, 'j entry) outcome" where
  "ItemAt l i = (case At l i of Some e \<Rightarrow> Ok e | None \<Rightarrow> Panic ''index out of range'')"

definition hackToDisplayFirstNote :: "'j tui \<Rightarrow> (err, 'j tui) outcome" where
  "hackToDisplayFirstNote u = obind (ItemAt (ui_list u) 0) (\<lambda>e. Ok (u\<lparr>tu_editor := Some e\<rparr>))"

definition tui_Register :: "'j entry \<Rightarrow> 'j tui \<Rightarrow> (err, 'j tui) outcome" where
  "tui_Register e u =
     obind (Add e (ui_list u)) (\<lambda>(l, n).
     let u1 = u\<lparr>ui_list := l\<rparr>
     in if n = 1 then hackToDisplayFirstNote u1 else Ok u1)"

definition SortItems ::
  "'j note_lib \<Rightarrow> (('j entry \<Rightarrow> 'j entry \<Rightarrow> bool) \<Rightarrow> 'j entry list \<Rightarrow> 'j entry list) \<Rightarrow> 'j tui
   \<Rightarrow> (err, 'j tui) outcome" where
  "SortItems fs srt u =
     (let (sorted, l) = note_list_Sort fs srt (ui_SortBy u) (ui_list u); u1 = u\<lparr>ui_list := l\<rparr>
      in if \<not> sorted
         then Ok (DisplayStatus
                (if ui_SortBy u \<noteq> [] then ''Failed to sort on '' @ ui_SortBy u @ '', fallback on the item's name''
                 else ''No sort as been applied'') u1)
         else if 0 < length (nl_widgets l) then hackToDisplayFirstNote u1
         else Ok u1)"

text \<open>
  After an event that is not a mere hover of the mouse the editor shows the note in focus. What the list
  widget itself does with the event, the library's part, may have moved the focus.
\<close>

definition NoteList_UserInput :: "bool \<Rightarrow> int \<Rightarrow> 'j tui \<Rightarrow> 'j tui" where
  "NoteList_UserInput hover pos u =
     (let u1 = u\<lparr>ui_list := SetFocus pos (ui_list u)\<rparr>
      in if hover then u1
         else (case At (ui_list u1) (nl_focus (ui_list u1)) of
                 Some e \<Rightarrow> u1\<lparr>tu_editor := Some e\<rparr> | None \<Rightarrow> u1))"

text \<open>
  Input no widget handles: whether it was handled, and whether the application quits. Events are keys by name, or
  none.
\<close>

definition unhandled :: "string option \<Rightarrow> bool \<times> bool" where
  "unhandled ev = (case ev of None \<Rightarrow> (False, False) | Some k \<Rightarrow> if k = ''Ctrl+Q'' then (True, True) else (False, False))"

text \<open>A change of an item in place shows wherever it is shown.\<close>

definition changed_entry :: "'j entry \<Rightarrow> 'j entry \<Rightarrow> 'j entry" where
  "changed_entry e x = (if ct_ID (fst x) = ct_ID (fst e) then e else x)"

definition change_item :: "'j entry \<Rightarrow> 'j tui \<Rightarrow> 'j tui" where
  "change_item e u =
     u\<lparr>ui_list := (ui_list u)\<lparr>nl_widgets := map (changed_entry e) (nl_widgets (ui_list u))\<rparr>,
       tu_editor := map_option (changed_entry e) (tu_editor u)\<rparr>"

subsection \<open>What the interface keeps\<close>

text \<open>The list is well formed, and the editor shows one of its notes, unless there is none.\<close>

definition tui_ok :: "'j tui \<Rightarrow> bool" where
  "tui_ok u \<longleftrightarrow> note_list_ok (ui_list u)
     \<and> (case tu_editor u of None \<Rightarrow> nl_widgets (ui_list u) = [] | Some e \<Rightarrow> e \<in> set (nl_widgets (ui_list u)))"

lemma ItemAt_first: "nl_widgets l \<noteq> [] \<Longrightarrow> ItemAt l 0 = Ok (hd (nl_widgets l))"
  by (simp add: ItemAt_def At_def hd_conv_nth)

lemma hack_shows_first:
  "nl_widgets (ui_list u) \<noteq> [] \<Longrightarrow> hackToDisplayFirstNote u = Ok (u\<lparr>tu_editor := Some (hd (nl_widgets (ui_list u)))\<rparr>)"
  by (simp add: hackToDisplayFirstNote_def ItemAt_first)

lemma tui_New_ok: "tui_New app = Inr u \<Longrightarrow> tui_ok u"
  by (auto simp: tui_New_def tui_ok_def note_list_ok_def newNoteListAbstraction_def split: option.splits)

lemma tui_ok_status [simp]: "tui_ok (DisplayStatus m u) \<longleftrightarrow> tui_ok u"
  by (simp add: tui_ok_def DisplayStatus_def cong: option.case_cong)

lemma DisplayStatus_fields [simp]:
  "ui_list (DisplayStatus m u) = ui_list u" "ui_SortBy (DisplayStatus m u) = ui_SortBy u"
  "tu_editor (DisplayStatus m u) = tu_editor u"
  by (simp_all add: DisplayStatus_def)

lemma tui_Register_ok:
  assumes "tui_ok u" and "tui_Register e u = Ok u1"
  shows "tui_ok u1 \<and> nl_widgets (ui_list u1) = nl_widgets (ui_list u) @ [e]"
proof -
  obtain l n where add: "Add e (ui_list u) = Ok (l, n)"
    using assms(2) by (auto simp: tui_Register_def)
  have l: "note_list_ok l" "nl_widgets l = nl_widgets (ui_list u) @ [e]"
    using note_list_ok_Add [OF _ add] assms(1) by (auto simp: tui_ok_def)
  have n: "n = length (nl_widgets l)" using add by (auto simp: Add_def Let_def split: if_splits)
  show ?thesis
  proof (cases "nl_widgets (ui_list u) = []")
    case True
    then show ?thesis using assms add l n
      by (auto simp: tui_Register_def tui_ok_def hack_shows_first)
  next
    case False
    then show ?thesis using assms add l n
      by (auto simp: tui_Register_def tui_ok_def split: option.splits)
  qed
qed

lemma note_list_Sort_set:
  assumes "\<And>less xs. mset (srt less xs) = mset xs" and "note_list_Sort fs srt field l = (b, l1)"
  shows "set (nl_widgets l1) = set (nl_widgets l)"
  using assms by (auto simp: note_list_Sort_def split: if_splits) (metis set_mset_mset)+

lemma SortItems_shows_first:
  assumes "SortItems fs srt u = Ok u1" and "ui_SortBy u \<in> {''name'', ''client_updated_at''}"
    and "nl_widgets (ui_list u1) \<noteq> []"
  shows "tu_editor u1 = Some (hd (nl_widgets (ui_list u1)))"
proof -
  obtain b l where s: "note_list_Sort fs srt (ui_SortBy u) (ui_list u) = (b, l)" by force
  then have "b" using assms(2) by (auto simp: note_list_Sort_def)
  then show ?thesis using assms(1,3) s
    by (cases "nl_widgets l = []") (auto simp: SortItems_def hack_shows_first)
qed

lemma SortItems_ok:
  assumes "\<And>less xs. mset (srt less xs) = mset xs" and "tui_ok u" and "SortItems fs srt u = Ok u1"
  shows "tui_ok u1"
proof -
  obtain b l where s: "note_list_Sort fs srt (ui_SortBy u) (ui_list u) = (b, l)" by force
  have l: "note_list_ok l" "set (nl_widgets l) = set (nl_widgets (ui_list u))"
    using note_list_ok_Sort [OF assms(1) _ s] note_list_Sort_set [OF assms(1) s] assms(2) by (auto simp: tui_ok_def)
  then have ne: "nl_widgets l = [] \<longleftrightarrow> nl_widgets (ui_list u) = []" by (metis set_empty)
  have moved: "tui_ok (u\<lparr>ui_list := l\<rparr>)"
    using assms(2) l ne by (auto simp: tui_ok_def split: option.splits)
  show ?thesis
  proof (cases "b \<and> nl_widgets l \<noteq> []")
    case True
    then have "u1 = u\<lparr>ui_list := l, tu_editor := Some (hd (nl_widgets l))\<rparr>"
      using assms(3) s by (simp add: SortItems_def hack_shows_first)
    then show ?thesis using l(1) True by (simp add: tui_ok_def)
  next
    case False
    then have "u1 = u\<lparr>ui_list := l\<rparr> \<or> (\<exists>m. u1 = DisplayStatus m (u\<lparr>ui_list := l\<rparr>))"
      using assms(3) s by (auto simp: SortItems_def Let_def split: if_splits)
    then show ?thesis using moved by auto
  qed
qed

lemma NoteList_UserInput_ok: "tui_ok u \<Longrightarrow> tui_ok (NoteList_UserInput hover pos u)"
  by (auto simp: NoteList_UserInput_def tui_ok_def SetFocus_def note_list_ok_def At_def Let_def
      split: option.splits if_splits)

lemma changed_entry_ID [simp]: "ct_ID (fst (changed_entry e x)) = ct_ID (fst x)"
  by (simp add: changed_entry_def)

lemma change_item_ok: "tui_ok u \<Longrightarrow> tui_ok (change_item e u)"
  by (auto simp: tui_ok_def change_item_def note_list_ok_def comp_def image_image split: option.splits)

end
