(* ===== verification/Note_Command.thy ===== *)
theory Note_Command
  imports Client_Log Client_Tui
begin

text \<open>
  \<^verbatim>\<open>internal/client/note.go\<close>: loading the notes of the account into the interface, and sealing and
  synchronising an edited one. The event loop that follows belongs to the text interface's library; the
  callback of the editor is the one it calls.
\<close>

subsection \<open>Loading the notes\<close>

text \<open>The first loop: every items key of the account goes into the keychain before any note is unsealed.\<close>

fun append_items_keys ::
  "ciphers \<Rightarrow> note_codecs \<Rightarrow> keychain \<Rightarrow> citem option list \<Rightarrow> (err, keychain) outcome" where
  "append_items_keys ci js k [] = Ok k"
| "append_items_keys ci js k (None # is) = Panic ''nil pointer dereference''"
| "append_items_keys ci js k (Some i # is) =
     (if ct_ContentType i \<noteq> ContentTypeItemsKey then append_items_keys ci js k is
      else
        obind (wrap_outcome ''could not unseal item SN|ItemsKey'' (Item_Unseal ci js k i)) (\<lambda>(i1, k1).
        append_items_keys ci js k1 is))"

definition parsed_note :: "'j note_lib \<Rightarrow> citem \<Rightarrow> (err, 'j) outcome" where
  "parsed_note fs i =
     (case ct_Note i of
        None \<Rightarrow> Panic ''nil pointer dereference''
      | Some n \<Rightarrow> wrap_err (Wrap ''could not parse note metadata'') (ParseRaw fs n))"

text \<open>The second loop: preferences give the field to sort on, notes are registered.\<close>

fun load_items ::
  "ciphers \<Rightarrow> note_codecs \<Rightarrow> 'j note_lib \<Rightarrow> keychain \<Rightarrow> citem option list \<Rightarrow> 'j tui \<Rightarrow> (err, 'j tui) outcome" where
  "load_items ci js fs k [] u = Ok u"
| "load_items ci js fs k (None # is) u = Panic ''nil pointer dereference''"
| "load_items ci js fs k (Some i # is) u =
     (if ct_ContentType i = ContentTypeUserPreferences
      then
        obind (wrap_outcome ''could not unseal item SN|UserPreferences'' (Item_Unseal ci js k i)) (\<lambda>(i1, k1).
        obind (parsed_note fs i1) (\<lambda>v.
        load_items ci js fs k1 is (u\<lparr>ui_SortBy := GetSortingField fs v\<rparr>)))
      else if ct_ContentType i = ContentTypeNote
      then
        obind (wrap_outcome ''could not unseal item Note'' (Item_Unseal ci js k i)) (\<lambda>(i1, k1).
        obind (parsed_note fs i1) (\<lambda>v.
        obind (tui_Register (i1, v) u) (\<lambda>u1.
        load_items ci js fs k1 is u1)))
      else load_items ci js fs k is u)"

text \<open>
  The command up to its event loop: the interface it starts with, the client and the keychain its
  synchronizer works with. \<open>app\<close> is the error of opening the terminal, if any.
\<close>

definition note_start ::
  "ciphers \<Rightarrow> 'n client_lib \<Rightarrow> note_codecs \<Rightarrow> 'j note_lib \<Rightarrow> (('j entry \<Rightarrow> 'j entry \<Rightarrow> bool) \<Rightarrow> 'j entry list \<Rightarrow> 'j entry list)
   \<Rightarrow> 'n http_lib \<Rightarrow> err option \<Rightarrow> 'n outside world \<Rightarrow> (err, 'j tui \<times> client \<times> keychain) outcome \<times> 'n outside world" where
  "note_start ci li js fs srt ht app w =
     (case Load ci li w of
        (Err e, w1) \<Rightarrow> (Err (Wrap ''could not load config'' e), w1)
      | (Panic p, w1) \<Rightarrow> (Panic p, w1)
      | (Ok cfg, w1) \<Rightarrow>
     (case connect ci li ht cfg w1 of
        (Err e, w2) \<Rightarrow> (Err e, w2)
      | (Panic p, w2) \<Rightarrow> (Panic p, w2)
      | (Ok (c, cfg1), w2) \<Rightarrow>
     (case tui_New app of
        Inl e \<Rightarrow> (Err e, w2)
      | Inr u0 \<Rightarrow>
     (case on_net (\<lambda>n. let (items, e, n1) = SyncItems ht c NewSyncItems n in ((items, e), n1)) w2 of
        ((items, Some e), w3) \<Rightarrow> (Err (Wrap ''could not get items'' e), w3)
      | ((items, None), w3) \<Rightarrow>
          (obind (append_items_keys ci js (cf_KeyChain cfg1) (si_Retrieved items)) (\<lambda>k.
           obind (load_items ci js fs k (si_Retrieved items) u0) (\<lambda>u.
           obind (SortItems fs srt u) (\<lambda>u1. Ok (u1, c, k)))), w3)))))"

text \<open>
  A panic is logged, with the \<open>stack\<close> of the goroutines, and the command then returns no error. \<open>printf\<close> is the
  logging library's \<^verbatim>\<open>Printf\<close> on a logger of \<open>Client_Log\<close>.
\<close>

definition cmd_Note ::
  "ciphers \<Rightarrow> 'n client_lib \<Rightarrow> note_codecs \<Rightarrow> 'j note_lib \<Rightarrow> (('j entry \<Rightarrow> 'j entry \<Rightarrow> bool) \<Rightarrow> 'j entry list \<Rightarrow> 'j entry list)
   \<Rightarrow> 'n http_lib \<Rightarrow> err option \<Rightarrow> (string \<Rightarrow> 'n outside world \<Rightarrow> 'n outside world) \<Rightarrow> string \<Rightarrow> 'n outside world
   \<Rightarrow> err option \<times> 'n outside world" where
  "cmd_Note ci li js fs srt ht app printf stack w =
     (case note_start ci li js fs srt ht app w of
        (Ok _, w1) \<Rightarrow> (None, w1)
      | (Err e, w1) \<Rightarrow> (Some e, w1)
      | (Panic p, w1) \<Rightarrow> (None, printf (''[PANIC RECOVER] '' @ p @ '' '' @ stack @ newline) w1))"

subsection \<open>Synchronising an edited note\<close>

text \<open>
  What a synchronisation of an item comes to: the server has saved it at a time, or something failed and a
  status is displayed; then the item keeps its time.
\<close>

datatype synced = Saved_at "time option" | Not_synced string

text \<open>
  \<open>w_db\<close> is the network here. The item is shared by pointer with the list and its editor, and sealing changes it in
  place: besides the result, the item as sealing has left it is handed back, if it was sealed.
\<close>

definition synchronizer ::
  "ciphers \<Rightarrow> note_codecs \<Rightarrow> 'j note_lib \<Rightarrow> 'n http_lib \<Rightarrow> client \<Rightarrow> keychain \<Rightarrow> citem \<Rightarrow> 'j \<Rightarrow> 'n world
   \<Rightarrow> (err, synced \<times> citem option) outcome \<times> 'n world" where
  "synchronizer ci js fs ht c k i v w =
     (let (v1, w1) = SetUpdatedAtNow fs v w;
          i1 = i\<lparr>ct_Note := Some (SaveRaw fs v1 (note_of i))\<rparr>
      in case Item_Seal ci js k i1 w1 of
           (Panic p, w2) \<Rightarrow> (Panic p, w2)
         | (Err e, w2) \<Rightarrow> (Ok (Not_synced (err_Error (Wrap ''could not seal item'' e)), None), w2)
         | (Ok i2, w2) \<Rightarrow>
             (case SyncItems ht c (NewSyncItems\<lparr>si_Items := [Some i2]\<rparr>) w2 of
                (items, Some e, w3) \<Rightarrow> (Ok (Not_synced (err_Error (Wrap ''could not get items'' e)), Some i2), w3)
              | (items, None, w3) \<Rightarrow>
                  (if si_Conflicts items \<noteq> [] then (Panic ''TODO: update the item proprely (item conflicts)'', w3)
                   else
                     case si_Saved items of
                       [] \<Rightarrow> (Panic ''index out of range'', w3)
                     | None # _ \<Rightarrow> (Panic ''nil pointer dereference'', w3)
                     | Some saved # _ \<Rightarrow> (Ok (Saved_at (ct_UpdatedAt saved), Some i2), w3))))"

text \<open>The callback of the editor: the text goes into the note, which is synchronised, and the time of the save into the item.\<close>

definition edit_note ::
  "ciphers \<Rightarrow> note_codecs \<Rightarrow> 'j note_lib \<Rightarrow> 'n http_lib \<Rightarrow> client \<Rightarrow> keychain \<Rightarrow> string \<Rightarrow> citem \<Rightarrow> 'j \<Rightarrow> 'n world
   \<Rightarrow> (err, synced \<times> citem option) outcome \<times> 'n world" where
  "edit_note ci js fs ht c k txt i v w =
     (case synchronizer ci js fs ht c k (i\<lparr>ct_Note := Some ((note_of i)\<lparr>nt_Text := txt\<rparr>)\<rparr>) v w of
        (Ok (Saved_at t, Some i2), w1) \<Rightarrow> (Ok (Saved_at t, Some (i2\<lparr>ct_UpdatedAt := t\<rparr>)), w1)
      | r \<Rightarrow> r)"

text \<open>
  What it does to the interface: the item is changed in place; a failure is displayed; after a save the
  items are sorted again. \<open>e\<close> is the note being edited.
\<close>

definition synchronized ::
  "'j note_lib \<Rightarrow> (('j entry \<Rightarrow> 'j entry \<Rightarrow> bool) \<Rightarrow> 'j entry list \<Rightarrow> 'j entry list) \<Rightarrow> synced \<Rightarrow> 'j tui
   \<Rightarrow> (err, 'j tui) outcome" where
  "synchronized fs srt r u =
     (case r of
        Not_synced message \<Rightarrow> Ok (DisplayStatus message u)
      | Saved_at t \<Rightarrow> SortItems fs srt (DisplayStatus ''saved'' u))"

definition edit_in_tui ::
  "ciphers \<Rightarrow> note_codecs \<Rightarrow> 'j note_lib \<Rightarrow> (('j entry \<Rightarrow> 'j entry \<Rightarrow> bool) \<Rightarrow> 'j entry list \<Rightarrow> 'j entry list)
   \<Rightarrow> 'n http_lib \<Rightarrow> client \<Rightarrow> keychain \<Rightarrow> string \<Rightarrow> 'j entry \<Rightarrow> 'j tui \<Rightarrow> 'n world
   \<Rightarrow> (err, 'j tui) outcome \<times> 'n world" where
  "edit_in_tui ci js fs srt ht c k txt e u w =
     (case edit_note ci js fs ht c k txt (fst e) (snd e) w of
        (Ok (r, sent), w1) \<Rightarrow>
          (let v = fst (SetUpdatedAtNow fs (snd e) w);
               i = (case sent of
                      Some i2 \<Rightarrow> i2
                    | None \<Rightarrow> (fst e)\<lparr>ct_Note := Some (SaveRaw fs v ((note_of (fst e))\<lparr>nt_Text := txt\<rparr>))\<rparr>)
           in (synchronized fs srt r (change_item (i, v) u), w1))
      | (Err x, w1) \<Rightarrow> (Err x, w1)
      | (Panic x, w1) \<Rightarrow> (Panic x, w1))"

subsection \<open>The states of the interface\<close>

text \<open>
  Every state the interface can be in: it starts empty, notes are registered, the preferences set the field
  to sort on, the list is sorted, events come in, and notes are synchronised after an edit.
\<close>

inductive tui_reachable ::
  "'j note_lib \<Rightarrow> (('j entry \<Rightarrow> 'j entry \<Rightarrow> bool) \<Rightarrow> 'j entry list \<Rightarrow> 'j entry list) \<Rightarrow> 'j tui \<Rightarrow> bool"
  for fs srt where
  tui_start: "tui_New app = Inr u \<Longrightarrow> tui_reachable fs srt u"
| tui_registered: "tui_reachable fs srt u \<Longrightarrow> tui_Register e u = Ok u1 \<Longrightarrow> tui_reachable fs srt u1"
| tui_preferred: "tui_reachable fs srt u \<Longrightarrow> tui_reachable fs srt (u\<lparr>ui_SortBy := field\<rparr>)"
| tui_sorted: "tui_reachable fs srt u \<Longrightarrow> SortItems fs srt u = Ok u1 \<Longrightarrow> tui_reachable fs srt u1"
| tui_input: "tui_reachable fs srt u \<Longrightarrow> tui_reachable fs srt (NoteList_UserInput hover pos u)"
| tui_edited: "tui_reachable fs srt u \<Longrightarrow> synchronized fs srt r (change_item e u) = Ok u1 \<Longrightarrow> tui_reachable fs srt u1"

lemma tui_reachable_ok:
  assumes "tui_reachable fs srt u" and srt: "\<And>less xs. mset (srt less xs) = mset xs"
  shows "tui_ok u"
  using assms(1)
proof (induction rule: tui_reachable.induct)
  case (tui_start app u)
  then show ?case by (rule tui_New_ok)
next
  case (tui_registered u e u1)
  then show ?case using tui_Register_ok by blast
next
  case (tui_preferred u field)
  then show ?case by (simp add: tui_ok_def cong: option.case_cong)
next
  case (tui_sorted u u1)
  show ?case by (rule SortItems_ok [OF _ tui_sorted(3,2)]) (rule srt)
next
  case (tui_input u hover pos)
  then show ?case by (intro NoteList_UserInput_ok)
next
  case (tui_edited u r e u1)
  show ?case
  proof (cases r)
    case (Saved_at t)
    then have "SortItems fs srt (DisplayStatus ''saved'' (change_item e u)) = Ok u1"
      using tui_edited(2) by (simp add: synchronized_def)
    then show ?thesis by (rule SortItems_ok [rotated 2]) (use srt tui_edited(3) in \<open>simp_all add: change_item_ok\<close>)
  qed (use tui_edited(2,3) in \<open>auto simp: synchronized_def change_item_ok\<close>)
qed

text \<open>The command and its edits stay within these states.\<close>

lemma load_items_reachable:
  "load_items ci js fs k is u = Ok u1 \<Longrightarrow> tui_reachable fs srt u \<Longrightarrow> tui_reachable fs srt u1"
proof (induction ci js fs k "is" u rule: load_items.induct)
  case (3 ci js fs k i "is" u)
  consider (prefs) "ct_ContentType i = ContentTypeUserPreferences"
    | (nt) "ct_ContentType i \<noteq> ContentTypeUserPreferences" "ct_ContentType i = ContentTypeNote"
    | (other) "ct_ContentType i \<noteq> ContentTypeUserPreferences" "ct_ContentType i \<noteq> ContentTypeNote" by blast
  then show ?case
  proof cases
    case prefs
    then obtain k1 v where "load_items ci js fs k1 is (u\<lparr>ui_SortBy := GetSortingField fs v\<rparr>) = Ok u1"
      using 3(4) by (auto split: prod.splits)
    then show ?thesis using 3(1) [OF prefs] tui_preferred [OF 3(5)] by blast
  next
    case nt
    obtain i1 k1 v u2 where run: "tui_Register (i1, v) u = Ok u2" "load_items ci js fs k1 is u2 = Ok u1"
      using 3(4) nt by (auto split: prod.splits)
    then show ?thesis using 3(2) [OF nt run(2)] tui_registered [OF 3(5) run(1)] by simp
  qed (use 3 in simp)
qed auto

lemma note_start_reachable:
  assumes "note_start ci li js fs srt ht app w = (Ok (u, c, k), w1)"
  shows "tui_reachable fs srt u"
proof -
  obtain r w2 where load: "Load ci li w = (r, w2)" by force
  then obtain cfg where cfg: "r = Ok cfg" using assms by (cases r) (auto simp: note_start_def)
  obtain q w3 where conn: "connect ci li ht cfg w2 = (q, w3)" by force
  then obtain c1 cfg1 where q: "q = Ok (c1, cfg1)" using assms load cfg by (cases q) (auto simp: note_start_def)
  obtain u0 where new: "tui_New app = Inr (u0 :: 'a tui)"
    using assms load cfg conn q by (cases "tui_New app :: err + 'a tui") (auto simp: note_start_def)
  obtain items e w4 where sync: "on_net (\<lambda>n. let (items, e, n1) = SyncItems ht c1 NewSyncItems n in ((items, e), n1)) w3
      = ((items, e), w4)" by (metis prod.collapse)
  have e: "e = None" using assms load cfg conn q new sync by (cases e) (auto simp: note_start_def)
  obtain k0 u2 where u2: "load_items ci js fs k0 (si_Retrieved items) u0 = Ok u2" and u: "SortItems fs srt u2 = Ok u"
    using assms load cfg conn q new sync e by (auto simp: note_start_def)
  show ?thesis by (rule tui_sorted [OF load_items_reachable [OF u2 tui_start [OF new]] u])
qed

lemma edit_in_tui_reachable:
  "edit_in_tui ci js fs srt ht c k txt e u w = (Ok u1, w1) \<Longrightarrow> tui_reachable fs srt u \<Longrightarrow> tui_reachable fs srt u1"
  by (auto simp: edit_in_tui_def Let_def intro: tui_edited split: prod.splits outcome.splits)

subsection \<open>The command line\<close>

text \<open>
  \<^verbatim>\<open>cmd/sfc/main.go\<close>: the client's commands. \<open>other\<close> is what the command line library does with other arguments
  (help, version, completion and errors).
\<close>

definition sfc_main ::
  "ciphers \<Rightarrow> 'n client_lib \<Rightarrow> note_codecs \<Rightarrow> 'j note_lib \<Rightarrow> (('j entry \<Rightarrow> 'j entry \<Rightarrow> bool) \<Rightarrow> 'j entry list \<Rightarrow> 'j entry list)
   \<Rightarrow> 'n http_lib \<Rightarrow> err option \<Rightarrow> (string \<Rightarrow> 'n outside world \<Rightarrow> 'n outside world) \<Rightarrow> string
   \<Rightarrow> (string list \<Rightarrow> err option) \<Rightarrow> string list \<Rightarrow> 'n outside world \<Rightarrow> int \<times> 'n outside world" where
  "sfc_main ci li js fs srt ht app printf stack other args w =
     (let of_err = (\<lambda>e. case e of None \<Rightarrow> Ok () | Some e \<Rightarrow> Err e);
          (r, w1) =
            (if args = [''login''] then cmd_Login ci li ht w
             else if args = [''logout''] then cmd_Logout ci li ht w
             else if args = [''backup''] then cmd_Backup ci li ht w
             else if length args = 2 \<and> args ! 0 = ''unseal'' then cmd_Unseal ci li js (args ! 1) w
             else if args = [''note''] then (let (e, w1) = cmd_Note ci li js fs srt ht app printf stack w in (of_err e, w1))
             else (of_err (other args), w))
      in (exit_code r, w1))"

end
