(* ===== verification/Libsf_Properties.thy ===== *)
theory Libsf_Properties
  imports Libsf_Item
begin

text \<open>
  The properties of the client library's encryption, each with a concrete run on simple primitives that
  keep the contract.
\<close>

subsection \<open>Example\<close>

definition pkcs7_pad :: "bytes \<Rightarrow> nat \<Rightarrow> err + bytes" where
  "pkcs7_pad p n =
     (if n = 0 \<or> 256 \<le> n then Inl (ErrLib ''block size'')
      else let k = n - length p mod n in Inr (p @ replicate k (char_of k)))"

definition pkcs7_unpad :: "bytes \<Rightarrow> err + bytes" where
  "pkcs7_unpad q =
     (if q = [] then Inl (ErrLib ''padding'')
      else let k = of_char (last q) in if k = 0 \<or> length q < k then Inl (ErrLib ''padding'') else Inr (take (length q - k) q))"

lemma pkcs7_unpad_pad: "pkcs7_pad p n = Inr q \<Longrightarrow> pkcs7_unpad q = Inr p"
proof -
  assume pad: "pkcs7_pad p n = Inr q"
  define k where "k = n - length p mod n"
  have n: "0 < n" "n < 256" and q: "q = p @ replicate k (char_of k)"
    using pad by (auto simp: pkcs7_pad_def k_def Let_def split: if_splits)
  have "0 < k" "k < 256" using n mod_less_divisor [of n "length p"] by (simp_all add: k_def)
  then show ?thesis by (simp add: pkcs7_unpad_def q of_char_of Let_def)
qed

text \<open>A keyed checksum, blocks that are reversed, and an AEAD that keeps the plaintext.\<close>

definition toy_ciphers :: ciphers where
  "toy_ciphers =
     \<lparr>ci_AES_E = (\<lambda>k b. rev b), ci_AES_D = (\<lambda>k b. rev b), ci_HMAC = (\<lambda>k m. take 2 k @ take 4 (rev m)),
      ci_SHA256 = (\<lambda>b. b), ci_Pad = pkcs7_pad, ci_Unpad = pkcs7_unpad,
      ci_XSeal = (\<lambda>k iv p a. p),
      ci_XOpen = (\<lambda>k iv c a. if length iv \<noteq> 24 then Panic ''bad nonce length passed to Open'' else Ok c),
      ci_PBKDF2 = (\<lambda>p s n l. replicate l CHR ''k''), ci_IDKey = (\<lambda>p s a b c n. replicate n CHR ''k'')\<rparr>"

definition toy_auth :: auth where
  "toy_auth = \<lparr>au_Version = ''004'', au_Identifier = ''a@b'', au_Cost = 0, au_Nonce = ''n'', au_Origination = []\<rparr>"

definition toy_note :: Note where
  "toy_note = \<lparr>nt_Title = ''T'', nt_Text = ''text'', nt_PreviewPlain = [], nt_PreviewHTML = [],
     nt_References = [], nt_AppData = []\<rparr>"

definition toy_codecs :: note_codecs where
  "toy_codecs =
     \<lparr>js_MarshalAuth = (\<lambda>a. if a = toy_auth then Inr ''A'' else Inl (ErrLib ''json'')),
      js_UnmarshalAuth = (\<lambda>b. Inr toy_auth),
      js_UnmarshalData = (\<lambda>b. Inr \<lparr>ad_from = [], ad_Version = ''004'', ad_UserID = ''i1'', ad_KeyParams = zero_auth\<rparr>),
      js_MarshalNote = (\<lambda>n. if n = Some toy_note then Inr ''N'' else Inl (ErrLib ''json'')),
      js_UnmarshalNote = (\<lambda>b. (toy_note, None)), js_UnmarshalItemsKey = (\<lambda>b. (b, None))\<rparr>"

lemma toy_primitives: "primitives toy_ciphers"
  by unfold_locales (auto simp: toy_ciphers_def pkcs7_unpad_pad)

interpretation toy: secrets toy_ciphers "codecs.truncate toy_codecs"
  using toy_primitives
  by (auto simp: secrets_def secrets_axioms_def toy_codecs_def codecs.defs split: if_splits)

definition toy_keychain :: keychain where
  "toy_keychain = empty_keychain\<lparr>kc_Version := ''004'', kc_ItemsKey := Some [''ik'' \<mapsto> hex_encode (replicate 32 CHR ''m'')]\<rparr>"

definition toy_item :: citem where
  "toy_item = \<lparr>ct_ID = ''i1'', ct_CreatedAt = None, ct_UpdatedAt = None, ct_UserID = [], ct_Content = [],
     ct_ContentType = ''Note'', ct_ItemsKeyID = ''ik'', ct_EncryptedItemKey = [], ct_Deleted = False,
     ct_Version = ''004'', ct_AuthParams = Some toy_auth, ct_Note = Some toy_note, ct_key = None, ct_content = None\<rparr>"

definition toy_world :: "unit world" where
  "toy_world = \<lparr>w_db = (), w_clock = int, w_ticks = 0, w_uuid = (\<lambda>n. []), w_uuids = 0, w_rand = (\<lambda>n. n), w_rands = 0,
     w_prng = (\<lambda>s n. n)\<rparr>"

definition toy_sealed :: "(err, citem) outcome \<times> unit world" where
  "toy_sealed = Item_Seal toy_ciphers toy_codecs toy_keychain toy_item toy_world"

lemma toy_seals_Ok: "is_Ok (fst (Item_Seal toy_ciphers toy_codecs toy_keychain toy_item w))"
  by (simp add: Item_Seal_def seal_part_def vault_seal_def seal4_def vault_serialize_def serialize4_def
      create_vault_def chacha_NewX_def GenerateItemEncryptionKey_def contentKeyChain_def keyKeyChain_def
      ContentTypeItemsKey_def toy_keychain_def toy_item_def toy_codecs_def protocol_version_defs split_beta Let_def)

lemma toy_seals:
  "Item_Seal toy_ciphers toy_codecs toy_keychain toy_item toy_world = (Ok (the_Ok (fst toy_sealed)), snd toy_sealed)"
  unfolding toy_sealed_def by (rule is_Ok_result [OF toy_seals_Ok])

subsection \<open>Properties\<close>

text \<open>
  C29. A note sealed into an item is read back: unsealing the sealed item with the same keychain yields the
  same note, for every protocol version, whatever random bytes were drawn. What is assumed is that the
  primitives and codecs invert each other, and that the item's ID and forwarded additional data have no
  colon and its parameters give readable JSON.
\<close>

theorem item_seal_unseal:
  assumes "secrets ci (codecs.truncate js)" and "Item_Seal ci js k i w = (Ok i1, w1)"
    and "ct_Note i = Some n" and "ct_ContentType i \<in> {ContentTypeNote, ContentTypeUserPreferences}"
    and "sealable (codecs.truncate js) i (ct_key i)" and "sealable (codecs.truncate js) i (ct_content i)"
    and "\<And>b. js_MarshalNote js (Some n) = Inr b \<Longrightarrow> js_UnmarshalNote js b = (n, None)"
  shows "\<exists>i2. Item_Unseal ci js k i1 = Ok (i2, k) \<and> ct_Note i2 = Some n"
  by (rule seal_unseal_note [OF assms])

theorem item_seal_unseal_witness:
  "\<exists>i2. Item_Unseal toy_ciphers toy_codecs toy_keychain (the_Ok (fst toy_sealed)) = Ok (i2, toy_keychain)
     \<and> ct_Note i2 = Some toy_note"
  by (rule item_seal_unseal [OF toy.secrets_axioms toy_seals])
    (auto simp: toy_item_def ContentTypeNote_def sealable_def toy_codecs_def codecs.defs split: if_splits)

text \<open>
  A secret of protocol 002 or 003 that unseals belongs to the item it is read for: it names the item's
  ID, and its authentication code is the HMAC, under the keychain's key, of the version, this ID, the IV and
  the ciphertext.
\<close>

theorem secret3_bound_to_item:
  assumes "parse_vault js s i = Ok (V3 v)" and "unseal3 ci k v = Ok p"
  shows "v3_uuid v = i
    \<and> (\<exists>dak. hex_DecodeString (kc_AuthKey k) = Inr dak
          \<and> v3_auth v = hex_encode (ci_HMAC ci dak (v3_version v @ '':'' @ i @ '':'' @ v3_iv v @ '':'' @ v3_ciphertext v)))"
proof -
  have i: "v3_uuid v = i"
    using assms(1) by (auto simp: parse_vault_def parse3_def Let_def split: if_splits)
  have "computeAuth ci v (kc_AuthKey k) = Inr (v3_auth v)"
    using assms(2) by (auto simp: unseal3_def split: if_splits)
  then show ?thesis using i by (auto simp: computeAuth_def split: sum.splits)
qed

definition toy_keychain3 :: keychain where
  "toy_keychain3 = empty_keychain\<lparr>kc_Version := ''003'', kc_MasterKey := hex_encode (replicate 32 CHR ''m''),
     kc_AuthKey := hex_encode (replicate 32 CHR ''a'')\<rparr>"

definition toy_vault3 :: vault3 where
  "toy_vault3 = \<lparr>v3_version = ''003'', v3_auth = [], v3_uuid = ''i1'', v3_iv = [], v3_ciphertext = [], v3_params = None\<rparr>"

theorem secret3_bound_to_item_witness:
  "\<exists>s v. parse_vault (codecs.truncate toy_codecs) s ''i1'' = Ok (V3 v) \<and> v3_uuid v = ''i1''"
proof -
  let ?js = "codecs.truncate toy_codecs"
  have "is_Ok (fst (seal3 toy_ciphers toy_keychain3 ''secret'' toy_vault3 toy_world))"
    by (simp add: seal3_def toy_keychain3_def toy_ciphers_def pkcs7_pad_def aes_NewCipher_def CryptBlocks_def
        computeAuth_def split_beta Let_def)
  then obtain v w where seal: "seal3 toy_ciphers toy_keychain3 ''secret'' toy_vault3 toy_world = (Ok v, w)"
    by (metis is_Ok_result)
  then have "v3_params v = None" by (rule seal3_Ok) (simp add: toy_vault3_def)
  then obtain s where ser: "serialize3 ?js v = Ok s" by (simp add: serialize3_def)
  have "ready_vault ?js ''i1'' (V3 toy_vault3)" by (simp add: ready3_def toy_vault3_def protocol_version_defs)
  with seal ser obtain v2 where v2: "parse_vault ?js s ''i1'' = Ok v2" "same_vault (V3 v) v2"
    using toy.vaults.reads [of toy_keychain3 "''secret''" "V3 toy_vault3" toy_world "V3 v" w "''i1''" s]
    by (auto simp: vault_seal_def vault_serialize_def)
  then have v2: "parse_vault ?js s ''i1'' = Ok (V3 v)" by (cases v2) auto
  have "unseal3 toy_ciphers toy_keychain3 v = Ok ''secret''" by (rule toy.unseal3_seal3 [OF seal])
  from secret3_bound_to_item [OF v2 this] v2 show ?thesis by blast
qed

text \<open>
  C30. A secret of protocol 004 is not bound to the item it was sealed for: a sealed note whose secrets are
  moved to an item with any other ID unseals there without an error, to the same note.
\<close>

theorem secret4_not_bound_to_item:
  assumes "secrets ci (codecs.truncate js)" and "Item_Seal ci js k i w = (Ok i1, w1)"
    and "ct_Version i = ProtocolVersion4"
    and "ct_Note i = Some n" and "ct_ContentType i \<in> {ContentTypeNote, ContentTypeUserPreferences}"
    and "sealable (codecs.truncate js) i (ct_key i)" and "sealable (codecs.truncate js) i (ct_content i)"
    and "\<And>b. js_MarshalNote js (Some n) = Inr b \<Longrightarrow> js_UnmarshalNote js b = (n, None)"
  shows "\<exists>i2. Item_Unseal ci js k (i1\<lparr>ct_ID := j\<rparr>) = Ok (i2, k) \<and> ct_ID i2 = j \<and> ct_Note i2 = Some n"
  using assms(2)
proof (rule Item_Seal_OkE)
  let ?js = "codecs.truncate js"
  fix ik w2 w3 kv s cv c payload
  assume kseal: "seal_part ci ?js i (ct_key i) (keyKeyChain k i) ik ''could not create vault'' ''EncryptedItemKey'' w2
       = (Ok (kv, s), w3)"
    and cseal: "seal_part ci ?js (i\<lparr>ct_key := Some kv, ct_EncryptedItemKey := s\<rparr>) (ct_content i)
       (contentKeyChain (ct_Version i) ik) payload ''could not create content vault'' ''Content'' w3 = (Ok (cv, c), w1)"
    and i1: "i1 = i\<lparr>ct_key := Some kv, ct_EncryptedItemKey := s, ct_content := Some cv, ct_Content := c\<rparr>"
  obtain i2 where i2: "Item_Unseal ci js k i1 = Ok (i2, k)" "ct_Note i2 = Some n"
    using seal_unseal_note [OF assms(1,2,4-8)] by blast
  have "hd (split_on CHR '':'' s) = ProtocolVersion4" "hd (split_on CHR '':'' c) = ProtocolVersion4"
    using seal_part_hd [OF kseal] seal_part_hd [OF cseal] assms(3) by simp_all
  moreover have "ct_ContentType i1 \<noteq> ContentTypeItemsKey"
    using assms(5) by (auto simp: i1 ContentTypeNote_def ContentTypeItemsKey_def ContentTypeUserPreferences_def)
  ultimately show ?thesis using Item_Unseal_moved [of i1] i2 by (simp add: i1)
qed

theorem secret4_not_bound_to_item_witness:
  "\<exists>i2. Item_Unseal toy_ciphers toy_codecs toy_keychain ((the_Ok (fst toy_sealed))\<lparr>ct_ID := ''i2''\<rparr>) = Ok (i2, toy_keychain)
     \<and> ct_ID i2 = ''i2'' \<and> ct_Note i2 = Some toy_note"
  by (rule secret4_not_bound_to_item [OF toy.secrets_axioms toy_seals])
    (auto simp: toy_item_def ContentTypeNote_def sealable_def toy_codecs_def codecs.defs protocol_version_defs split: if_splits)

text \<open>
  C31. Unsealing a secret of protocol 004 panics exactly when all its parts decode, the key has 32 bytes and
  the nonce does not have 24, as the AEAD then panics: a malformed nonce from the server stops the client
  instead of giving an error.
\<close>

theorem unseal4_panics_iff:
  assumes "\<And>key iv c a. (\<exists>x. ci_XOpen ci key iv c a = Panic x) \<longleftrightarrow> length iv \<noteq> 24"
  shows "(\<exists>x. unseal4 ci k v = Panic x) \<longleftrightarrow>
    (\<exists>dek iv c. hex_DecodeString (kc_MasterKey k) = Inr dek \<and> length dek = 32
        \<and> hex_DecodeString (v4_nonce v) = Inr iv \<and> length iv \<noteq> 24 \<and> b64_DecodeString (v4_ciphertext v) = Inr c)"
proof -
  have open_panics: "(\<exists>x. (case ci_XOpen ci key iv c a of Ok p \<Rightarrow> Ok p | Err e \<Rightarrow> Err (Wrap m e) | Panic x \<Rightarrow> Panic x)
      = (Panic x :: (err, bytes) outcome)) \<longleftrightarrow> length iv \<noteq> 24" for key iv c a m
    using assms [of key iv c a] by (cases "ci_XOpen ci key iv c a") auto
  show ?thesis
    by (cases "hex_DecodeString (kc_MasterKey k)"; cases "hex_DecodeString (v4_nonce v)";
        cases "b64_DecodeString (v4_ciphertext v)") (auto simp: unseal4_def chacha_NewX_def open_panics)
qed

theorem unseal4_panics_iff_witness:
  "\<exists>x. unseal4 toy_ciphers (toy_keychain\<lparr>kc_MasterKey := hex_encode (replicate 32 CHR ''m'')\<rparr>)
     \<lparr>v4_version = ''004'', v4_nonce = hex_encode [], v4_ciphertext = b64_EncodeToString [], v4_rawauth = [],
      v4_auth = item_authdata toy_item toy_auth, v4_additionaldata = []\<rparr> = Panic x"
proof -
  have "(\<exists>x. ci_XOpen toy_ciphers key iv c a = Panic x) \<longleftrightarrow> length iv \<noteq> 24" for key iv c a
    by (simp add: toy_ciphers_def)
  then show ?thesis by (subst unseal4_panics_iff) (auto simp: hex_DecodeString_def hex_decode_encode)
qed

end
