(* ===== verification/Client_Properties.thy ===== *)
theory Client_Properties
  imports Client_Commands Libsf_Properties
begin

text \<open>
  The properties of the client commands, each with a concrete run: an empty directory, prompts that always
  give the same answer and a server with fixed answers.
\<close>

subsection \<open>Example\<close>

definition toy_session :: csession where
  "toy_session = \<lparr>cs_AccessToken = ''at'', cs_RefreshToken = ''rt'', cs_AccessExpiration = 5000000, cs_RefreshExpiration = 9000000\<rparr>"

definition toy_config :: config where
  "toy_config = \<lparr>cf_Endpoint = ''http'', cf_Email = ''a@b'', cf_BearerToken = ''at'', cf_Session = toy_session,
     cf_KeyChain = empty_keychain\<lparr>kc_Version := ''004'', kc_MasterKey := hex_encode (replicate 32 CHR ''k''),
       kc_ItemsKey := Some Map.empty\<rparr>\<rparr>"

text \<open>The JSON codec knows one configuration.\<close>

definition toy_lib :: "unit client_lib" where
  "toy_lib =
     \<lparr>li_Line = (\<lambda>q n. (if q = ''Endpoint: '' then Inr ''http'' else Inr ''a@b'', n)), li_Password = (\<lambda>q n. (Inr ''pw'', n)),
      li_Random = (\<lambda>k n. (Inr (replicate k CHR ''r''), n)),
      li_MarshalConfig = (\<lambda>j. if j = config_MarshalJSON toy_config then Inr ''C'' else Inl (ErrLib ''json'')),
      li_UnmarshalConfig = (\<lambda>b. (config_MarshalJSON toy_config, None)),
      li_MarshalAuth = (\<lambda>a. Inr ''A''), li_MarshalItems = (\<lambda>is. Inr ''I''),
      li_UnmarshalItems = (\<lambda>b. ([Some toy_item], None)), li_MarshalNotes = (\<lambda>ns. Inr ''N''), li_Timestamp = (\<lambda>t. ''0'')\<rparr>"

definition toy_http :: "unit http_lib" where
  "toy_http =
     \<lparr>ht_Parse = (\<lambda>e. Inr ()), ht_URL = (\<lambda>e p q. Inr (e @ p)), ht_NewRequest = (\<lambda>m u. Inr ()),
      ht_Do = (\<lambda>rq n. (Inr \<lparr>hs_StatusCode = 200, hs_Status = ''200 OK'', hs_Body = []\<rparr>, n)), ht_MarshalMap = (\<lambda>m. Inr []),
      ht_MarshalSync = (\<lambda>s. Inr []), ht_DecodeSync = (\<lambda>b s. (s, None)), ht_DecodeError = (\<lambda>b. Inr []),
      ht_DecodeAuth = (\<lambda>b. (toy_auth, None)), ht_DecodeLogin = (\<lambda>b. ((''at'', toy_session), None)),
      ht_DecodeSession = (\<lambda>b. (toy_session, None))\<rparr>"

definition toy_dir :: "(string \<rightharpoonup> bytes) \<Rightarrow> unit outside world" where
  "toy_dir files = \<lparr>w_db = \<lparr>o_files = files, o_fault = (\<lambda>n. None), o_fileops = 0, o_net = ()\<rparr>, w_clock = int, w_ticks = 0,
     w_uuid = (\<lambda>n. []), w_uuids = 0, w_rand = (\<lambda>n. n), w_rands = 0, w_prng = (\<lambda>s n. n)\<rparr>"

interpretation toy_prompts: prompter toy_lib
  by unfold_locales (auto simp: toy_lib_def)

lemma toy_reads_back: "reads_back toy_lib cfg"
  by (auto simp: reads_back_def toy_lib_def)

lemma toy_saves:
  assumes "o_fault (w_db w) = (\<lambda>n. None)"
  shows "fst (Save_config toy_ciphers toy_lib toy_config w) = None"
  by (simp add: Save_config_def ask_def on_net_def net_world_def with_net_def toy_lib_def toy_ciphers_def chacha_NewX_def config_key_def
      write_file_def os_Create_def os_Write_def os_Sync_def wrap_opt_def file_op_def set_file_def assms)

definition toy_saved :: "unit outside world" where
  "toy_saved = snd (Save_config toy_ciphers toy_lib toy_config (toy_dir Map.empty))"

lemma toy_Save: "Save_config toy_ciphers toy_lib toy_config (toy_dir Map.empty) = (None, toy_saved)"
  using toy_saves [of "toy_dir Map.empty"] by (simp add: toy_saved_def toy_dir_def prod_eq_iff)

subsection \<open>Properties\<close>

text \<open>
  C32. Credentials that were saved are loaded again with the same passphrase, in any later world in which
  the ct was not changed and can be read: everything is as saved, except that the expirations are cut
  to the millisecond and that the items keys are not kept.
\<close>

theorem saved_config_loads:
  assumes "primitives ci" and "prompter li" and save: "Save_config ci li cfg w = (None, w1)" and "reads_back li cfg"
    and "in_int64 (cs_AccessExpiration (cf_Session cfg) div 1000000)"
    and "in_int64 (cs_RefreshExpiration (cf_Session cfg) div 1000000)"
    and "fst (li_Password li ''passphrase: '' (o_net (w_db w))) = Inr pass"
    and "fst (li_Password li ''passphrase: '' (o_net (w_db w2))) = Inr pass"
    and same: "o_files (w_db w2) credentialsfile = o_files (w_db w1) credentialsfile"
    and "o_fault (w_db w2) (o_fileops (w_db w2)) = None"
  shows "fst (Load ci li w2) = Ok (cfg
    \<lparr>cf_Session := (cf_Session cfg)
       \<lparr>cs_AccessExpiration := cs_AccessExpiration (cf_Session cfg) - cs_AccessExpiration (cf_Session cfg) mod 1000000,
        cs_RefreshExpiration := cs_RefreshExpiration (cf_Session cfg) - cs_RefreshExpiration (cf_Session cfg) mod 1000000\<rparr>,
     cf_KeyChain := (cf_KeyChain cfg)\<lparr>kc_ItemsKey := Some Map.empty\<rparr>\<rparr>)"
proof -
  obtain ct where "o_files (w_db w1) = (o_files (w_db w))(credentialsfile \<mapsto> ct)"
    and opens: "open_credentials ci li pass ct = Ok (stored_config cfg)"
    using Save_opens [OF assms(1-4,7)] by blast
  then have "o_files (w_db w2) credentialsfile = Some ct" using same by simp
  then have "fst (Load ci li w2) = Ok (stored_config cfg)" using Load_reads assms(8,10) opens by metis
  then show ?thesis using session_JSON assms(5,6) by (simp add: stored_config_def)
qed

theorem saved_config_loads_witness:
  "fst (Load toy_ciphers toy_lib (toy_dir (o_files (w_db toy_saved)))) = Ok toy_config"
proof -
  have "fst (Load toy_ciphers toy_lib (toy_dir (o_files (w_db toy_saved)))) = Ok (toy_config
    \<lparr>cf_Session := (cf_Session toy_config)
       \<lparr>cs_AccessExpiration := cs_AccessExpiration (cf_Session toy_config) - cs_AccessExpiration (cf_Session toy_config) mod 1000000,
        cs_RefreshExpiration := cs_RefreshExpiration (cf_Session toy_config) - cs_RefreshExpiration (cf_Session toy_config) mod 1000000\<rparr>,
     cf_KeyChain := (cf_KeyChain toy_config)\<lparr>kc_ItemsKey := Some Map.empty\<rparr>\<rparr>)"
    by (rule saved_config_loads [OF toy_primitives toy_prompts.prompter_axioms toy_Save toy_reads_back, where pass = "''pw''"])
      (simp_all add: toy_lib_def toy_dir_def toy_config_def toy_session_def in_int64_def int64_min_def int64_max_def)
  then show ?thesis by (simp add: toy_config_def toy_session_def)
qed

text \<open>
  A login that succeeds has stored credentials, and nothing else: the passphrase opens them, they have
  the master key derived from the typed password under parameters that pass the integrity check, and not
  the password sent to the server.
\<close>

theorem login_stores_credentials:
  fixes w :: "'n outside world"
  assumes prim: "primitives ci" and li: "prompter li" and "\<And>cfg. reads_back li cfg"
    and login: "cmd_Login ci li ht w = (Ok (), w1)"
  shows "\<exists>ct pass cfg a uip (w4 :: 'n world). o_files (w_db w1) = (o_files (w_db w))(credentialsfile \<mapsto> ct)
    \<and> (\<exists>x. fst (li_Password li ''passphrase: '' x) = Inr pass) \<and> open_credentials ci li pass ct = Ok cfg
    \<and> IntegrityCheck a = None \<and> (\<exists>x. fst (li_Password li ''Password: '' x) = Inr uip)
    \<and> kc_MasterKey (cf_KeyChain cfg) = kc_MasterKey (fst (SymmetricKeyPair ci a uip w4)) \<and> kc_Password (cf_KeyChain cfg) = []"
  using login
proof (rule cmd_Login_OkE)
  fix endpoint email a uip k w6 and c :: client and w4 :: "'n world"
  let ?cfg = "\<lparr>cf_Endpoint = endpoint, cf_Email = email, cf_BearerToken = cl_bearer c,
           cf_Session = cl_session c, cf_KeyChain = k\<lparr>kc_Password := []\<rparr>\<rparr>"
  assume ok: "IntegrityCheck a = None" "\<exists>x. fst (li_Password li ''Password: '' x) = Inr uip"
    and k: "k = fst (SymmetricKeyPair ci a uip w4)" and files: "o_files (w_db w6) = o_files (w_db w)"
    and save: "Save_config ci li ?cfg w6 = (None, w1)"
  obtain pass where pass: "fst (li_Password li ''passphrase: '' (o_net (w_db w6))) = Inr pass"
    using save by (rule Save_NoneE)
  then obtain ct where "o_files (w_db w1) = (o_files (w_db w))(credentialsfile \<mapsto> ct)"
    and "open_credentials ci li pass ct = Ok (stored_config ?cfg)"
    using Save_opens [OF prim li save assms(3)] files by auto
  moreover have "kc_MasterKey (cf_KeyChain (stored_config ?cfg)) = kc_MasterKey (fst (SymmetricKeyPair ci a uip w4))"
    "kc_Password (cf_KeyChain (stored_config ?cfg)) = []"
    by (simp_all add: stored_config_def k)
  ultimately show ?thesis using ok pass by blast
qed

lemma toy_asks:
  "ask (li_Line toy_lib ''Endpoint: '') w = (Inr ''http'', w)" "ask (li_Line toy_lib ''Email: '') w = (Inr ''a@b'', w)"
  "ask (li_Password toy_lib q) w = (Inr ''pw'', w)"
  by (simp_all add: ask_def on_net_def toy_lib_def net_world_def with_net_def)

lemma unit_world: "w\<lparr>w_db := ()\<rparr> = (w :: unit world)"
  by (cases w) simp

lemma toy_requests:
  "on_net (GetAuthParams toy_http c email) w = (Inr toy_auth, w)"
  "on_net (\<lambda>n. let (e, c1, n1) = client_Login toy_http email pw c n in ((e, c1), n1)) w
     = ((None, SetSession toy_session (c\<lparr>cl_bearer := ''at''\<rparr>)), w)"
  by (simp_all add: GetAuthParams_def client_Login_def send_def on_net_def toy_http_def toy_session_def Defined_def
      IsZero_def zero_time_def wrap_opt_def unit_world)

lemma toy_keys:
  "on_net (SymmetricKeyPair toy_ciphers toy_auth uip) w
     = ((cf_KeyChain toy_config)\<lparr>kc_Password := hex_encode (replicate 32 CHR ''k'')\<rparr>, w)"
  by (simp add: on_net_def SymmetricKeyPair_def SymmetricKeyPair4_def kdf4_def toy_auth_def toy_ciphers_def toy_config_def
      protocol_version_defs empty_keychain_def)

lemma toy_login_ok: "fst (cmd_Login toy_ciphers toy_lib toy_http (toy_dir Map.empty)) = Ok ()"
proof -
  have c: "NewDefaultClient toy_http ''http''
      = (\<lparr>cl_apiversion = APIVersion, cl_endpoint = ''http'', cl_bearer = [], cl_session = zero_session\<rparr>, None)"
    by (simp add: NewDefaultClient_def NewClient_def toy_http_def)
  have ok: "IntegrityCheck toy_auth = None" by (simp add: IntegrityCheck_def toy_auth_def protocol_version_defs)
  have cfg: "\<lparr>cf_Endpoint = ''http'', cf_Email = ''a@b'', cf_BearerToken = ''at'', cf_Session = toy_session,
      cf_KeyChain = (cf_KeyChain toy_config)\<lparr>kc_Password := []\<rparr>\<rparr> = toy_config"
    by (simp add: toy_config_def empty_keychain_def)
  obtain w1 where save: "Save_config toy_ciphers toy_lib toy_config (toy_dir Map.empty) = (None, w1)"
    using toy_Save by blast
  show ?thesis
    unfolding cmd_Login_def toy_asks c toy_requests toy_keys
    using cfg save by (simp add: toy_asks c toy_requests toy_keys ok SetSession_def toy_session_def)
qed

theorem login_stores_credentials_witness:
  "\<exists>ct pass cfg. o_files (w_db (snd (cmd_Login toy_ciphers toy_lib toy_http (toy_dir Map.empty)))) = [credentialsfile \<mapsto> ct]
     \<and> open_credentials toy_ciphers toy_lib pass ct = Ok cfg \<and> kc_Password (cf_KeyChain cfg) = []"
proof -
  have "cmd_Login toy_ciphers toy_lib toy_http (toy_dir Map.empty)
      = (Ok (), snd (cmd_Login toy_ciphers toy_lib toy_http (toy_dir Map.empty)))"
    using toy_login_ok by (metis prod.collapse)
  from login_stores_credentials [OF toy_primitives toy_prompts.prompter_axioms toy_reads_back this]
  show ?thesis by (auto simp: toy_dir_def)
qed

text \<open>
  C33. Refreshing without an error: a session that is good for an hour is kept and nothing is done; any other
  is replaced by the one the server answers, which the client then uses and which the stored credentials
  have.
\<close>

theorem refresh_stores_session:
  assumes prim: "primitives ci" and li: "prompter li" and "\<And>cfg. reads_back li cfg"
    and refresh: "Refresh ci li ht c cfg w = (None, c1, cfg1, w1)"
  shows "if AccessExpiredAt (cf_Session cfg) (fst (Now w) + hours 1)
    then fst (on_net (RefreshSession ht c (cs_AccessToken (cf_Session cfg)) (cs_RefreshToken (cf_Session cfg))) (snd (Now w)))
           = Inr (cf_Session cfg1)
       \<and> cfg1 = cfg\<lparr>cf_Session := cf_Session cfg1\<rparr> \<and> cl_session c1 = cf_Session cfg1
       \<and> cl_bearer c1 = cs_AccessToken (cf_Session cfg1)
       \<and> (\<exists>ct pass. o_files (w_db w1) = (o_files (w_db w))(credentialsfile \<mapsto> ct)
            \<and> open_credentials ci li pass ct = Ok (stored_config cfg1))
    else c1 = c \<and> cfg1 = cfg \<and> w_db w1 = w_db w"
proof (cases "AccessExpiredAt (cf_Session cfg) (fst (Now w) + hours 1)")
  case False
  then show ?thesis using refresh by (auto simp: Refresh_def split_beta Let_def)
next
  case True
  obtain r w2 where r: "on_net (RefreshSession ht c (cs_AccessToken (cf_Session cfg)) (cs_RefreshToken (cf_Session cfg))) (snd (Now w))
      = (r, w2)" by force
  then obtain s where s: "r = Inr s" using refresh True by (cases r) (auto simp: Refresh_def split_beta Let_def)
  have save: "Save_config ci li cfg1 w2 = (None, w1)" and c1: "cfg1 = cfg\<lparr>cf_Session := s\<rparr>" "c1 = SetSession s c"
    using refresh True r s by (auto simp: Refresh_def wrap_opt_def split_beta Let_def prod_eq_iff)
  obtain pass where pass: "fst (li_Password li ''passphrase: '' (o_net (w_db w2))) = Inr pass"
    using save by (rule Save_NoneE)
  have "o_files (w_db w2) = o_files (w_db w)"
    using on_net_files [of "RefreshSession ht c (cs_AccessToken (cf_Session cfg)) (cs_RefreshToken (cf_Session cfg))" "snd (Now w)"] r
    by simp
  then obtain ct where "o_files (w_db w1) = (o_files (w_db w))(credentialsfile \<mapsto> ct)"
    and "open_credentials ci li pass ct = Ok (stored_config cfg1)"
    using Save_opens [OF prim li save assms(3) pass] by auto
  then show ?thesis using True r s c1 by (auto simp: SetSession_def)
qed

lemma toy_refresh_ok:
  "fst (Refresh toy_ciphers toy_lib toy_http (fst (NewDefaultClient toy_http ''http''))
     (toy_config\<lparr>cf_Session := zero_session\<rparr>) (toy_dir Map.empty)) = None"
  by (simp add: Refresh_def NewDefaultClient_def NewClient_def AccessExpiredAt_def Defined_def zero_session_def SetSession_def
      RefreshSession_def send_def toy_http_def Now_def
      toy_http_def ask_def on_net_def net_world_def with_net_def toy_lib_def toy_dir_def  toy_ciphers_def empty_keychain_def
      toy_session_def wrap_opt_def Save_config_def toy_config_def config_MarshalJSON_def
      keychain_MarshalJSON_def config_key_def chacha_NewX_def write_file_def os_Create_def os_Write_def os_Sync_def
      file_op_def set_file_def Let_def)

theorem refresh_stores_session_witness:
  "\<exists>c1 cfg1 w1. Refresh toy_ciphers toy_lib toy_http (fst (NewDefaultClient toy_http ''http''))
       (toy_config\<lparr>cf_Session := zero_session\<rparr>) (toy_dir Map.empty) = (None, c1, cfg1, w1) \<and> cl_session c1 = cf_Session cfg1"
proof -
  obtain c1 cfg1 w1 where run: "Refresh toy_ciphers toy_lib toy_http (fst (NewDefaultClient toy_http ''http''))
       (toy_config\<lparr>cf_Session := zero_session\<rparr>) (toy_dir Map.empty) = (None, c1, cfg1, w1)"
    using toy_refresh_ok by (metis prod.collapse)
  have "AccessExpiredAt zero_session t" for t by (simp add: AccessExpiredAt_def Defined_def zero_session_def)
  then show ?thesis
    using refresh_stores_session [OF toy_primitives toy_prompts.prompter_axioms toy_reads_back run] run by auto
qed

text \<open>
  C34. Under protocol 004 the command that decrypts a backup never succeeds when the backup has a note: the
  key of a note is looked up among the items keys, of which the stored credentials have none and which the
  command does not read from the backup.
\<close>

theorem unseal_command_needs_items_key:
  assumes load: "Load ci li w = (Ok cfg, w1)" and "kc_Version (cf_KeyChain cfg) = ProtocolVersion4"
    and read: "os_ReadFile filename w1 = (Inr data, w2)" and "li_UnmarshalItems li data = (items, None)"
    and "Some i \<in> set items" and "ct_ContentType i = ContentTypeNote" and "None \<notin> set items"
  shows "\<exists>e. cmd_Unseal ci li js filename w = (Err e, w2)"
proof -
  obtain e where "unseal_notes ci js (cf_KeyChain cfg) items = Err e"
    using notes_without_items_key [OF assms(2) Load_ItemsKey [OF load]] assms(5-7) by blast
  then show ?thesis using load read assms(4) by (simp add: cmd_Unseal_def)
qed

theorem unseal_command_needs_items_key_witness:
  "\<exists>e w2. cmd_Unseal toy_ciphers toy_lib toy_codecs ''items_0.json''
     (toy_dir ((o_files (w_db toy_saved))(''items_0.json'' \<mapsto> ''I''))) = (Err e, w2)"
proof -
  let ?w = "toy_dir ((o_files (w_db toy_saved))(''items_0.json'' \<mapsto> ''I''))"
  obtain ct where "o_files (w_db toy_saved) = [credentialsfile \<mapsto> ct]"
    and opens: "open_credentials toy_ciphers toy_lib ''pw'' ct = Ok (stored_config toy_config)"
    using Save_opens [OF toy_primitives toy_prompts.prompter_axioms toy_Save toy_reads_back, of "''pw''"]
    by (auto simp: toy_lib_def toy_dir_def)
  then have "fst (Load toy_ciphers toy_lib ?w) = Ok (stored_config toy_config)"
    by (subst Load_reads [where ct = ct and pass = "''pw''"]) (simp_all add: toy_dir_def toy_lib_def credentialsfile_def)
  then obtain w1 where load: "Load toy_ciphers toy_lib ?w = (Ok (stored_config toy_config), w1)"
    by (metis prod.collapse)
  have "fst (os_ReadFile ''items_0.json'' w1) = Inr ''I''"
    using load unfolding os_ReadFile_Inr_iff
    by (auto simp: Load_def os_ReadFile_def file_op_def ask_def on_net_def net_world_def with_net_def toy_dir_def
        split: prod.splits sum.splits option.splits)
  then obtain w2 where read: "os_ReadFile ''items_0.json'' w1 = (Inr ''I'', w2)" by (metis prod.collapse)
  show ?thesis
    using unseal_command_needs_items_key [OF load _ read, of "[Some toy_item]" toy_item toy_codecs]
    by (auto simp: stored_config_def toy_config_def protocol_version_defs toy_lib_def toy_item_def ContentTypeNote_def)
qed

end
