(* ===== verification/Note_Properties.thy ===== *)
theory Note_Properties
  imports Note_Command Client_Properties
begin

text \<open>
  The properties of the note-taking command: what is sent of an edited note, what its time of change says,
  and the list of notes it shows.
\<close>

subsection \<open>Walking the list\<close>

text \<open>
  The list widget of the library walks the list from \<open>First\<close> with \<open>Next\<close>, or from \<open>Last\<close> with \<open>Previous\<close>, as
  long as there is a note \<open>At\<close> the position. A walk that does not end has no value.
\<close>

partial_function (option) walk ::
  "('j note_list \<Rightarrow> int \<Rightarrow> int) \<Rightarrow> 'j note_list \<Rightarrow> int \<Rightarrow> 'j entry list option" where
  "walk move l p =
     (case At l p of
        None \<Rightarrow> Some []
      | Some e \<Rightarrow> Option.bind (walk move l (move l p)) (\<lambda>es. Some (e # es)))"

lemma walk_off: "walk move l (- 1) = Some []"
  by (simp add: walk.simps [of move l] At_def)

lemma walk_Next:
  "n < length (nl_widgets l) \<Longrightarrow> walk Next l (int n) = Some (drop n (nl_widgets l))"
proof (induction "length (nl_widgets l) - n" arbitrary: n)
  case (Suc m)
  have at: "At l (int n) = Some (nl_widgets l ! n)" using Suc.prems by (simp add: At_def)
  show ?case
  proof (cases "Suc n = length (nl_widgets l)")
    case True
    then have "Next l (int n) = - 1" by (simp add: Next_def)
    then show ?thesis using True at by (simp add: walk.simps [of Next l "int n"] walk_off Cons_nth_drop_Suc [symmetric])
  next
    case False
    then have nxt: "Next l (int n) = int (Suc n)" by (simp add: Next_def)
    have "walk Next l (int (Suc n)) = Some (drop (Suc n) (nl_widgets l))"
      using Suc.hyps(1) [of "Suc n"] Suc.hyps(2) Suc.prems False by simp
    then show ?thesis using at nxt Suc.prems
      by (simp add: walk.simps [of Next l "int n"] Cons_nth_drop_Suc)
  qed
qed simp

lemma walk_Previous:
  "n < length (nl_widgets l) \<Longrightarrow> walk Previous l (int n) = Some (rev (take (Suc n) (nl_widgets l)))"
proof (induction n)
  case 0
  then have "At l 0 = Some (nl_widgets l ! 0)" and "take 1 (nl_widgets l) = [nl_widgets l ! 0]"
    by (simp_all add: At_def take_Suc_conv_app_nth)
  moreover have "Previous l 0 = - 1" by (simp add: Previous_def)
  ultimately show ?case by (simp add: walk.simps [of Previous l 0] walk_off)
next
  case (Suc n)
  have "At l (int (Suc n)) = Some (nl_widgets l ! Suc n)" and "Previous l (int (Suc n)) = int n"
    using Suc.prems by (simp_all add: At_def Previous_def nat_add_distrib)
  then show ?case using Suc
    by (simp add: walk.simps [of Previous l "1 + int n"] take_Suc_conv_app_nth)
qed

subsection \<open>Example\<close>

text \<open>Civil times in unary, and JSON values that are the text of the one key.\<close>

definition unary :: "int \<Rightarrow> string" where
  "unary ms = (if ms < 0 then CHR ''-'' # replicate (nat (- ms)) CHR ''1'' else replicate (nat ms) CHR ''1'')"

definition parse_unary :: "string \<Rightarrow> int option" where
  "parse_unary s =
     (case s of [] \<Rightarrow> Some 0 | c # cs \<Rightarrow> Some (if c = CHR ''-'' then - int (length cs) else int (length s)))"

lemma parse_unary: "parse_unary (unary ms) = Some ms"
  by (cases "nat ms") (auto simp: parse_unary_def unary_def)

definition toy_fs :: "string note_lib" where
  "toy_fs = \<lparr>fs_Parse = Inr, fs_String = (\<lambda>v. []), fs_Exists = (\<lambda>v p. True), fs_GetString = (\<lambda>v p. v),
     fs_SetString = (\<lambda>v p k s. s), fs_Civil = unary, fs_ParseCivil = parse_unary, fs_Zone = (\<lambda>t. hours 2)\<rparr>"

interpretation toy_values: note_values toy_fs
  by unfold_locales (simp_all add: toy_fs_def parse_unary)

definition toy_client :: client where
  "toy_client = \<lparr>cl_apiversion = APIVersion, cl_endpoint = [], cl_bearer = [], cl_session = zero_session\<rparr>"

text \<open>A server that answers that everything was saved.\<close>

definition saving_http :: "unit http_lib" where
  "saving_http = toy_http\<lparr>ht_DecodeSync := \<lambda>b s. (s\<lparr>si_Saved := si_Items s\<rparr>, None)\<rparr>"

text \<open>The whole edit, as the server sees it.\<close>

lemma toy_synchronized:
  obtains i1 w1 where
    "synchronizer toy_ciphers toy_codecs toy_fs saving_http toy_client toy_keychain toy_item [] toy_world
      = (Ok (Saved_at (ct_UpdatedAt i1), Some i1), w1)"
    and "ct_ID i1 = ''i1''" and "ct_Note i1 = Some toy_note"
proof -
  have note_same: "SaveRaw toy_fs x (note_of toy_item) = toy_note" for x
    by (simp add: SaveRaw_def note_of_def toy_item_def toy_note_def toy_fs_def)
  obtain i1 w1 where seal: "Item_Seal toy_ciphers toy_codecs toy_keychain toy_item (snd (SetUpdatedAtNow toy_fs [] toy_world)) = (Ok i1, w1)"
    using is_Ok_result [OF toy_seals_Ok] by metis
  have same: "toy_item\<lparr>ct_Note := Some toy_note\<rparr> = toy_item" by (simp add: toy_item_def)
  have "SyncItems saving_http toy_client (NewSyncItems\<lparr>si_Items := [Some i1]\<rparr>) w1
      = (NewSyncItems\<lparr>si_API := APIVersion, si_Items := [Some i1], si_Saved := [Some i1]\<rparr>, None, w1)"
    by (simp add: SyncItems_def send_def saving_http_def toy_http_def toy_client_def wrap_opt_def NewSyncItems_def unit_world)
  then have run: "synchronizer toy_ciphers toy_codecs toy_fs saving_http toy_client toy_keychain toy_item [] toy_world
      = (Ok (Saved_at (ct_UpdatedAt i1), Some i1), w1)"
    unfolding synchronizer_def note_same same using seal by (simp add: split_beta Let_def note_same same NewSyncItems_def)
  from seal have "ct_ID i1 = ''i1'' \<and> ct_Note i1 = Some toy_note"
    by (rule Item_Seal_OkE) (simp add: toy_item_def)
  with run show thesis using that by blast
qed

subsection \<open>Properties\<close>

lemma sealable_Note: "sealable js (i\<lparr>ct_Note := x\<rparr>) old \<longleftrightarrow> sealable js i old"
  by (simp add: sealable_def item_authdata_def cong: option.case_cong)

text \<open>
  C35. What goes out over the network of an edited note is the note: the synchronizer sends one request at most,
  with the client's token, and one when it reports the note as saved; its body encodes a synchronisation of exactly
  one item, which has the ID and type of the edited one and unseals with the keychain of the client to the note that
  was edited, with the application data that has the new time of change. What is assumed of the JSON codec concerns
  this one note.
\<close>

theorem edited_note_is_sent:
  assumes sec: "secrets ci (codecs.truncate js)"
    and run: "synchronizer ci js fs (logged ht) c k i v w = (Ok (r, i'), w1)"
    and "ct_Note i = Some n" and "ct_ContentType i = ContentTypeNote"
    and "sealable (codecs.truncate js) i (ct_key i)" and "sealable (codecs.truncate js) i (ct_content i)"
    and edited: "n' = n\<lparr>nt_AppData := fs_String fs (fst (SetUpdatedAtNow fs v w))\<rparr>"
    and "\<And>b. js_MarshalNote js (Some n') = Inr b \<Longrightarrow> js_UnmarshalNote js b = (n', None)"
  shows "(\<forall>t. r \<noteq> Saved_at t) \<and> snd (w_db w1) = snd (w_db w)
    \<or> (\<exists>rq i2 i3. snd (w_db w1) = snd (w_db w) @ [rq]
         \<and> sync_request ht c (NewSyncItems\<lparr>si_Items := [Some i2]\<rparr>) rq
         \<and> ct_ID i2 = ct_ID i \<and> ct_ContentType i2 = ContentTypeNote
         \<and> Item_Unseal ci js k i2 = Ok (i3, k) \<and> ct_Note i3 = Some n')"
proof -
  obtain v1 w2 where v1: "SetUpdatedAtNow fs v w = (v1, w2)" by force
  let ?i = "i\<lparr>ct_Note := Some n'\<rparr>"
  have i: "i\<lparr>ct_Note := Some (SaveRaw fs v1 (note_of i))\<rparr> = ?i"
    using assms(3) edited v1 by (simp add: note_of_def SaveRaw_def)
  obtain out w3 where seal: "Item_Seal ci js k ?i w2 = (out, w3)" by force
  have db: "w_db w3 = w_db w"
    using Item_Seal_db [of ci js k ?i w2] seal v1 by (auto simp: SetUpdatedAtNow_def Now_def)
  note def = synchronizer_def v1 i seal
  show ?thesis
  proof (cases out)
    case (Ok i2)
    obtain items e w4 where sync: "SyncItems (logged ht) c (NewSyncItems\<lparr>si_Items := [Some i2]\<rparr>) w3 = (items, e, w4)"
      by (metis prod_cases3)
    have w4: "w4 = w1" and saved: "\<forall>t. r = Saved_at t \<longrightarrow> e = None"
      using run Ok sync by (auto simp: def split: option.splits if_splits list.splits)
    obtain i3 where "Item_Unseal ci js k i2 = Ok (i3, k)" "ct_Note i3 = Some n'"
      using seal_unseal_note [OF sec seal [unfolded Ok], of n'] assms(4-6,8) sealable_Note by auto
    moreover have "ct_ID i2 = ct_ID i \<and> ct_ContentType i2 = ct_ContentType i"
      using seal [unfolded Ok] by (rule Item_Seal_OkE) simp
    ultimately show ?thesis using SyncItems_sends [OF sync] saved w4 db assms(4) by auto
  next
    case (Err e)
    then show ?thesis using run db by (auto simp: def)
  qed (use run in \<open>simp add: def\<close>)
qed

text \<open>The edit of the example over a network that remembers what it carries.\<close>

definition logging_world :: "(unit \<times> http_request list) world" where
  "logging_world = \<lparr>w_db = ((), []), w_clock = int, w_ticks = 0, w_uuid = (\<lambda>n. []), w_uuids = 0, w_rand = (\<lambda>n. n), w_rands = 0,
     w_prng = (\<lambda>s n. n)\<rparr>"

theorem edited_note_is_sent_witness:
  "\<exists>(w1 :: (unit \<times> http_request list) world) rq i2 i3. snd (w_db w1) = [rq] \<and> sync_request saving_http toy_client (NewSyncItems\<lparr>si_Items := [Some i2]\<rparr>) rq
     \<and> Item_Unseal toy_ciphers toy_codecs toy_keychain i2 = Ok (i3, toy_keychain) \<and> ct_Note i3 = Some toy_note"
proof -
  have note_same: "SaveRaw toy_fs x (note_of toy_item) = toy_note" for x
    by (simp add: SaveRaw_def note_of_def toy_item_def toy_note_def toy_fs_def)
  have same: "toy_item\<lparr>ct_Note := Some toy_note\<rparr> = toy_item" by (simp add: toy_item_def)
  obtain i1 w1 where seal: "Item_Seal toy_ciphers toy_codecs toy_keychain toy_item (snd (SetUpdatedAtNow toy_fs [] logging_world)) = (Ok i1, w1)"
    using is_Ok_result [OF toy_seals_Ok] by metis
  obtain w2 where "SyncItems (logged saving_http) toy_client (NewSyncItems\<lparr>si_Items := [Some i1]\<rparr>) w1
      = (NewSyncItems\<lparr>si_API := APIVersion, si_Items := [Some i1], si_Saved := [Some i1]\<rparr>, None, w2)"
    by (simp add: SyncItems_def send_def logged_def saving_http_def toy_http_def toy_client_def wrap_opt_def NewSyncItems_def
        split_beta Let_def)
  then have run: "synchronizer toy_ciphers toy_codecs toy_fs (logged saving_http) toy_client toy_keychain toy_item [] logging_world
      = (Ok (Saved_at (ct_UpdatedAt i1), Some i1), w2)"
    unfolding synchronizer_def note_same same using seal by (simp add: split_beta Let_def note_same same NewSyncItems_def)
  have "\<exists>rq i2 i3. snd (w_db w2) = snd (w_db logging_world) @ [rq]
      \<and> sync_request saving_http toy_client (NewSyncItems\<lparr>si_Items := [Some i2]\<rparr>) rq
      \<and> Item_Unseal toy_ciphers toy_codecs toy_keychain i2 = Ok (i3, toy_keychain) \<and> ct_Note i3 = Some toy_note"
    using edited_note_is_sent [OF toy.secrets_axioms run, where n = toy_note and n' = toy_note]
    by (auto simp: toy_item_def ContentTypeNote_def sealable_def toy_codecs_def codecs.defs toy_fs_def toy_note_def
        split: if_splits)
  then show ?thesis by (auto simp: logging_world_def)
qed

text \<open>
  The time of change of a note is that of the local clock read as UTC: after an edit it is the current
  time plus the offset of the local time zone, cut to the millisecond.
\<close>

theorem note_clock_is_local:
  assumes "note_values fs" and "fs_Exists fs v [''org.standardnotes.sn'']"
  shows "note_UpdatedAt fs (fst (SetUpdatedAtNow fs v w))
    = time_of_milli ((fst (Now w) + fs_Zone fs (fst (Now w))) div 1000000)"
  by (rule note_values.UpdatedAt_SetUpdatedAtNow [OF assms])

theorem note_clock_is_local_witness:
  "note_UpdatedAt toy_fs (fst (SetUpdatedAtNow toy_fs [] toy_world)) = hours 2"
proof -
  have "fs_Exists toy_fs [] [''org.standardnotes.sn'']" by (simp add: toy_fs_def)
  from note_clock_is_local [OF toy_values.note_values_axioms this, of toy_world]
  show ?thesis by (simp add: Now_def toy_world_def toy_fs_def hours_def time_of_milli_def)
qed

text \<open>
  C36. In every state the interface can reach the list can be walked: \<open>Next\<close> from \<open>First\<close> ends and visits every
  note once, in the order of the list, and \<open>Previous\<close> from \<open>Last\<close> ends and visits them backwards; no two notes
  have the same ID, and the editor shows one of them, unless there is none.
\<close>

theorem note_list_walks_end:
  assumes "tui_reachable fs srt u" and "\<And>less xs. mset (srt less xs) = mset xs"
  shows "(case First (ui_list u) of None \<Rightarrow> nl_widgets (ui_list u) = []
          | Some p \<Rightarrow> walk Next (ui_list u) p = Some (nl_widgets (ui_list u)))
    \<and> (case Last (ui_list u) of None \<Rightarrow> nl_widgets (ui_list u) = []
          | Some p \<Rightarrow> walk Previous (ui_list u) p = Some (rev (nl_widgets (ui_list u))))
    \<and> distinct (map (ct_ID \<circ> fst) (nl_widgets (ui_list u)))
    \<and> (case tu_editor u of None \<Rightarrow> nl_widgets (ui_list u) = [] | Some e \<Rightarrow> e \<in> set (nl_widgets (ui_list u)))"
proof -
  have ok: "tui_ok u" by (rule tui_reachable_ok [OF assms(1)]) (rule assms(2))
  show ?thesis
  proof (cases "nl_widgets (ui_list u)")
    case Nil
    then show ?thesis using ok by (simp add: First_def Last_def tui_ok_def)
  next
    case (Cons e es)
    have "walk Next (ui_list u) 0 = Some (nl_widgets (ui_list u))"
      using walk_Next [of 0 "ui_list u"] Cons by simp
    moreover have "walk Previous (ui_list u) (int (length es)) = Some (rev (nl_widgets (ui_list u)))"
      using walk_Previous [of "length es" "ui_list u"] Cons by simp
    ultimately show ?thesis using Cons ok by (simp add: First_def Last_def tui_ok_def note_list_ok_def)
  qed
qed

text \<open>Insertion, an instance of sorting.\<close>

fun put_in :: "('a \<Rightarrow> 'a \<Rightarrow> bool) \<Rightarrow> 'a \<Rightarrow> 'a list \<Rightarrow> 'a list" where
  "put_in before x [] = [x]"
| "put_in before x (y # ys) = (if before y x then y # put_in before x ys else x # y # ys)"

definition insertion :: "('a \<Rightarrow> 'a \<Rightarrow> bool) \<Rightarrow> 'a list \<Rightarrow> 'a list" where
  "insertion before xs = foldr (put_in before) xs []"

lemma mset_put_in: "mset (put_in before x ys) = add_mset x (mset ys)"
  by (induction before x ys rule: put_in.induct) auto

lemma mset_insertion: "mset (insertion before xs) = mset xs"
  by (induction xs) (simp_all add: insertion_def mset_put_in)

text \<open>Two notes; the list sorted by name begins with the second.\<close>

definition titled :: "string \<Rightarrow> string \<Rightarrow> string entry" where
  "titled i title = (toy_item\<lparr>ct_ID := i, ct_Note := Some (toy_note\<lparr>nt_Title := title\<rparr>)\<rparr>, [])"

definition two_notes :: "string tui" where
  "two_notes = \<lparr>ui_SortBy = ''name'',
     ui_list = \<lparr>nl_widgets = [titled ''i2'' ''A'', titled ''i1'' ''T''], nl_registred = (\<lambda>_. False)(''i1'' := True, ''i2'' := True),
                nl_focus = 0\<rparr>,
     tu_editor = Some (titled ''i2'' ''A''), tu_status = []\<rparr>"

lemma two_notes_reachable: "tui_reachable toy_fs insertion two_notes"
proof -
  define start :: "string tui" where "start = \<lparr>ui_SortBy = ''name'', ui_list = newNoteListAbstraction, tu_editor = None, tu_status = []\<rparr>"
  define one where "one = start\<lparr>ui_list := \<lparr>nl_widgets = [titled ''i1'' ''T''], nl_registred = (\<lambda>_. False)(''i1'' := True),
      nl_focus = 0\<rparr>, tu_editor := Some (titled ''i1'' ''T'')\<rparr>"
  define two where "two = one\<lparr>ui_list := \<lparr>nl_widgets = [titled ''i1'' ''T'', titled ''i2'' ''A''],
      nl_registred = (\<lambda>_. False)(''i1'' := True, ''i2'' := True), nl_focus = 0\<rparr>\<rparr>"
  have id: "ct_ID (fst (titled i t)) = i" for i t by (simp add: titled_def)
  have "tui_New None = Inr start" by (simp add: tui_New_def start_def)
  moreover have "tui_Register (titled ''i1'' ''T'') start = Ok one"
    by (simp add: tui_Register_def Add_def one_def start_def newNoteListAbstraction_def hack_shows_first id)
  moreover have "tui_Register (titled ''i2'' ''A'') one = Ok two"
    by (simp add: tui_Register_def Add_def two_def one_def start_def newNoteListAbstraction_def id)
  moreover have "title_less (titled ''i2'' ''A'') (titled ''i1'' ''T'')" by code_simp
  then have "insertion title_less [titled ''i1'' ''T'', titled ''i2'' ''A''] = [titled ''i2'' ''A'', titled ''i1'' ''T'']"
    by (simp add: insertion_def)
  then have "SortItems toy_fs insertion two = Ok two_notes"
    by (simp add: SortItems_def note_list_Sort_def two_def one_def start_def two_notes_def hack_shows_first)
  ultimately show ?thesis by (metis tui_start tui_registered tui_sorted)
qed

theorem note_list_walks_end_witness:
  "walk Next (ui_list two_notes) 0 = Some [titled ''i2'' ''A'', titled ''i1'' ''T'']"
  using note_list_walks_end [OF two_notes_reachable mset_insertion] by (simp add: First_def two_notes_def)

text \<open>
  A save moves the editor: when the server has saved an edited note, the editor shows the first note of the
  sorted list, whichever note was being edited. (Sorted by the time of change this is the edited one; by
  name, the order the interface starts with, it need not be.)
\<close>

theorem saved_edit_shows_first_note:
  assumes "edit_in_tui ci js fs srt ht c k txt e u w = (Ok u1, w1)"
    and "fst (edit_note ci js fs ht c k txt (fst e) (snd e) w) = Ok (Saved_at t, sent)"
    and "ui_SortBy u \<in> {''name'', ''client_updated_at''}" and "nl_widgets (ui_list u1) \<noteq> []"
  shows "tu_editor u1 = Some (hd (nl_widgets (ui_list u1)))"
proof -
  obtain x where "SortItems fs srt (DisplayStatus ''saved'' (change_item x u)) = Ok u1"
    using assms(1,2) by (auto simp: edit_in_tui_def synchronized_def Let_def split: prod.splits outcome.splits)
  then show ?thesis
    by (rule SortItems_shows_first) (use assms(3,4) in \<open>simp_all add: change_item_def\<close>)
qed

theorem saved_edit_shows_first_note_example:
  "\<exists>u1 w1. edit_in_tui toy_ciphers toy_codecs toy_fs insertion saving_http toy_client toy_keychain ''text''
       (titled ''i1'' ''T'') two_notes toy_world = (Ok u1, w1)
     \<and> tu_editor u1 = Some (titled ''i2'' ''A'')"
proof -
  obtain i1 w1 where run: "synchronizer toy_ciphers toy_codecs toy_fs saving_http toy_client toy_keychain toy_item [] toy_world
      = (Ok (Saved_at (ct_UpdatedAt i1), Some i1), w1)"
    and i1: "ct_ID i1 = ''i1''" "ct_Note i1 = Some toy_note" by (rule toy_synchronized)
  let ?v = "fst (SetUpdatedAtNow toy_fs [] toy_world)" and ?A = "titled ''i2'' ''A''"
  have fst_e: "fst (titled ''i1'' ''T'') = toy_item" "snd (titled ''i1'' ''T'') = []"
    by (simp_all add: titled_def toy_item_def toy_note_def)
  have same: "toy_item\<lparr>ct_Note := Some ((note_of toy_item)\<lparr>nt_Text := ''text''\<rparr>)\<rparr> = toy_item"
    by (simp add: toy_item_def note_of_def toy_note_def)
  have edit: "edit_note toy_ciphers toy_codecs toy_fs saving_http toy_client toy_keychain ''text'' toy_item [] toy_world
      = (Ok (Saved_at (ct_UpdatedAt i1), Some i1), w1)"
    unfolding edit_note_def same run by simp
  have list: "nl_widgets (ui_list (change_item (i1, ?v) two_notes)) = [?A, (i1, ?v)]"
    by (simp add: change_item_def changed_entry_def two_notes_def titled_def i1)
  have less: "title_less ?A (i1, ?v)" unfolding title_less_def titled_def note_of_def i1 fst_conv by code_simp
  have "\<not> title_less (i1, ?v) ?A" unfolding title_less_def titled_def note_of_def i1 fst_conv by code_simp
  then have sorted: "insertion title_less [?A, (i1, ?v)] = [?A, (i1, ?v)]" by (simp add: insertion_def)
  obtain u1 where u1: "SortItems toy_fs insertion (DisplayStatus ''saved'' (change_item (i1, ?v) two_notes)) = Ok u1"
    and widgets: "nl_widgets (ui_list u1) = [?A, (i1, ?v)]"
    using list sorted by (simp add: SortItems_def note_list_Sort_def hack_shows_first change_item_def two_notes_def)
  have all: "edit_in_tui toy_ciphers toy_codecs toy_fs insertion saving_http toy_client toy_keychain ''text''
      (titled ''i1'' ''T'') two_notes toy_world = (Ok u1, w1)"
    using u1 by (simp add: edit_in_tui_def fst_e edit synchronized_def)
  have "fst (edit_note toy_ciphers toy_codecs toy_fs saving_http toy_client toy_keychain ''text''
      (fst (titled ''i1'' ''T'')) (snd (titled ''i1'' ''T'')) toy_world) = Ok (Saved_at (ct_UpdatedAt i1), Some i1)"
    by (simp add: fst_e edit)
  from saved_edit_shows_first_note [OF all this] widgets all show ?thesis by (auto simp: two_notes_def)
qed

end
