(* ===== verification/Note_Edits.thy ===== *)
theory Note_Edits
  imports Note_Properties
begin

text \<open>
  The editors of the notes while the interface runs: \<^verbatim>\<open>NewItem\<close> of \<^verbatim>\<open>internal/client/tui/item.go\<close> and the event loop
  of \<^verbatim>\<open>tui.go\<close>. A change of the text restarts a timer of half a second; when it runs out the callback takes the
  text of the editor into the note and synchronises it, on a goroutine of its own. The library \<^verbatim>\<open>debounce\<close> does as
  it says: of the calls that follow one another within the delay only the last one is made.
\<close>

subsection \<open>The running application\<close>

text \<open>\<open>ap_text\<close> is the text of each note's editor, \<open>ap_due\<close> when its pending callback runs, by the ID of the note.\<close>

record ('j, 'n) app =
  ap_tui :: "'j tui"
  ap_text :: "string \<Rightarrow> string"
  ap_due :: "string \<Rightarrow> time option"
  ap_world :: "'n world"
  ap_running :: bool

text \<open>The instants are those at which the events happen; a key is one no widget handles.\<close>

datatype app_event =
    Typed string string time
  | Fires string time
  | Input bool int
  | Key "string option"

definition debounce_delay :: duration where "debounce_delay = 500 * 1000000"

definition entry_of :: "string \<Rightarrow> 'j tui \<Rightarrow> 'j entry option" where
  "entry_of i u = List.find (\<lambda>e. ct_ID (fst e) = i) (nl_widgets (ui_list u))"

text \<open>Each editor starts with the text of its note.\<close>

definition app_start :: "'j tui \<Rightarrow> 'n world \<Rightarrow> ('j, 'n) app" where
  "app_start u w =
     \<lparr>ap_tui = u, ap_text = (\<lambda>i. case entry_of i u of Some e \<Rightarrow> nt_Text (note_of (fst e)) | None \<Rightarrow> []),
      ap_due = (\<lambda>i. None), ap_world = w, ap_running = True\<rparr>"

text \<open>A panic of the callback, which nobody recovers, ends the application, as the key to quit does.\<close>

definition callback ::
  "ciphers \<Rightarrow> note_codecs \<Rightarrow> 'j note_lib \<Rightarrow> (('j entry \<Rightarrow> 'j entry \<Rightarrow> bool) \<Rightarrow> 'j entry list \<Rightarrow> 'j entry list)
   \<Rightarrow> 'n http_lib \<Rightarrow> client \<Rightarrow> keychain \<Rightarrow> 'j entry \<Rightarrow> ('j, 'n) app \<Rightarrow> ('j, 'n) app" where
  "callback ci js fs srt ht c k e a =
     (case edit_in_tui ci js fs srt ht c k (ap_text a (ct_ID (fst e))) e (ap_tui a) (ap_world a) of
        (Ok u, w) \<Rightarrow> a\<lparr>ap_tui := u, ap_world := w\<rparr>
      | (_, w) \<Rightarrow> a\<lparr>ap_world := w, ap_running := False\<rparr>)"

fun app_step ::
  "ciphers \<Rightarrow> note_codecs \<Rightarrow> 'j note_lib \<Rightarrow> (('j entry \<Rightarrow> 'j entry \<Rightarrow> bool) \<Rightarrow> 'j entry list \<Rightarrow> 'j entry list)
   \<Rightarrow> 'n http_lib \<Rightarrow> client \<Rightarrow> keychain \<Rightarrow> app_event \<Rightarrow> ('j, 'n) app \<Rightarrow> ('j, 'n) app" where
  "app_step ci js fs srt ht c k (Typed i txt now) a =
     (if ap_running a
      then a\<lparr>ap_text := (ap_text a)(i := txt), ap_due := (ap_due a)(i \<mapsto> now + debounce_delay)\<rparr> else a)"
| "app_step ci js fs srt ht c k (Fires i now) a =
     (case (ap_due a i, entry_of i (ap_tui a)) of
        (Some due, Some e) \<Rightarrow>
          (if ap_running a \<and> due \<le> now
           then callback ci js fs srt ht c k e (a\<lparr>ap_due := (ap_due a)(i := None)\<rparr>) else a)
      | _ \<Rightarrow> a)"
| "app_step ci js fs srt ht c k (Input hover pos) a =
     (if ap_running a then a\<lparr>ap_tui := NoteList_UserInput hover pos (ap_tui a)\<rparr> else a)"
| "app_step ci js fs srt ht c k (Key ev) a =
     (if ap_running a \<and> snd (unhandled ev) then a\<lparr>ap_running := False\<rparr> else a)"

definition app_run ::
  "ciphers \<Rightarrow> note_codecs \<Rightarrow> 'j note_lib \<Rightarrow> (('j entry \<Rightarrow> 'j entry \<Rightarrow> bool) \<Rightarrow> 'j entry list \<Rightarrow> 'j entry list)
   \<Rightarrow> 'n http_lib \<Rightarrow> client \<Rightarrow> keychain \<Rightarrow> app_event list \<Rightarrow> ('j, 'n) app \<Rightarrow> ('j, 'n) app" where
  "app_run ci js fs srt ht c k evs a = fold (app_step ci js fs srt ht c k) evs a"

subsection \<open>What the notes have of their editors\<close>

lemma SaveRaw_Text [simp]: "nt_Text (SaveRaw fs v n) = nt_Text n"
  by (simp add: SaveRaw_def)

lemma note_of_Some [simp]: "note_of (i\<lparr>ct_Note := Some n\<rparr>) = n"
  by (simp add: note_of_def)

text \<open>What is sent, saved or not, is the item with the text of the editor.\<close>

lemma Item_Seal_note:
  assumes "Item_Seal ci js k i w = (Ok i1, w1)"
  shows "ct_ID i1 = ct_ID i \<and> note_of i1 = note_of i"
  using assms by (rule Item_Seal_OkE) (simp add: note_of_def)

lemma synchronizer_note:
  assumes "synchronizer ci js fs ht c k i v w = (Ok (r, Some i2), w1)"
  shows "ct_ID i2 = ct_ID i \<and> nt_Text (note_of i2) = nt_Text (note_of i)"
proof -
  let ?v = "fst (SetUpdatedAtNow fs v w)"
  let ?i = "i\<lparr>ct_Note := Some (SaveRaw fs ?v (note_of i))\<rparr>"
  obtain out w2 where seal: "Item_Seal ci js k ?i (snd (SetUpdatedAtNow fs v w)) = (out, w2)" by force
  then have "out = Ok i2"
    using assms by (cases out)
      (auto simp: synchronizer_def split_beta Let_def split: if_splits list.splits option.splits)
  then show ?thesis using Item_Seal_note seal by fastforce
qed

lemma edit_note_text:
  assumes "edit_note ci js fs ht c k txt i v w = (Ok (r, Some i2), w1)"
  shows "ct_ID i2 = ct_ID i \<and> nt_Text (note_of i2) = txt"
  using assms
  by (auto simp: edit_note_def note_of_def dest!: synchronizer_note split: prod.splits outcome.splits synced.splits option.splits)

lemma edit_in_tui_text:
  assumes "edit_in_tui ci js fs srt ht c k txt e u w = (Ok u1, w1)"
  obtains i v r where "synchronized fs srt r (change_item (i, v) u) = Ok u1" "ct_ID i = ct_ID (fst e)"
    "nt_Text (note_of i) = txt"
  using assms
  by (auto simp: edit_in_tui_def Let_def dest: edit_note_text split: prod.splits outcome.splits option.splits)

lemma synchronized_set:
  assumes "\<And>less xs. mset (srt less xs) = mset xs" and "synchronized fs srt r u = Ok u1"
  shows "set (nl_widgets (ui_list u1)) = set (nl_widgets (ui_list u))"
proof (cases r)
  case (Saved_at t)
  obtain b l where s: "note_list_Sort fs srt (ui_SortBy u) (ui_list u) = (b, l)" by force
  have "nl_widgets (ui_list u1) = nl_widgets l"
    using assms(2) Saved_at s
    by (auto simp: synchronized_def SortItems_def hackToDisplayFirstNote_def ItemAt_def Let_def split: if_splits option.splits)
  then show ?thesis using note_list_Sort_set [OF assms(1) s] by simp
qed (use assms(2) in \<open>auto simp: synchronized_def\<close>)

definition texts_ok :: "('j, 'n) app \<Rightarrow> bool" where
  "texts_ok a \<longleftrightarrow> (ap_running a \<longrightarrow>
     (\<forall>e \<in> set (nl_widgets (ui_list (ap_tui a))).
        ap_due a (ct_ID (fst e)) = None \<longrightarrow> nt_Text (note_of (fst e)) = ap_text a (ct_ID (fst e))))"

lemma entry_of_Some: "entry_of i u = Some e \<Longrightarrow> e \<in> set (nl_widgets (ui_list u)) \<and> ct_ID (fst e) = i"
  by (auto simp: entry_of_def find_Some_iff)

lemma callback_texts:
  assumes srt: "\<And>less xs. mset (srt less xs) = mset xs"
    and others: "\<And>x. ap_running a \<Longrightarrow> x \<in> set (nl_widgets (ui_list (ap_tui a))) \<Longrightarrow> ct_ID (fst x) \<noteq> ct_ID (fst e) \<Longrightarrow>
      ap_due a (ct_ID (fst x)) = None \<Longrightarrow> nt_Text (note_of (fst x)) = ap_text a (ct_ID (fst x))"
  shows "texts_ok (callback ci js fs srt ht c k e a)"
proof -
  obtain out w where run: "edit_in_tui ci js fs srt ht c k (ap_text a (ct_ID (fst e))) e (ap_tui a) (ap_world a) = (out, w)"
    by force
  show ?thesis
  proof (cases out)
    case (Ok u)
    obtain i v r where "synchronized fs srt r (change_item (i, v) (ap_tui a)) = Ok u" "ct_ID i = ct_ID (fst e)"
        "nt_Text (note_of i) = ap_text a (ct_ID (fst e))"
      using run [unfolded Ok] by (rule edit_in_tui_text)
    moreover from this have "set (nl_widgets (ui_list u)) = changed_entry (i, v) ` set (nl_widgets (ui_list (ap_tui a)))"
      using synchronized_set [OF srt] by (simp add: change_item_def)
    ultimately show ?thesis using others run Ok by (auto simp: texts_ok_def callback_def changed_entry_def)
  qed (use run in \<open>simp_all add: texts_ok_def callback_def\<close>)
qed

lemma app_step_texts:
  assumes srt: "\<And>less xs. mset (srt less xs) = mset xs" and ok: "texts_ok a"
  shows "texts_ok (app_step ci js fs srt ht c k ev a)"
proof (cases ev)
  case (Typed i new now)
  then show ?thesis using ok by (simp add: texts_ok_def)
next
  case (Fires i now)
  show ?thesis
  proof (cases "ap_running a \<and> (\<exists>d e. ap_due a i = Some d \<and> entry_of i (ap_tui a) = Some e \<and> d \<le> now)")
    case True
    then obtain d e where de: "ap_running a" "ap_due a i = Some d" "entry_of i (ap_tui a) = Some e" "d \<le> now" by blast
    have "texts_ok (callback ci js fs srt ht c k e (a\<lparr>ap_due := (ap_due a)(i := None)\<rparr>))"
      by (rule callback_texts [OF srt]) (use ok entry_of_Some [OF de(3)] in \<open>auto simp: texts_ok_def\<close>)
    then show ?thesis using de Fires by simp
  next
    case False
    then have "app_step ci js fs srt ht c k ev a = a" using Fires by (auto split: option.splits)
    then show ?thesis using ok by simp
  qed
next
  case (Input hover pos)
  have "nl_widgets (ui_list (NoteList_UserInput hover pos u)) = nl_widgets (ui_list u)" for u :: "'a tui"
    by (auto simp: NoteList_UserInput_def SetFocus_def Let_def split: option.splits)
  then show ?thesis using ok Input by (simp add: texts_ok_def)
next
  case (Key k)
  then show ?thesis using ok by (simp add: texts_ok_def)
qed

lemma app_run_texts:
  assumes srt: "\<And>less xs. mset (srt less xs) = mset xs"
  shows "texts_ok a \<Longrightarrow> texts_ok (app_run ci js fs srt ht c k evs a)"
  unfolding app_run_def by (induction evs arbitrary: a) (simp_all add: app_step_texts [OF srt])

lemma app_start_texts:
  assumes "distinct (map (\<lambda>e. ct_ID (fst e)) (nl_widgets (ui_list u)))"
  shows "texts_ok (app_start u w)"
proof -
  have "entry_of (ct_ID (fst e)) u = Some e" if "e \<in> set (nl_widgets (ui_list u))" for e
  proof -
    have "entry_of (ct_ID (fst e)) u \<noteq> None" using that unfolding entry_of_def find_None_iff by blast
    then obtain x where x: "entry_of (ct_ID (fst e)) u = Some x" by blast
    then show ?thesis using entry_of_Some [OF x] that assms by (auto simp: distinct_map dest: inj_onD)
  qed
  then show ?thesis by (simp add: texts_ok_def app_start_def)
qed

text \<open>After the key to quit nothing happens any more: a text typed within the last half second is in no note.\<close>

lemma app_step_stopped: "\<not> ap_running a \<Longrightarrow> app_step ci js fs srt ht c k ev a = a"
  by (cases ev) (auto split: option.splits)

lemma app_run_stopped: "\<not> ap_running a \<Longrightarrow> app_run ci js fs srt ht c k evs a = a"
  unfolding app_run_def by (induction evs) (auto simp: app_step_stopped)

lemma quit_loses_pending_edit:
  assumes "ap_running a"
  shows "app_run ci js fs srt ht c k (Typed i txt now # Key (Some ''Ctrl+Q'') # evs) a
    = a\<lparr>ap_text := (ap_text a)(i := txt), ap_due := (ap_due a)(i \<mapsto> now + debounce_delay), ap_running := False\<rparr>"
proof -
  let ?a = "a\<lparr>ap_text := (ap_text a)(i := txt), ap_due := (ap_due a)(i \<mapsto> now + debounce_delay), ap_running := False\<rparr>"
  have "app_run ci js fs srt ht c k (Typed i txt now # Key (Some ''Ctrl+Q'') # evs) a = app_run ci js fs srt ht c k evs ?a"
    using assms by (simp add: app_run_def unhandled_def)
  then show ?thesis using app_run_stopped [of ?a] by simp
qed

subsection \<open>Properties\<close>

text \<open>
  C37. While the interface runs, no edit is forgotten: whatever was typed into the editors of whatever notes,
  whichever timers ran out, and whatever other input there was, a note whose editor has no callback pending has the
  text of its editor. (The text of a note that is pending, typed at most half a second ago, is lost when the
  application quits: \<open>quit_loses_pending_edit\<close>.)
\<close>

theorem idle_editors_are_synchronized:
  assumes "\<And>less xs. mset (srt less xs) = mset xs" and "distinct (map (\<lambda>e. ct_ID (fst e)) (nl_widgets (ui_list u)))"
    and "a = app_run ci js fs srt ht c k evs (app_start u w)" and "ap_running a"
    and "e \<in> set (nl_widgets (ui_list (ap_tui a)))" and "ap_due a (ct_ID (fst e)) = None"
  shows "nt_Text (note_of (fst e)) = ap_text a (ct_ID (fst e))"
proof -
  have "texts_ok a" unfolding assms(3) by (rule app_run_texts [OF assms(1) app_start_texts [OF assms(2)]])
  then show ?thesis using assms(4-6) by (simp add: texts_ok_def)
qed

theorem idle_editors_are_synchronized_witness:
  "\<exists>a. a = app_run toy_ciphers toy_codecs toy_fs insertion saving_http toy_client toy_keychain
         [Typed ''i1'' ''text'' 0, Fires ''i1'' debounce_delay] (app_start two_notes toy_world)
     \<and> ap_running a \<and> (\<forall>e \<in> set (nl_widgets (ui_list (ap_tui a))). ct_ID (fst e) = ''i1'' \<longrightarrow> nt_Text (note_of (fst e)) = ''text'')"
proof -
  let ?run = "app_run toy_ciphers toy_codecs toy_fs insertion saving_http toy_client toy_keychain
      [Typed ''i1'' ''text'' 0, Fires ''i1'' debounce_delay] (app_start two_notes toy_world)"
  obtain u1 w1 where edit: "edit_in_tui toy_ciphers toy_codecs toy_fs insertion saving_http toy_client toy_keychain ''text''
      (titled ''i1'' ''T'') two_notes toy_world = (Ok u1, w1)"
    using saved_edit_shows_first_note_example by blast
  have entry: "entry_of ''i1'' two_notes = Some (titled ''i1'' ''T'')" "ct_ID (fst (titled ''i1'' ''T'')) = ''i1''"
    by (simp_all add: entry_of_def two_notes_def titled_def toy_item_def)
  have run: "ap_running ?run \<and> ap_due ?run ''i1'' = None \<and> ap_text ?run ''i1'' = ''text''"
    using edit entry by (simp add: app_run_def app_start_def callback_def)
  have distinct: "distinct (map (\<lambda>e. ct_ID (fst e)) (nl_widgets (ui_list two_notes)))"
    by (simp add: two_notes_def titled_def)
  show ?thesis
    using idle_editors_are_synchronized [OF mset_insertion distinct refl] run by fastforce
qed

end
