(* ===== verification/Note_Editor.thy ===== *)
theory Note_Editor
  imports Prelude
begin

text \<open>
  The editor of a note in \<^verbatim>\<open>internal/client/tui/item.go\<close>: an edit widget with a scroll bar. Clicks on the bar are
  counted and carried out by the next rendering, which then moves the cursor back into the visible lines. The
  widgets belong to the gowid library; \<open>'e\<close> is the edit widget, and what the library draws is left out.
\<close>

record item_editor =
  ie_goUpDown :: int
  ie_pgUpDown :: int
  ie_bar :: "int \<times> int \<times> int"

definition newItemEditor :: item_editor where
  "newItemEditor = \<lparr>ie_goUpDown = 0, ie_pgUpDown = 0, ie_bar = (0, 0, 0)\<rparr>"

datatype scroll_click = ClickAbove | ClickBelow | ClickUpArrow | ClickDownArrow

fun clicked :: "scroll_click \<Rightarrow> item_editor \<Rightarrow> item_editor" where
  "clicked ClickAbove w = w\<lparr>ie_pgUpDown := ie_pgUpDown w - 1\<rparr>"
| "clicked ClickBelow w = w\<lparr>ie_pgUpDown := ie_pgUpDown w + 1\<rparr>"
| "clicked ClickUpArrow w = w\<lparr>ie_goUpDown := ie_goUpDown w - 1\<rparr>"
| "clicked ClickDownArrow w = w\<lparr>ie_goUpDown := ie_goUpDown w + 1\<rparr>"

text \<open>Keys, as far as the editor tells them apart, and the events that are no keys.\<close>

datatype input_event = KeyHome | KeyEnd | KeyCtrlA | KeyCtrlE | OtherKey string | NoKey string

fun remapped :: "input_event \<Rightarrow> input_event" where
  "remapped KeyHome = KeyCtrlA"
| "remapped KeyEnd = KeyCtrlE"
| "remapped ev = ev"

text \<open>
  Boxes are columns and rows. \<open>ew_CursorLine columns\<close> is the line of the cursor in the layout of the text, and
  \<open>ew_UserInput\<close> what the two widgets do with an event: whether they handled it, and the clicks on the bar.
\<close>

record 'e edit_lib =
  ew_LinesFromTop :: "'e \<Rightarrow> int"
  ew_SetLinesFromTop :: "int \<Rightarrow> 'e \<Rightarrow> 'e"
  ew_CursorLine :: "int \<Rightarrow> 'e \<Rightarrow> int"
  ew_DownLines :: "int \<times> int \<Rightarrow> 'e \<Rightarrow> 'e"
  ew_UpLines :: "int \<times> int \<Rightarrow> 'e \<Rightarrow> 'e"
  ew_TopMiddleBottom :: "int \<times> int \<Rightarrow> 'e \<Rightarrow> int \<times> int \<times> int"
  ew_UserInput :: "input_event \<Rightarrow> int \<times> int \<Rightarrow> 'e \<Rightarrow> bool \<times> scroll_click list \<times> 'e"
  ew_FocusEdit :: "'e \<Rightarrow> 'e"

definition editor_UserInput ::
  "'e edit_lib \<Rightarrow> input_event \<Rightarrow> int \<times> int \<Rightarrow> item_editor \<times> 'e \<Rightarrow> bool \<times> item_editor \<times> 'e" where
  "editor_UserInput ew ev box we =
     (let (w, e) = we;
          w1 = w\<lparr>ie_bar := ew_TopMiddleBottom ew (fst box - 1, snd box) e\<rparr>;
          (handled, clicks, e1) = ew_UserInput ew (remapped ev) box e
      in (handled, fold clicked clicks w1, if handled then ew_FocusEdit ew e1 else e1))"

text \<open>
  The first loop of \<open>Render\<close> reads its bound from the widget again in every round, so its end is up to the
  widget; the bound of the second is fixed.
\<close>

partial_function (option) follow_down :: "'e edit_lib \<Rightarrow> int \<times> int \<Rightarrow> int \<Rightarrow> 'e \<Rightarrow> 'e option" where
  "follow_down ew ebox i e =
     (if i < ew_LinesFromTop ew e then follow_down ew ebox (i + 1) (ew_DownLines ew ebox e) else Some e)"

definition follow_up :: "'e edit_lib \<Rightarrow> int \<times> int \<Rightarrow> int \<Rightarrow> int \<Rightarrow> 'e \<Rightarrow> 'e" where
  "follow_up ew ebox i y e = (ew_UpLines ew ebox ^^ nat (y + 1 - i)) e"

definition scrolled :: "'e edit_lib \<Rightarrow> int \<times> int \<Rightarrow> item_editor \<Rightarrow> 'e \<Rightarrow> 'e option" where
  "scrolled ew ebox w e =
     (if ie_goUpDown w \<noteq> 0 \<or> ie_pgUpDown w \<noteq> 0
      then let e1 = ew_SetLinesFromTop ew (max 0 (ew_LinesFromTop ew e + ie_goUpDown w + ie_pgUpDown w * snd ebox)) e;
               y = ew_CursorLine ew (fst ebox) e1;
               bottom = ew_LinesFromTop ew e1 + snd ebox
           in if y < ew_LinesFromTop ew e1 then follow_down ew ebox y e1
              else if bottom \<le> y then Some (follow_up ew ebox bottom y e1)
              else Some e1
      else Some e)"

definition editor_Render :: "'e edit_lib \<Rightarrow> int \<times> int \<Rightarrow> item_editor \<times> 'e \<Rightarrow> (item_editor \<times> 'e) option" where
  "editor_Render ew box we =
     (let (w, e) = we; ebox = (fst box - 1, snd box)
      in map_option (\<lambda>e1. (w\<lparr>ie_goUpDown := 0, ie_pgUpDown := 0, ie_bar := ew_TopMiddleBottom ew ebox e1\<rparr>, e1))
           (scrolled ew ebox w e))"

subsection \<open>Rendering ends, with the cursor in view\<close>

text \<open>
  What the editor relies on: the first line shown is the one that was set, and moving the cursor by a line
  changes its line by one, up to the \<open>final\<close> line of the text, and not the first line shown.
\<close>

definition scrolls :: "'e edit_lib \<Rightarrow> int \<times> int \<Rightarrow> ('e \<Rightarrow> int) \<Rightarrow> bool" where
  "scrolls ew ebox final \<longleftrightarrow>
     (\<forall>e n. 0 \<le> n \<longrightarrow> ew_LinesFromTop ew (ew_SetLinesFromTop ew n e) = n \<and> final (ew_SetLinesFromTop ew n e) = final e)
     \<and> (\<forall>e. ew_LinesFromTop ew (ew_DownLines ew ebox e) = ew_LinesFromTop ew e
          \<and> final (ew_DownLines ew ebox e) = final e
          \<and> ew_CursorLine ew (fst ebox) (ew_DownLines ew ebox e) = min (final e) (ew_CursorLine ew (fst ebox) e + 1))
     \<and> (\<forall>e. ew_LinesFromTop ew (ew_UpLines ew ebox e) = ew_LinesFromTop ew e
          \<and> ew_CursorLine ew (fst ebox) (ew_UpLines ew ebox e) = max 0 (ew_CursorLine ew (fst ebox) e - 1))"

lemma follow_down_ends:
  assumes "scrolls ew ebox final" and "ew_CursorLine ew (fst ebox) e = i" and "i \<le> ew_LinesFromTop ew e"
    and "ew_LinesFromTop ew e \<le> final e"
  shows "\<exists>e1. follow_down ew ebox i e = Some e1 \<and> ew_LinesFromTop ew e1 = ew_LinesFromTop ew e
    \<and> ew_CursorLine ew (fst ebox) e1 = ew_LinesFromTop ew e"
  using assms(2-4)
proof (induction "nat (ew_LinesFromTop ew e - i)" arbitrary: i e)
  case 0
  then have "\<not> i < ew_LinesFromTop ew e" by simp
  then show ?case using 0 by (subst follow_down.simps) simp
next
  case (Suc n)
  let ?e = "ew_DownLines ew ebox e"
  have less: "i < ew_LinesFromTop ew e" using Suc.hyps(2) by simp
  have d: "ew_LinesFromTop ew ?e = ew_LinesFromTop ew e" "final ?e = final e"
      "ew_CursorLine ew (fst ebox) ?e = min (final e) (i + 1)"
    using assms(1) Suc.prems(1) by (simp_all add: scrolls_def)
  have "\<exists>e1. follow_down ew ebox (i + 1) ?e = Some e1 \<and> ew_LinesFromTop ew e1 = ew_LinesFromTop ew ?e
      \<and> ew_CursorLine ew (fst ebox) e1 = ew_LinesFromTop ew ?e"
    by (rule Suc.hyps(1)) (use Suc.hyps(2) Suc.prems less d in auto)
  then show ?case using less d(1) by (subst follow_down.simps) simp
qed

lemma up_lines:
  assumes "scrolls ew ebox final" and "int n \<le> ew_CursorLine ew (fst ebox) e"
  shows "ew_LinesFromTop ew ((ew_UpLines ew ebox ^^ n) e) = ew_LinesFromTop ew e
    \<and> ew_CursorLine ew (fst ebox) ((ew_UpLines ew ebox ^^ n) e) = ew_CursorLine ew (fst ebox) e - int n"
  using assms(2)
proof (induction n)
  case (Suc n)
  then show ?case using assms(1) by (simp add: scrolls_def)
qed simp

text \<open>
  Rendering after clicks ends, forgets the clicks, shows the text from the line they ask for, and has the cursor in
  one of the lines shown, if the text reaches that far.
\<close>

theorem render_follows_clicks:
  assumes "scrolls ew (cols - 1, rows) final" and "0 < rows"
    and "first = max 0 (ew_LinesFromTop ew e + ie_goUpDown w + ie_pgUpDown w * rows)"
    and "ie_goUpDown w \<noteq> 0 \<or> ie_pgUpDown w \<noteq> 0" and "first \<le> final e"
  shows "\<exists>w1 e1. editor_Render ew (cols, rows) (w, e) = Some (w1, e1) \<and> ie_goUpDown w1 = 0 \<and> ie_pgUpDown w1 = 0
    \<and> ew_LinesFromTop ew e1 = first \<and> ew_CursorLine ew (cols - 1) e1 \<in> {first..<first + rows}"
proof -
  let ?b = "(cols - 1, rows)" and ?e = "ew_SetLinesFromTop ew first e"
  let ?y = "ew_CursorLine ew (cols - 1) ?e"
  have set: "ew_LinesFromTop ew ?e = first" "final ?e = final e" "0 \<le> first"
    using assms(1,3) by (simp_all add: scrolls_def)
  have sc: "scrolled ew ?b w e = (if ?y < first then follow_down ew ?b ?y ?e
      else if first + rows \<le> ?y then Some (follow_up ew ?b (first + rows) ?y ?e) else Some ?e)"
    using assms(4) set(1) by (simp add: scrolled_def Let_def assms(3) [symmetric])
  have "\<exists>e1. scrolled ew ?b w e = Some e1 \<and> ew_LinesFromTop ew e1 = first
      \<and> ew_CursorLine ew (cols - 1) e1 \<in> {first..<first + rows}"
  proof -
    consider (above) "?y < first" | (below) "first + rows \<le> ?y" | (inside) "first \<le> ?y" "?y < first + rows" by linarith
    then show ?thesis
    proof cases
      case above
      then have "scrolled ew ?b w e = follow_down ew ?b ?y ?e"
        using sc by simp
      then show ?thesis using follow_down_ends [OF assms(1), of ?e ?y] above set assms(2,5) by auto
    next
      case below
      then have "scrolled ew ?b w e = Some (follow_up ew ?b (first + rows) ?y ?e)"
        using sc assms(2) by simp
      then show ?thesis using up_lines [OF assms(1), of "nat (?y + 1 - (first + rows))" ?e] below set assms(2)
        by (simp add: follow_up_def)
    next
      case inside
      then have "scrolled ew ?b w e = Some ?e" using sc by simp
      then show ?thesis using inside set by simp
    qed
  qed
  then show ?thesis by (auto simp: editor_Render_def)
qed

text \<open>A widget that is the first line shown and the line of the cursor of a text with ten lines.\<close>

definition ten_lines :: "(int \<times> int) edit_lib" where
  "ten_lines =
     \<lparr>ew_LinesFromTop = fst, ew_SetLinesFromTop = (\<lambda>n e. (n, snd e)), ew_CursorLine = (\<lambda>c. snd),
      ew_DownLines = (\<lambda>b e. (fst e, min 9 (snd e + 1))), ew_UpLines = (\<lambda>b e. (fst e, max 0 (snd e - 1))),
      ew_TopMiddleBottom = (\<lambda>b e. (fst e, snd b, 10 - fst e - snd b)),
      ew_UserInput = (\<lambda>ev b e. (True, [ClickBelow, ClickUpArrow], e)), ew_FocusEdit = (\<lambda>e. e)\<rparr>"

theorem render_follows_clicks_witness:
  "\<exists>w1 e1. editor_Render ten_lines (20, 3) (snd (editor_UserInput ten_lines KeyHome (20, 3) (newItemEditor, (2, 2))))
     = Some (w1, e1) \<and> fst e1 = 4 \<and> snd e1 \<in> {4..<7}"
proof -
  let ?w = "fst (snd (editor_UserInput ten_lines KeyHome (20, 3) (newItemEditor, (2, 2))))"
  have w: "ie_goUpDown ?w = - 1" "ie_pgUpDown ?w = 1"
    by (simp_all add: editor_UserInput_def ten_lines_def newItemEditor_def)
  have e: "snd (snd (editor_UserInput ten_lines KeyHome (20, 3) (newItemEditor, (2, 2)))) = (2, 2)"
    by (simp add: editor_UserInput_def ten_lines_def)
  have "scrolls ten_lines (19, 3) (\<lambda>e. 9)" by (auto simp: scrolls_def ten_lines_def)
  then have "\<exists>w1 e1. editor_Render ten_lines (20, 3) (?w, (2, 2)) = Some (w1, e1) \<and> ie_goUpDown w1 = 0 \<and> ie_pgUpDown w1 = 0
      \<and> ew_LinesFromTop ten_lines e1 = 4 \<and> ew_CursorLine ten_lines (20 - 1) e1 \<in> {4..<4 + 3}"
    by (intro render_follows_clicks [where final = "\<lambda>e. 9"]) (simp_all add: w, simp add: ten_lines_def)
  moreover have "(?w, (2, 2)) = snd (editor_UserInput ten_lines KeyHome (20, 3) (newItemEditor, (2, 2)))"
    using e by (metis prod.collapse)
  ultimately show ?thesis by (auto simp: ten_lines_def)
qed

end
