(* ===== verification/Example_Client.thy ===== *)
theory Example_Client
  imports Client_Properties Note_Command
begin

text \<open>
  \<^verbatim>\<open>.examples/libsf/main.go\<close>, the program that shows how the client library is used: it logs in, reads all
  items, and sends the last note again with a changed title and text. \<^verbatim>\<open>log.Fatal\<close> is an error here; what is
  printed is left out.
\<close>

text \<open>The first loop; the items are changed in place.\<close>

fun example_keys ::
  "ciphers \<Rightarrow> note_codecs \<Rightarrow> keychain \<Rightarrow> citem option list \<Rightarrow> (err, citem option list \<times> keychain) outcome" where
  "example_keys ci js k [] = Ok ([], k)"
| "example_keys ci js k (None # is) = Panic ''nil pointer dereference''"
| "example_keys ci js k (Some i # is) =
     (if ct_ContentType i \<noteq> ContentTypeItemsKey
      then obind (example_keys ci js k is) (\<lambda>(xs, k1). Ok (Some i # xs, k1))
      else obind (Item_Unseal ci js k i) (\<lambda>(i1, k1).
           obind (example_keys ci js k1 is) (\<lambda>(xs, k2). Ok (Some i1 # xs, k2))))"

definition example_parse :: "'j note_lib \<Rightarrow> citem \<Rightarrow> (err, 'j) outcome" where
  "example_parse fs i =
     (case ct_Note i of
        None \<Rightarrow> Panic ''nil pointer dereference''
      | Some n \<Rightarrow> (case ParseRaw fs n of Inl e \<Rightarrow> Err e | Inr v \<Rightarrow> Ok v))"

text \<open>
  The second loop, from index \<open>n\<close> on: every item with its parsed application data, if it was parsed, and the
  index of the last note.
\<close>

fun example_notes ::
  "ciphers \<Rightarrow> note_codecs \<Rightarrow> 'j note_lib \<Rightarrow> keychain \<Rightarrow> nat \<Rightarrow> nat \<Rightarrow> citem option list
   \<Rightarrow> (err, (citem option \<times> 'j option) list \<times> nat \<times> keychain) outcome" where
  "example_notes ci js fs k n latest [] = Ok ([], latest, k)"
| "example_notes ci js fs k n latest (None # is) = Panic ''nil pointer dereference''"
| "example_notes ci js fs k n latest (Some i # is) =
     (if ct_ContentType i = ContentTypeUserPreferences \<or> ct_ContentType i = ContentTypeNote
      then obind (Item_Unseal ci js k i) (\<lambda>(i1, k1).
           obind (example_parse fs i1) (\<lambda>v.
           obind (example_notes ci js fs k1 (Suc n) (if ct_ContentType i = ContentTypeNote then n else latest) is) (\<lambda>(xs, l, k2).
             Ok ((Some i1, Some v) # xs, l, k2))))
      else obind (example_notes ci js fs k (Suc n) latest is) (\<lambda>(xs, l, k2). Ok ((Some i, None) # xs, l, k2)))"

text \<open>The change of the item at the index, up to sealing it.\<close>

definition changed_note :: "Note \<Rightarrow> Note" where
  "changed_note n = n\<lparr>nt_Title := nt_Title n @ '' updated'', nt_Text := nt_Text n @ '' updated''\<rparr>"

definition example_edit ::
  "ciphers \<Rightarrow> note_codecs \<Rightarrow> 'j note_lib \<Rightarrow> keychain \<Rightarrow> (citem option \<times> 'j option) list \<Rightarrow> nat \<Rightarrow> 'n world
   \<Rightarrow> (err, citem) outcome \<times> 'n world" where
  "example_edit ci js fs k items latest w =
     (if length items \<le> latest then (Panic ''index out of range'', w)
      else case items ! latest of
             (Some i, Some v) \<Rightarrow>
               (case ct_Note i of
                  None \<Rightarrow> (Panic ''nil pointer dereference'', w)
                | Some n \<Rightarrow>
                    (let (v1, w1) = SetUpdatedAtNow fs v w
                     in Item_Seal ci js k (i\<lparr>ct_Note := Some (SaveRaw fs v1 (changed_note n))\<rparr>) w1))
           | _ \<Rightarrow> (Panic ''nil pointer dereference'', w))"

text \<open>The result has the item that was sent.\<close>

definition example_update ::
  "ciphers \<Rightarrow> note_codecs \<Rightarrow> 'j note_lib \<Rightarrow> 'n http_lib \<Rightarrow> client \<Rightarrow> keychain \<Rightarrow> 'n world
   \<Rightarrow> (err, citem) outcome \<times> 'n world" where
  "example_update ci js fs ht c k w =
     (case SyncItems ht c NewSyncItems w of
        (_, Some e, w1) \<Rightarrow> (Err e, w1)
      | (items, None, w1) \<Rightarrow>
     (case obind (example_keys ci js k (si_Retrieved items)) (\<lambda>(xs, k1). example_notes ci js fs k1 0 0 xs) of
        Err e \<Rightarrow> (Err e, w1)
      | Panic x \<Rightarrow> (Panic x, w1)
      | Ok (notes, latest, k2) \<Rightarrow>
     (case example_edit ci js fs k2 notes latest w1 of
        (Err e, w2) \<Rightarrow> (Err e, w2)
      | (Panic x, w2) \<Rightarrow> (Panic x, w2)
      | (Ok i, w2) \<Rightarrow>
     (case SyncItems ht c (NewSyncItems\<lparr>si_Items := [Some i]\<rparr>) w2 of
        (_, Some e, w3) \<Rightarrow> (Err e, w3)
      | (answer, None, w3) \<Rightarrow>
          (if si_Conflicts answer \<noteq> [] then (Err (ErrLib ''items conflict''), w3) else (Ok i, w3))))))"

definition example_main ::
  "ciphers \<Rightarrow> note_codecs \<Rightarrow> 'j note_lib \<Rightarrow> 'n http_lib \<Rightarrow> 'n world \<Rightarrow> (err, citem) outcome \<times> 'n world" where
  "example_main ci js fs ht w =
     (case NewDefaultClient ht ''https://notes.nas.lan'' of
        (_, Some e) \<Rightarrow> (Err e, w)
      | (c, None) \<Rightarrow>
     (case GetAuthParams ht c ''george.abitbol@nas.lan'' w of
        (Inl e, w1) \<Rightarrow> (Err e, w1)
      | (Inr a, w1) \<Rightarrow>
     (case IntegrityCheck a of
        Some e \<Rightarrow> (Err e, w1)
      | None \<Rightarrow>
          (let (k, w2) = SymmetricKeyPair ci a ''12345678'' w1
           in case client_Login ht (au_Identifier a) (kc_Password k) c w2 of
                (Some e, _, w3) \<Rightarrow> (Err e, w3)
              | (None, c1, w3) \<Rightarrow> example_update ci js fs ht c1 k w3))))"

subsection \<open>What it sends\<close>

lemma example_edit_sends:
  assumes "secrets ci (codecs.truncate js)" and "example_edit ci js fs k items latest w = (Ok i2, w1)"
    and js: "\<And>n b. js_MarshalNote js (Some n) = Inr b \<Longrightarrow> js_UnmarshalNote js b = (n, None)"
    and fresh: "\<And>i v. items ! latest = (Some i, v) \<Longrightarrow> ct_ContentType i = ContentTypeNote
      \<and> sealable (codecs.truncate js) i (ct_key i) \<and> sealable (codecs.truncate js) i (ct_content i)"
  shows "\<exists>i n v i3. latest < length items \<and> items ! latest = (Some i, Some v) \<and> ct_Note i = Some n
    \<and> Item_Unseal ci js k i2 = Ok (i3, k)
    \<and> ct_Note i3 = Some (SaveRaw fs (fst (SetUpdatedAtNow fs v w)) (changed_note n))"
proof -
  obtain i v where at: "latest < length items" "items ! latest = (Some i, Some v)"
    using assms(2) by (auto simp: example_edit_def split: if_splits prod.splits option.splits)
  obtain n where n: "ct_Note i = Some n"
    using assms(2) at by (auto simp: example_edit_def split: option.splits)
  let ?n = "SaveRaw fs (fst (SetUpdatedAtNow fs v w)) (changed_note n)"
  have seal: "Item_Seal ci js k (i\<lparr>ct_Note := Some ?n\<rparr>) (snd (SetUpdatedAtNow fs v w)) = (Ok i2, w1)"
    using assms(2) at n by (simp add: example_edit_def split_beta Let_def)
  have "sealable (codecs.truncate js) (i\<lparr>ct_Note := x\<rparr>) old \<longleftrightarrow> sealable (codecs.truncate js) i old" for x old
    by (simp add: sealable_def item_authdata_def cong: option.case_cong)
  then have "\<exists>i3. Item_Unseal ci js k i2 = Ok (i3, k) \<and> ct_Note i3 = Some ?n"
    using seal_unseal_note [OF assms(1) seal, of ?n] js fresh [OF at(2)] by simp
  then show ?thesis using at n by blast
qed

text \<open>
  An account without items stops the program: the index of the last note starts at 0, which is also what it is
  when there is no note.
\<close>

theorem example_needs_items:
  assumes "SyncItems ht c NewSyncItems w = (items, None, w1)" and "si_Retrieved items = []"
  shows "example_update ci js fs ht c k w = (Panic ''index out of range'', w1)"
  using assms by (simp add: example_update_def example_edit_def)

theorem example_needs_items_witness:
  "fst (example_update toy_ciphers toy_codecs fs toy_http c k (w :: unit world)) = Panic ''index out of range''"
proof -
  have sync: "SyncItems toy_http c NewSyncItems w = (NewSyncItems\<lparr>si_API := cl_apiversion c\<rparr>, None, w)"
    by (simp add: SyncItems_def send_def toy_http_def wrap_opt_def Let_def NewSyncItems_def)
  show ?thesis by (simp add: example_needs_items [OF sync] NewSyncItems_def)
qed

end
