(* ===== verification/End_To_End.thy ===== *)
theory End_To_End
  imports Note_Properties Sync_Properties
begin

text \<open>
  Client and server together. An item travels as the JSON object of \<^verbatim>\<open>libsf.Item\<close>
  (\<^verbatim>\<open>pkg/libsf/item.go\<close>), which the server reads into \<^verbatim>\<open>model.Item\<close> (\<^verbatim>\<open>internal/model/item.go\<close>) and
  answers in the same form: both types name the same nine fields, the others are not sent. A sealed
  note that the server has stored is read by any client with the same keychain, and a full synchronisation
  retrieves what was stored.
\<close>

subsection \<open>The item on the wire\<close>

definition item_sent :: "citem \<Rightarrow> item" where
  "item_sent i =
     \<lparr>ID = ct_ID i, CreatedAt = ct_CreatedAt i, UpdatedAt = ct_UpdatedAt i, it_UserID = ct_UserID i,
      it_ItemsKeyID = ct_ItemsKeyID i, it_Content = ct_Content i, it_ContentType = ct_ContentType i,
      it_EncryptedItemKey = ct_EncryptedItemKey i, it_Deleted = ct_Deleted i\<rparr>"

definition item_received :: "item \<Rightarrow> citem" where
  "item_received x =
     \<lparr>ct_ID = ID x, ct_CreatedAt = CreatedAt x, ct_UpdatedAt = UpdatedAt x, ct_UserID = it_UserID x,
      ct_Content = it_Content x, ct_ContentType = it_ContentType x, ct_ItemsKeyID = it_ItemsKeyID x,
      ct_EncryptedItemKey = it_EncryptedItemKey x, ct_Deleted = it_Deleted x, ct_Version = [],
      ct_AuthParams = None, ct_Note = None, ct_key = None, ct_content = None\<rparr>"

lemma item_sent_received: "item_sent (item_received x) = x"
  by (simp add: item_sent_def item_received_def)

lemma item_sent_fields [simp]:
  "ID (item_sent i) = ct_ID i" "it_Content (item_sent i) = ct_Content i"
  "it_ContentType (item_sent i) = ct_ContentType i" "it_ItemsKeyID (item_sent i) = ct_ItemsKeyID i"
  "it_EncryptedItemKey (item_sent i) = ct_EncryptedItemKey i" "it_Deleted (item_sent i) = ct_Deleted i"
  by (simp_all add: item_sent_def)

lemma item_received_ID [simp]: "ct_ID (item_received x) = ID x"
  by (simp add: item_received_def)

text \<open>What the other side needs to unseal an item: five of its fields.\<close>

definition same_secrets :: "citem \<Rightarrow> citem \<Rightarrow> bool" where
  "same_secrets i j \<longleftrightarrow>
     ct_ID j = ct_ID i \<and> ct_Content j = ct_Content i \<and> ct_ContentType j = ct_ContentType i
     \<and> ct_ItemsKeyID j = ct_ItemsKeyID i \<and> ct_EncryptedItemKey j = ct_EncryptedItemKey i"

lemma configured_fields [simp]:
  "ct_ID (vault_configure v i) = ct_ID i" "ct_Content (vault_configure v i) = ct_Content i"
  "ct_ContentType (vault_configure v i) = ct_ContentType i" "ct_ItemsKeyID (vault_configure v i) = ct_ItemsKeyID i"
  "ct_Version (vault_configure v i) = vault_version v"
  by (cases v; simp)+

lemma Item_Unseal_same_secrets:
  assumes "Item_Unseal ci js k i = Ok (i2, k2)" and "same_secrets i j"
    and "ct_ContentType i \<in> {ContentTypeNote, ContentTypeUserPreferences}"
  shows "\<exists>j2. Item_Unseal ci js k j = Ok (j2, k2) \<and> ct_Note j2 = ct_Note i2"
proof -
  have kc: "keyKeyChain k (vault_configure kv (j\<lparr>ct_key := Some kv\<rparr>))
      = keyKeyChain k (vault_configure kv (i\<lparr>ct_key := Some kv\<rparr>))" for kv
    by (rule keyKeyChain_cong) (use assms(2) in \<open>simp_all add: same_secrets_def\<close>)
  have ct: "ct_ContentType i \<noteq> ContentTypeItemsKey"
    using assms(3) by (auto simp: ContentTypeNote_def ContentTypeItemsKey_def ContentTypeUserPreferences_def)
  let ?js = "codecs.truncate js" and ?i = "\<lambda>kv. vault_configure kv (i\<lparr>ct_key := Some kv\<rparr>)"
  obtain kv ik cv payload n where "ct_EncryptedItemKey i \<noteq> []"
    and "parse_vault ?js (ct_EncryptedItemKey i) (ct_ID i) = Ok kv"
    and "vault_unseal ci (keyKeyChain k (?i kv)) kv = Ok ik" and "parse_vault ?js (ct_Content i) (ct_ID i) = Ok cv"
    and "vault_unseal ci (contentKeyChain (vault_version kv) ik) cv = Ok payload"
    and "js_UnmarshalNote js payload = (n, None)" and "ct_Note i2 = Some n" and "k2 = k"
    using assms(1,3) ct by (auto simp: Item_Unseal_def Let_def split_beta prod_eq_iff split: if_splits option.splits)
  then have "Item_Unseal ci js k j = Ok ((vault_configure kv (j\<lparr>ct_key := Some kv\<rparr>))
      \<lparr>ct_content := Some cv, ct_Note := Some n\<rparr>, k2)"
    using assms(2,3) ct by (auto simp: Item_Unseal_def same_secrets_def kc Let_def)
  then show ?thesis using \<open>ct_Note i2 = Some n\<close> by simp
qed

text \<open>The server stores an item with the secrets it was sent with.\<close>

lemma stored_same_secrets:
  assumes "ct_ID i \<noteq> []" and "\<not> ct_Deleted i"
  shows "same_secrets i (item_received (stamped (owned_item u (item_sent i)) w))"
  using assms by (simp add: same_secrets_def item_received_def ID_stamped owned_item_def)

subsection \<open>Saved and retrieved\<close>

lemma owned_item_type [simp]: "it_ContentType (owned_item u i) = it_ContentType i"
  by (simp add: owned_item_def prepareDelete_def Let_def)

text \<open>
  A full synchronisation asks for everything: no token of a former one, no items of its own, and no type
  but the one looked for.
\<close>

definition full_sync :: "string \<Rightarrow> sync_params \<Rightarrow> bool" where
  "full_sync ct q \<longleftrightarrow> sp_SyncToken q = [] \<and> sp_CursorToken q = [] \<and> sp_Items q = []
     \<and> sp_ContentType q \<in> {[], ct} \<and> sp_Limit q < int64_max"

context sync_env
begin

lemma saved_item_stored:
  assumes push: "Sync_Execute sha256 order S u p w = (Ok r, w1)" "distinct (map ID (sp_Items p))"
      "[] \<notin> ID ` set (sp_Items p)"
    and j: "j \<in> set (sp_Items p)" "ID j \<in> ID ` set (rp_saved (reply r))"
  shows "\<exists>w0 :: 'db world. stamped (owned_item u j) w0 \<in> v_items V (w_db w1)"
proof -
  obtain x where x: "x \<in> set (rp_saved (reply r))" "ID x = ID j" using j(2) by auto
  then obtain j' and w0 :: "'db world" where st: "x \<in> v_items V (w_db w1)" "j' \<in> set (sp_Items p)"
      "x = stamped (owned_item u j') w0"
    using reply_stored [OF push(1) _ push(2,3)] by blast
  have "ID j' \<noteq> []" using push(3) st(2) by (metis image_eqI)
  then have "ID j' = ID j" using x(2) st(3) by (simp add: ID_stamped)
  then have "j' = j" using push(2) st(2) j(1) by (auto simp: distinct_map dest: inj_onD)
  then show ?thesis using st(1,3) by blast
qed

lemma stored_item_retrieved:
  assumes "x \<in> v_items V (w_db w)" and "it_UserID x = ID u" and "\<not> it_Deleted x"
    and pull: "Sync_Execute sha256 order S u q w = (Ok r, w')" "full_sync (it_ContentType x) q"
  shows "x \<in> set (rp_retrieved (reply r))"
proof -
  have "sync_wanted u q w x"
    using pull(2) assms(2,3) by (auto simp: full_sync_def sync_wanted_def sync_window_def wanted_def IsZero_def)
  moreover have "effective_limit q = 0" using pull(2) by (simp add: effective_limit_def full_sync_def)
  ultimately show ?thesis using reply_everything [OF pull(1)] pull(2) assms(1) by (auto simp: full_sync_def)
qed

end

subsection \<open>A sealed note on the server\<close>

text \<open>The other assumptions are those of the round trip of sealing.\<close>

lemma stored_note_unseals:
  fixes w0 :: "'db world" and u :: user
  assumes "secrets ci (codecs.truncate js)"
    and "Item_Seal ci js k i wc = (Ok i1, wc1)" and "ct_Note i = Some n" and "ct_ContentType i = ContentTypeNote"
    and "sealable (codecs.truncate js) i (ct_key i)" and "sealable (codecs.truncate js) i (ct_content i)"
    and "\<And>b. js_MarshalNote js (Some n) = Inr b \<Longrightarrow> js_UnmarshalNote js b = (n, None)" and "\<not> ct_Deleted i"
    and "ct_ID i \<noteq> []"
  defines "x \<equiv> stamped (owned_item u (item_sent i1)) w0"
  shows "ID x = ct_ID i" and "it_UserID x = ID u" and "it_ContentType x = ContentTypeNote" and "\<not> it_Deleted x"
    and "\<exists>i2. Item_Unseal ci js k (item_received x) = Ok (i2, k) \<and> ct_Note i2 = Some n"
proof -
  have i1: "ct_ID i1 = ct_ID i" "ct_ContentType i1 = ContentTypeNote" "\<not> ct_Deleted i1"
    using assms(2,4,8) by (auto elim!: Item_Seal_OkE)
  then show "ID x = ct_ID i" using assms(9) by (simp add: x_def ID_stamped)
  show "it_UserID x = ID u" "it_ContentType x = ContentTypeNote" "\<not> it_Deleted x" using i1 by (simp_all add: x_def)
  obtain i2 where unseal: "Item_Unseal ci js k i1 = Ok (i2, k)" "ct_Note i2 = Some n"
    using seal_unseal_note [OF assms(1-3)] assms(4-7) by blast
  show "\<exists>i2. Item_Unseal ci js k (item_received x) = Ok (i2, k) \<and> ct_Note i2 = Some n"
    using Item_Unseal_same_secrets [OF unseal(1) stored_same_secrets, of u w0] i1 assms(9) unseal(2) by (simp add: x_def)
qed

end
