(* ===== verification/Client_Server.thy ===== *)
theory Client_Server
  imports End_To_End Server_Invariant Libsf_Client
begin

text \<open>
  The client of \<^verbatim>\<open>pkg/libsf/client.go\<close> and the server of \<^verbatim>\<open>internal/server\<close> at the two ends of HTTP. The
  first component of the client's world is the whole world of the server, and a request of the client is
  served by the routes and the middlewares of the server. HTTP itself, the router and the JSON library stay
  parameters: a request may get lost, or its answer, but what arrives is served. A call of the client's
  \<^verbatim>\<open>SyncItems\<close> comes down to at most one execution of the synchronisation service (\<open>SyncItems_cases\<close>).
\<close>

subsection \<open>The server behind HTTP\<close>

text \<open>
  \<open>wi_Find\<close> is the router on the registered routes, \<open>wi_NotFound\<close> its error when there is none;
  \<open>wi_Param\<close> and \<open>wi_Query\<close> read the path parameter and the email of a URL; \<open>wi_Status\<close> is the status line of a
  code and \<open>wi_Render\<close> the body of a response.
\<close>

record wire =
  wi_Find :: "route list \<Rightarrow> string \<Rightarrow> string \<Rightarrow> route option"
  wi_NotFound :: err
  wi_Param :: "string \<Rightarrow> string"
  wi_Query :: "string \<Rightarrow> string"
  wi_UserAgent :: string
  wi_Status :: "int \<Rightarrow> string"
  wi_Render :: "response \<Rightarrow> bytes"

fun response_status :: "response \<Rightarrow> int" where
  "response_status (R_JSON code _) = code"
| "response_status (R_NoContent code) = code"
| "response_status (R_Sync code _) = code"
| "response_status (R_String code _) = code"
| "response_status (R_HTML code _) = code"

text \<open>The request the server sees: a missing header is empty, a missing body has no length.\<close>

definition wire_request :: "wire \<Rightarrow> http_request \<Rightarrow> request" where
  "wire_request wi q =
     (let body = (case hq_Body q of None \<Rightarrow> [] | Some b \<Rightarrow> b)
      in \<lparr>rq_Method = hq_Method q, rq_Authorization = (case hq_Authorization q of None \<Rightarrow> [] | Some a \<Rightarrow> a),
          rq_UserAgent = wi_UserAgent wi, rq_ContentLength = int (length body),
          rq_ContentType = ''application/json'', rq_id = wi_Param wi (hq_URL q), rq_email = wi_Query wi (hq_URL q),
          rq_Body = body\<rparr>)"

text \<open>A handler that writes nothing leaves the default answer, an empty one with status 200.\<close>

definition wire_response :: "wire \<Rightarrow> response option \<Rightarrow> http_response" where
  "wire_response wi r =
     (case r of None \<Rightarrow> \<lparr>hs_StatusCode = 200, hs_Status = wi_Status wi 200, hs_Body = []\<rparr>
      | Some x \<Rightarrow> \<lparr>hs_StatusCode = response_status x, hs_Status = wi_Status wi (response_status x), hs_Body = wi_Render wi x\<rparr>)"

definition over_http :: "('db, 'v) server \<Rightarrow> wire \<Rightarrow> http_request \<Rightarrow> 'db world \<Rightarrow> http_response \<times> 'db world" where
  "over_http sv wi q w =
     (let (r, w1) = (case wi_Find wi (EchoEngine sv) (hq_Method q) (hq_URL q) of
                       None \<Rightarrow> HTTPErrorHandler (wi_NotFound wi) False w
                     | Some ro \<Rightarrow> serve sv ro (wire_request wi q) w)
      in (wire_response wi r, w1))"

text \<open>
  The transport: an answer is the server's; after a failure the server has served the request or has
  not seen it.
\<close>

definition transports :: "'db world http_lib \<Rightarrow> ('db, 'v) server \<Rightarrow> wire \<Rightarrow> bool" where
  "transports ht sv wi \<longleftrightarrow>
     (\<forall>q w. case ht_Do ht q w of
        (Inr res, w1) \<Rightarrow> over_http sv wi q w = (res, w1)
      | (Inl _, w1) \<Rightarrow> w1 = w \<or> w1 = snd (over_http sv wi q w))"

subsection \<open>A synchronisation as JSON\<close>

text \<open>
  What the server reads of the request (\<^verbatim>\<open>service.SyncParams\<close>): the two types name the same fields, and one
  that is left out because it is empty is read as empty.
\<close>

definition sync_sent :: "sync_items \<Rightarrow> sync_params" where
  "sync_sent q =
     \<lparr>pa_APIVersion = si_API q, pa_UserAgent = [], pa_Session = None, sp_ComputeIntegrity = si_ComputeIntegrity q,
      sp_Limit = si_Limit q, sp_SyncToken = si_SyncToken q, sp_CursorToken = si_CursorToken q,
      sp_ContentType = si_ContentType q, sp_Items = map item_sent (List.map_filter (\<lambda>i. i) (si_Items q))\<rparr>"

definition no_citem :: citem where
  "no_citem = \<lparr>ct_ID = [], ct_CreatedAt = None, ct_UpdatedAt = None, ct_UserID = [], ct_Content = [],
     ct_ContentType = [], ct_ItemsKeyID = [], ct_EncryptedItemKey = [], ct_Deleted = False, ct_Version = [],
     ct_AuthParams = None, ct_Note = None, ct_key = None, ct_content = None\<rparr>"

definition unsaved_received :: "unsaved_item \<Rightarrow> citem \<times> string \<times> string" where
  "unsaved_received x = (item_received (ui_Item x), ui_Message x, ui_Tag x)"

definition conflict_received :: "conflict_item \<Rightarrow> citem \<times> citem \<times> string" where
  "conflict_received x =
     (let item = (\<lambda>i. case i of None \<Rightarrow> no_citem | Some y \<Rightarrow> item_received y)
      in (item (ci_UnsavedItem x), item (ci_ServerItem x), ci_Type x))"

text \<open>
  What the client has after decoding the reply into its request: the lists and the tokens of the reply. The
  two versions of the service differ in the list of the items that were not saved; the other one stays as
  it was, as do the fields the reply does not name.
\<close>

fun sync_received :: "sync_result \<Rightarrow> sync_items \<Rightarrow> sync_items" where
  "sync_received (R16 r) q =
     q\<lparr>si_Retrieved := map (Some \<circ> item_received) (s16_Retrieved r), si_Saved := map (Some \<circ> item_received) (s16_Saved r),
       si_Unsaved := map (Some \<circ> unsaved_received) (s16_Unsaved r), si_SyncToken := s16_SyncToken r,
       si_CursorToken := s16_CursorToken r\<rparr>"
| "sync_received (R19 r) q =
     q\<lparr>si_Retrieved := map (Some \<circ> item_received) (s19_Retrieved r), si_Saved := map (Some \<circ> item_received) (s19_Saved r),
       si_Conflicts := map (Some \<circ> conflict_received) (s19_Conflicts r), si_SyncToken := s19_SyncToken r,
       si_CursorToken := s19_CursorToken r\<rparr>"

lemma sync_received_lists [simp]:
  "si_Retrieved (sync_received r q) = map (Some \<circ> item_received) (rp_retrieved (reply r))"
  "si_Saved (sync_received r q) = map (Some \<circ> item_received) (rp_saved (reply r))"
  "si_SyncToken (sync_received r q) = rp_SyncToken (reply r)"
  "si_CursorToken (sync_received r q) = rp_CursorToken (reply r)"
  by (cases r; simp add: reply_def reply16_def reply19_def)+

text \<open>The request \<^verbatim>\<open>SyncItems\<close> makes, and the route it is for.\<close>

definition sync_route :: route where
  "sync_route = restricted_route ''POST'' ''/items/sync'' E_Sync"

definition sync_http :: "client \<Rightarrow> string \<Rightarrow> bytes \<Rightarrow> http_request" where
  "sync_http c u b =
     \<lparr>hq_Method = ''POST'', hq_URL = u, hq_Body = Some b, hq_Authorization = Some (''Bearer '' @ cl_bearer c)\<rparr>"

text \<open>
  An exchange is carried when the router finds the route, the server decodes what the client has encoded, and
  the client decodes the reply that it gets. The client's lists have no nil and its lists for the reply are
  empty. The laws are about this one exchange: JSON carries the strings that are valid UTF-8.
\<close>

definition exchange_carried ::
  "'db world http_lib \<Rightarrow> ('db, 'v) server \<Rightarrow> wire \<Rightarrow> client \<Rightarrow> sync_items \<Rightarrow> string \<Rightarrow> bytes \<Rightarrow> 'db world \<Rightarrow> bool" where
  "exchange_carried ht sv wi c q u b w \<longleftrightarrow>
     ht_URL ht (cl_endpoint c) ''/items/sync'' [] = Inr u \<and> wi_Find wi (EchoEngine sv) ''POST'' u = Some sync_route
     \<and> ht_MarshalSync ht q = Inr b \<and> b \<noteq> []
     \<and> de_Sync (sv_Decode sv) (wire_request wi (sync_http c u b)) ''application/json'' = Inr (sync_sent q)
     \<and> (\<forall>r w1. serve sv sync_route (wire_request wi (sync_http c u b)) w = (Some (R_Sync 200 r), w1) \<longrightarrow>
          ht_DecodeSync ht (wi_Render wi (R_Sync 200 r)) q = (sync_received r q, None))"

subsection \<open>Answers and failures\<close>

text \<open>
  No failure is answered with a status of success: the errors of the middleware and of the service are the
  wrapped ones of the storage, or name their status.
\<close>

fun fails :: "err \<Rightarrow> bool" where
  "fails (HTTPError code _ _) = (400 \<le> code)"
| "fails (SFError code _ _) = (400 \<le> code)"
| "fails _ = True"

definition refuses :: "(err, response) outcome \<Rightarrow> bool" where
  "refuses out = (case out of Ok r \<Rightarrow> 400 \<le> response_status r | Err e \<Rightarrow> fails e | Panic m \<Rightarrow> True)"

lemma refuses_simps [simp]:
  "refuses (Ok r) \<longleftrightarrow> 400 \<le> response_status r" "refuses (Err e) \<longleftrightarrow> fails e" "refuses (Panic m)"
  by (simp_all add: refuses_def)

lemma HTTPErrorHandler_fails:
  "fails e \<Longrightarrow> \<exists>r w'. HTTPErrorHandler e False w = (Some r, w') \<and> 400 \<le> response_status r"
  by (cases e) (simp_all add: HTTPErrorHandler_def internal_error_def NewV4_def)

lemma serve_refuses:
  assumes "run_route sv ro rq w = (out, w1)" and "refuses out" and "\<And>m. fails (sv_Recover sv m)"
  shows "\<exists>x w2. serve sv ro rq w = (Some x, w2) \<and> 400 \<le> response_status x"
proof (cases out)
  case (Err e)
  then show ?thesis using assms(1,2) HTTPErrorHandler_fails [of e w1] by (simp add: serve_def)
next
  case (Panic m)
  then show ?thesis using assms(1) HTTPErrorHandler_fails [OF assms(3), of m w1] by (simp add: serve_def)
qed (use assms in \<open>simp add: serve_def\<close>)

text \<open>A middleware refuses what it does not hand to its handler.\<close>

lemma fails_invalid_auth [simp]: "fails (invalid_auth m)"
  by (simp add: invalid_auth_def NewWithTagCode_def)

lemma Validate_fails: "Validate S m i token w = (Inl e, w') \<Longrightarrow> fails e"
  by (auto simp: Validate_def NewWithTagCode_def StatusExpiredAccessToken_def split: sum.splits prod.splits bool.splits
      if_splits)

lemma find_token_user_fails: "find_token_user S i w = Inl e \<Longrightarrow> fails e"
  by (auto simp: find_token_user_def split: sum.splits if_splits)

lemma UserFromToken_fails: "UserFromToken S m t w = (Err e, w') \<Longrightarrow> fails e"
  by (auto simp: UserFromToken_def manager_JWT_def manager_Paseto_def split: token.splits sum.splits option.splits
      claim.splits prod.splits if_splits dest: Validate_fails find_token_user_fails)

lemma unauthorized_status [simp]: "response_status unauthorized = 401"
  by (simp add: unauthorized_def)

lemma paseto_auth_refuses:
  "(\<And>c w. refuses (fst (handle c w))) \<Longrightarrow> refuses (fst (paseto_auth mw S m handle token c w))"
  by (auto simp: paseto_auth_def split: prod.splits option.splits sum.splits outcome.splits
      dest: Validate_fails UserFromToken_fails)

lemma jwt_auth_refuses:
  "(\<And>c w. refuses (fst (handle c w))) \<Longrightarrow> refuses (fst (jwt_auth mw S m handle authorization c w))"
  by (auto simp: jwt_auth_def split: prod.splits option.splits sum.splits outcome.splits dest: UserFromToken_fails)

lemma Session_middleware_refuses:
  "(\<And>c w. refuses (fst (handle c w))) \<Longrightarrow> refuses (fst (Session_middleware pm jm S m handle authorization c w))"
  by (simp add: Session_middleware_def Let_def paseto_auth_refuses jwt_auth_refuses)

text \<open>The user a request acts for, read off the middleware: it is what a handler behind it sees.\<close>

definition caller :: "('db, 'v) server \<Rightarrow> request \<Rightarrow> 'db world \<Rightarrow> string option" where
  "caller sv rq w =
     (case Session_middleware (sv_Paseto_mw sv) (sv_JWT_mw sv) (sv_Database sv) (sv_Sessions sv)
             (\<lambda>c w1. (case cx_User c of None \<Rightarrow> Panic [] | Some u \<Rightarrow> Ok (R_String 200 (ID u)), w1))
             (rq_Authorization rq) (request_ctx rq) w of
        (Ok (R_String _ i), _) \<Rightarrow> Some i
      | _ \<Rightarrow> None)"

subsection \<open>The service behind the route\<close>

lemma wrap_left_fails: "wrap_left m r = Inl e \<Longrightarrow> fails e"
  by (cases r) (auto simp: wrap_left_def)

lemma found_list_fails: "found_list m r = Inl e \<Longrightarrow> fails e"
  by (cases r) (auto simp: found_list_def split: if_splits)

lemma TimeFromToken_fails: "TimeFromToken t w = (Err e, w') \<Longrightarrow> fails e"
  by (auto simp: TimeFromToken_def Let_def split: option.splits if_splits list.splits prod.splits)

lemma sync_get_fails: "sync_get S u p w = (Err e, p', w') \<Longrightarrow> fails e"
  by (auto simp: sync_get_def FindItemsByParams_def Let_def dest: TimeFromToken_fails found_list_fails
      split: if_splits prod.splits outcome.splits sum.splits)

lemma cursor_token_fails: "cursor_token a l = Err e \<Longrightarrow> fails e"
  by (auto simp: cursor_token_def Let_def split: if_splits option.splits list.splits)

lemma sync_token_fails: "sync_token s w = (Err e, w') \<Longrightarrow> fails e"
  by (auto simp: sync_token_def Let_def split: if_splits option.splits list.splits prod.splits)

lemma respond_fails: "respond h S u p r ov sv del w = (Err e, w') \<Longrightarrow> fails e"
  by (auto simp: respond_def computeDataSignature_def FindItemsForIntegrityCheck_def
      dest: found_list_fails cursor_token_fails sync_token_fails
      split: if_splits prod.splits outcome.splits sum.splits option.splits)

lemma save19_item_no_Err: "save19_item S u i w \<noteq> (Err e, w')"
  by (auto simp: save19_item_def Let_def split: if_splits prod.splits sum.splits option.splits)

lemma save19_no_Err: "save19 S u is w \<noteq> (Err e, w')"
  by (induction "is" arbitrary: w e w') (auto simp: save19_item_no_Err split: prod.splits outcome.splits)

lemma Sync_Execute_fails: "Sync_Execute h order S u p w = (Err e, w') \<Longrightarrow> fails e"
proof (cases rule: Sync_ExecuteE, assumption)
  fix o16 assume "Execute16 h order S u p w = (o16, w')" and "Err e = map_outcome_value R16 o16"
  then have "Execute16 h order S u p w = (Err e, w')" by (cases o16) auto
  then show ?thesis
    by (auto simp: Execute16_def dest: sync_get_fails respond_fails split: prod.splits outcome.splits option.splits)
next
  fix o19 assume "Execute19 h S u p w = (o19, w')" and "Err e = map_outcome_value R19 o19"
  then have "Execute19 h S u p w = (Err e, w')" by (cases o19) auto
  then show ?thesis
    by (auto simp: Execute19_def save19_no_Err dest: sync_get_fails respond_fails split: prod.splits outcome.splits)
qed

lemma item_Sync_accepts:
  assumes "item_Sync h order S (Inr p) c w = (out, w')" and "cx_User c = Some u"
  obtains (answered) r where "Sync_Execute h order S u (in_context c p) w = (Ok r, w')" "out = Ok (R_Sync 200 r)"
    | (failed) o0 where "Sync_Execute h order S u (in_context c p) w = (o0, w')" "refuses out"
  using assms by (auto simp: item_Sync_def split: prod.splits outcome.splits dest: Sync_Execute_fails)

context serving
begin

text \<open>
  A request to the synchronisation route is refused without a trace in the storage, or it is one execution
  of the service for the user it acts for.
\<close>

lemma sync_route_cases:
  assumes run: "run_route sv sync_route rq w = (out, w')" and bound: "bind sv (de_Sync (sv_Decode sv)) rq = Inr p"
  obtains (refused) "refuses out" "w_db w' = w_db w"
    | (executed) c u w1 o0 where "w_db w1 = w_db w" "authorized sv V rq c w" "cx_User c = Some u"
        "caller sv rq w = Some (ID u)"
        "Sync_Execute (cr_SHA256 (sv_Crypto sv)) (sv_Order sv) (sv_Database sv) u (in_context c p) w1 = (o0, w')"
        "refuses out \<or> (\<exists>r. o0 = Ok r \<and> out = Ok (R_Sync 200 r))"
proof -
  let ?mw = "\<lambda>handle. Session_middleware (sv_Paseto_mw sv) (sv_JWT_mw sv) (sv_Database sv) (sv_Sessions sv)
      handle (rq_Authorization rq)"
  let ?handle = "item_Sync (cr_SHA256 (sv_Crypto sv)) (sv_Order sv) (sv_Database sv) (Inr p)"
  have run': "?mw ?handle (request_ctx rq) w = (out, w')"
    using run bound by (simp add: run_route_def sync_route_def restricted_route_def endpoint_handler_def Let_def)
  have "guards (authorized sv V rq) ?mw (request_ctx rq) w" by (rule Session_middleware_guards)
  then show thesis unfolding guards_def
  proof (elim disjE exE conjE)
    fix out0 w0 assume stop: "\<forall>handle. ?mw handle (request_ctx rq) w = (out0, w0)" and "w_db w0 = w_db w"
    moreover have "refuses (fst (?mw (\<lambda>c w. (Panic [], w)) (request_ctx rq) w))"
      by (rule Session_middleware_refuses) simp
    ultimately show thesis using refused run' by simp
  next
    fix c w1 assume db: "w_db w1 = w_db w" and auth: "authorized sv V rq c w"
      and pass: "\<forall>handle. ?mw handle (request_ctx rq) w = handle c w1"
    obtain u where u: "cx_User c = Some u" using auth by (auto simp: authenticated_def)
    have caller: "caller sv rq w = Some (ID u)" using pass u by (simp add: caller_def)
    have "?handle c w1 = (out, w')" using pass run' by metis
    then show thesis using u
      by (cases rule: item_Sync_accepts) (use executed [OF db auth u caller] in \<open>simp_all\<close>)
  qed
qed

end

subsection \<open>The client over the server\<close>

text \<open>
  What a call of \<^verbatim>\<open>SyncItems\<close> does on the other side: the route is served at most once, and when the call
  succeeds its result is the decoded answer, whose status is not one of an error.
\<close>

lemma over_http_sync:
  "wi_Find wi (EchoEngine sv) ''POST'' u = Some sync_route \<Longrightarrow>
   over_http sv wi (sync_http c u b) w
     = (let (r, w1) = serve sv sync_route (wire_request wi (sync_http c u b)) w in (wire_response wi r, w1))"
  by (simp add: over_http_def sync_http_def)

lemma SyncItems_served:
  assumes "transports ht sv wi" and "ht_URL ht (cl_endpoint c) ''/items/sync'' [] = Inr u"
    and "wi_Find wi (EchoEngine sv) ''POST'' u = Some sync_route"
    and "ht_MarshalSync ht (q\<lparr>si_API := cl_apiversion c\<rparr>) = Inr b" and "SyncItems ht c q w = (q2, e, w2)"
    and "serve sv sync_route (wire_request wi (sync_http c u b)) (w_db w) = (Some x, n)"
  shows "w_db w2 = w_db w \<or> w_db w2 = n"
    and "e = None \<Longrightarrow> w_db w2 = n \<and> response_status x < 400
      \<and> ht_DecodeSync ht (wi_Render wi x) (q\<lparr>si_API := cl_apiversion c\<rparr>) = (q2, None)"
proof -
  obtain r m where deliver: "ht_Do ht (sync_http c u b) (w_db w) = (r, m)" by force
  have http: "over_http sv wi (sync_http c u b) (w_db w)
      = (\<lparr>hs_StatusCode = response_status x, hs_Status = wi_Status wi (response_status x), hs_Body = wi_Render wi x\<rparr>, n)"
    using assms(6) over_http_sync [OF assms(3)] by (simp add: wire_response_def)
  have served: "case r of Inr res \<Rightarrow> res = \<lparr>hs_StatusCode = response_status x, hs_Status = wi_Status wi (response_status x), hs_Body = wi_Render wi x\<rparr> \<and> m = n
      | Inl _ \<Rightarrow> m = w_db w \<or> m = n"
    using assms(1) [unfolded transports_def, THEN spec [of _ "sync_http c u b"], THEN spec [of _ "w_db w"]] deliver http
    by (auto split: sum.splits)
  show "w_db w2 = w_db w \<or> w_db w2 = n"
    using assms(2,4,5) deliver [unfolded sync_http_def] served
    by (auto simp: SyncItems_def send_def Let_def split: sum.splits prod.splits if_splits)
  show "w_db w2 = n \<and> response_status x < 400
      \<and> ht_DecodeSync ht (wi_Render wi x) (q\<lparr>si_API := cl_apiversion c\<rparr>) = (q2, None)" if "e = None"
    using assms(2,4,5) deliver [unfolded sync_http_def] served that
    by (auto simp: SyncItems_def send_def wrap_opt_def Let_def split: sum.splits prod.splits if_splits)
qed

lemma exchange_bound:
  assumes "exchange_carried ht sv wi c q u b w"
  shows "bind sv (de_Sync (sv_Decode sv)) (wire_request wi (sync_http c u b)) = Inr (sync_sent q)"
  using assms by (simp add: exchange_carried_def bind_def Bind_def wire_request_def sync_http_def)

text \<open>One execution of the service by an authenticated user, on the storage as the request finds it.\<close>

definition executed ::
  "('db, 'v) server \<Rightarrow> 'db view \<Rightarrow> request \<Rightarrow> sync_params \<Rightarrow> 'db world \<Rightarrow> (err, sync_result) outcome \<Rightarrow> 'db world
   \<Rightarrow> bool" where
  "executed sv V rq p w out w' \<longleftrightarrow>
     (\<exists>c u w1. w_db w1 = w_db w \<and> authorized sv V rq c w \<and> cx_User c = Some u
        \<and> caller sv rq w = Some (ID u)
        \<and> Sync_Execute (cr_SHA256 (sv_Crypto sv)) (sv_Order sv) (sv_Database sv) u (in_context c p) w1 = (out, w'))"

context serving
begin

lemma serve_sync_cases:
  assumes bound: "bind sv (de_Sync (sv_Decode sv)) rq = Inr p" and recover: "\<And>m. fails (sv_Recover sv m)"
  obtains (refused) x w' where "serve sv sync_route rq w = (Some x, w')" "400 \<le> response_status x" "w_db w' = w_db w"
    | (failed) x w' out w2 where "serve sv sync_route rq w = (Some x, w')" "400 \<le> response_status x"
        "executed sv V rq p w out w2" "w_db w' = w_db w2"
    | (answered) r w' where "serve sv sync_route rq w = (Some (R_Sync 200 r), w')" "executed sv V rq p w (Ok r) w'"
proof -
  obtain x w' where sv: "serve sv sync_route rq w = (x, w')" by force
  obtain out w2 where run: "run_route sv sync_route rq w = (out, w2)" and db: "w_db w' = w_db w2"
    using sv by (rule serve_route)
  have fail: "\<exists>y. x = Some y \<and> 400 \<le> response_status y" if "refuses out"
    using serve_refuses [OF run that recover] sv by auto
  show thesis using run bound
  proof (cases rule: sync_route_cases)
    case refused
    then show thesis using that(1) fail sv db by auto
  next
    case (executed c u w1 o0)
    then have ex: "executed sv V rq p w o0 w2" by (auto simp: executed_def)
    show thesis
    proof (cases "refuses out")
      case True
      then show thesis using that(2) ex fail sv db by auto
    next
      case False
      then obtain r where "o0 = Ok r" "out = Ok (R_Sync 200 r)" using executed(6) by blast
      then show thesis using that(3) ex run by (simp add: serve_def)
    qed
  qed
qed

lemma SyncItems_cases:
  assumes tr: "transports ht sv wi" and ex: "exchange_carried ht sv wi c (q\<lparr>si_API := cl_apiversion c\<rparr>) u b (w_db w)"
    and recover: "\<And>m. fails (sv_Recover sv m)" and run: "SyncItems ht c q w = (q2, e, w2)"
  obtains (untouched) "e \<noteq> None" "w_db (w_db w2) = w_db (w_db w)"
    | (failed) out n where "e \<noteq> None" "w_db (w_db w2) = w_db n"
        "executed sv V (wire_request wi (sync_http c u b)) (sync_sent (q\<lparr>si_API := cl_apiversion c\<rparr>)) (w_db w) out n"
    | (synced) r where "q2 = sync_received r (q\<lparr>si_API := cl_apiversion c\<rparr>)"
        "executed sv V (wire_request wi (sync_http c u b)) (sync_sent (q\<lparr>si_API := cl_apiversion c\<rparr>)) (w_db w) (Ok r)
           (w_db w2)"
        "e = None"
proof -
  have carried: "ht_URL ht (cl_endpoint c) ''/items/sync'' [] = Inr u"
      "wi_Find wi (EchoEngine sv) ''POST'' u = Some sync_route"
      "ht_MarshalSync ht (q\<lparr>si_API := cl_apiversion c\<rparr>) = Inr b"
    using ex by (simp_all add: exchange_carried_def)
  note served = SyncItems_served [OF tr carried run]
  show thesis
  proof (cases rule: serve_sync_cases [OF exchange_bound [OF ex] recover, of "w_db w"])
    case (1 x w')
    have "e \<noteq> None" using served(2) [OF 1(1)] 1(2) by auto
    moreover have "w_db (w_db w2) = w_db (w_db w)" using served(1) [OF 1(1)] 1(3) by auto
    ultimately show thesis by (rule untouched)
  next
    case (2 x w' out n)
    have "e \<noteq> None" using served(2) [OF 2(1)] 2(2) by auto
    consider "w_db w2 = w_db w" | "w_db (w_db w2) = w_db n" using served(1) [OF 2(1)] 2(4) by auto
    then show thesis
    proof cases
      case 1
      show thesis by (rule untouched [OF \<open>e \<noteq> None\<close>]) (simp add: 1)
    qed (use failed \<open>e \<noteq> None\<close> 2(3) in blast)
  next
    case (3 r w')
    show thesis
    proof (cases e)
      case None
      have "ht_DecodeSync ht (wi_Render wi (R_Sync 200 r)) (q\<lparr>si_API := cl_apiversion c\<rparr>)
          = (sync_received r (q\<lparr>si_API := cl_apiversion c\<rparr>), None)"
        using ex 3(1) by (simp add: exchange_carried_def)
      then show thesis using served(2) [OF 3(1) None] 3(2) synced None by simp
    next
      case (Some x)
      then have "e \<noteq> None" by simp
      consider "w_db w2 = w_db w" | "w_db w2 = w'" using served(1) [OF 3(1)] by auto
      then show thesis
      proof cases
        case 1
        show thesis by (rule untouched [OF \<open>e \<noteq> None\<close>]) (simp add: 1)
      next
        case 2
        then show thesis using failed [OF \<open>e \<noteq> None\<close> _ 3(2)] by simp
      qed
    qed
  qed
qed


text \<open>What a synchronisation that succeeded has saved stays on the server, until it is pushed again.\<close>

lemma executed_saves:
  assumes "executed sv V rq (sync_sent q) w (Ok r) w'" and "item_sent i \<in> set (sp_Items (sync_sent q))"
    and "distinct (map ID (sp_Items (sync_sent q)))" and "[] \<notin> ID ` set (sp_Items (sync_sent q))"
    and "ct_ID i \<in> ID ` set (rp_saved (reply r))"
  obtains u and w0 :: "'db world" where "caller sv rq w = Some (ID u)"
    and "stamped (owned_item u (item_sent i)) w0 \<in> v_items V (w_db w')"
proof -
  obtain c u w1 where "caller sv rq w = Some (ID u)"
    and ex: "Sync_Execute (cr_SHA256 (sv_Crypto sv)) (sv_Order sv) (sv_Database sv) u (in_context c (sync_sent q)) w1
        = (Ok r, w')"
    using assms(1) by (auto simp: executed_def)
  then show thesis using saved_item_stored [OF ex, of "item_sent i"] assms(2-5) that by auto
qed

lemma executed_retrieves:
  assumes "executed sv V rq (sync_sent q) w (Ok r) w'" and "caller sv rq w = Some (it_UserID x)"
    and "x \<in> v_items V (w_db w)" and "\<not> it_Deleted x" and "full_sync (it_ContentType x) (sync_sent q)"
  shows "x \<in> set (rp_retrieved (reply r))"
proof -
  obtain c u w1 where "it_UserID x = ID u" "w_db w1 = w_db w"
    and ex: "Sync_Execute (cr_SHA256 (sv_Crypto sv)) (sv_Order sv) (sv_Database sv) u (in_context c (sync_sent q)) w1
        = (Ok r, w')"
    using assms(1,2) by (auto simp: executed_def)
  then show ?thesis using stored_item_retrieved [OF _ _ assms(4) ex] assms(3,5) by (simp add: full_sync_def in_context_def)
qed

lemma executed_accounts:
  assumes "executed sv V rq p w out w'" and ok: "accounts_ok V (w_db w)"
  shows "accounts_ok V (w_db w')"
proof -
  obtain c u w1 where db: "w_db w1 = w_db w" and auth: "authorized sv V rq c w" "cx_User c = Some u"
    and ex: "Sync_Execute (cr_SHA256 (sv_Crypto sv)) (sv_Order sv) (sv_Database sv) u (in_context c p) w1 = (out, w')"
    using assms(1) by (auto simp: executed_def)
  have "\<exists>r. item_Sync (cr_SHA256 (sv_Crypto sv)) (sv_Order sv) (sv_Database sv) (Inr p) c w1 = (r, w')"
    using ex auth(2) by (simp add: item_Sync_def split: outcome.splits)
  moreover have "known_user V c (w_db w1)" using auth db by (auto simp: authenticated_def known_user_def)
  ultimately show ?thesis using item_Sync_ok ok db by metis
qed

end

end
