(* ===== verification/Client_Server_Properties.thy ===== *)
theory Client_Server_Properties
  imports Client_Server Server_Properties Sync_Properties
begin

text \<open>
  The properties of a client and a server together, and two clients of a concrete server on the in-memory
  storage.
\<close>

subsection \<open>Example\<close>

text \<open>
  A transport that loses nothing between the server of the desk and clients with the empty end point. The tokens
  are JWTs of alice and bob, and three bodies are sent: alice's push of a note, her full synchronisation, and
  a push of bob's. An answer is a body that says whether items were saved.
\<close>

definition wired :: wire where
  "wired = \<lparr>wi_Find = (\<lambda>ros verb u. List.find (\<lambda>ro. ro_Method ro = verb \<and> ro_Path ro = u) ros),
     wi_NotFound = HTTPError 404 ''Not Found'' ''code=404, message=Not Found'', wi_Param = (\<lambda>u. []), wi_Query = (\<lambda>u. []),
     wi_UserAgent = [], wi_Status = itoa,
     wi_Render = (\<lambda>r. case r of R_Sync _ s \<Rightarrow> if rp_saved (reply s) = [] then ''retrieved'' else ''saved'' | _ \<Rightarrow> [])\<rparr>"

definition note_row :: "string \<Rightarrow> string \<Rightarrow> item" where
  "note_row c e =
     \<lparr>ID = ''i1'', CreatedAt = None, UpdatedAt = None, it_UserID = [], it_ItemsKeyID = ''ik'', it_Content = c,
      it_ContentType = ''Note'', it_EncryptedItemKey = e, it_Deleted = False\<rparr>"

definition wired_params :: "item list \<Rightarrow> sync_params" where
  "wired_params is =
     \<lparr>pa_APIVersion = ''20200115'', pa_UserAgent = [], pa_Session = None, sp_ComputeIntegrity = False, sp_Limit = 0,
      sp_SyncToken = [], sp_CursorToken = [], sp_ContentType = [], sp_Items = is\<rparr>"

definition wired_server :: "string \<Rightarrow> string \<Rightarrow> (memdb, string) server" where
  "wired_server c e = desk_server\<lparr>
     sv_JWT_mw := (\<lambda>now a. if a = ''Bearer alice'' then Inr [''user_uuid'' \<mapsto> CString ''alice'', ''iat'' \<mapsto> CFloat 60]
                       else if a = ''Bearer bob'' then Inr [''user_uuid'' \<mapsto> CString ''bob'', ''iat'' \<mapsto> CFloat 60]
                       else Inl (ErrLib ''bad token'')),
     sv_Decode := desk_decoders\<lparr>de_Sync := (\<lambda>rq ct.
       if rq_Body rq = ''push'' then Inr (wired_params [note_row c e])
       else if rq_Body rq = ''pull'' then Inr (wired_params [])
       else if rq_Body rq = ''bob'' then Inr (wired_params [example_item ''b1'' [] 40000000000])
       else Inl (ErrLib ''bad body''))\<rparr>\<rparr>"

definition wired_client :: "string \<Rightarrow> client" where
  "wired_client token = \<lparr>cl_apiversion = ''20200115'', cl_endpoint = [], cl_bearer = token, cl_session = zero_session\<rparr>"

definition wired_request :: "string \<Rightarrow> bytes \<Rightarrow> request" where
  "wired_request token body = wire_request wired (sync_http (wired_client token) ''/items/sync'' body)"

definition push_served :: "string \<Rightarrow> string \<Rightarrow> response option \<times> memdb world" where
  "push_served c e = serve (wired_server c e) sync_route (wired_request ''alice'' ''push'') desk_world"

definition bob_served :: "string \<Rightarrow> string \<Rightarrow> response option \<times> memdb world" where
  "bob_served c e = serve (wired_server c e) sync_route (wired_request ''bob'' ''bob'') (snd (push_served c e))"

definition pull_served :: "string \<Rightarrow> string \<Rightarrow> response option \<times> memdb world" where
  "pull_served c e = serve (wired_server c e) sync_route (wired_request ''alice'' ''pull'') (snd (bob_served c e))"

text \<open>The reply of an answered synchronisation.\<close>

definition synced :: "response option \<Rightarrow> sync_result" where
  "synced x = (case x of Some (R_Sync _ r) \<Rightarrow> r | _ \<Rightarrow> R16 \<lparr>s16_Retrieved = [], s16_Saved = [], s16_Unsaved = [],
     s16_SyncToken = [], s16_CursorToken = [], s16_IntegrityHash = []\<rparr>)"

definition wired_http :: "string \<Rightarrow> string \<Rightarrow> memdb world http_lib" where
  "wired_http c e =
     \<lparr>ht_Parse = (\<lambda>u. Inr ()), ht_URL = (\<lambda>u path q. Inr (u @ path)), ht_NewRequest = (\<lambda>m u. Inr ()),
      ht_Do = (\<lambda>q w. let (res, w1) = over_http (wired_server c e) wired q w in (Inr res, w1)),
      ht_MarshalMap = (\<lambda>m. Inr []), ht_MarshalSync = (\<lambda>q. Inr (if si_Items q = [] then ''pull'' else ''push'')),
      ht_DecodeSync = (\<lambda>b q. (sync_received (synced (fst (if b = ''saved'' then push_served c e else pull_served c e))) q, None)),
      ht_DecodeError = (\<lambda>b. Inr []), ht_DecodeAuth = (\<lambda>b. (toy_auth, None)),
      ht_DecodeLogin = (\<lambda>b. (([], zero_session), None)), ht_DecodeSession = (\<lambda>b. (zero_session, None))\<rparr>"

definition client_world :: "memdb world \<Rightarrow> memdb world world" where
  "client_world n = \<lparr>w_db = n, w_clock = int, w_ticks = 0, w_uuid = (\<lambda>n. []), w_uuids = 0, w_rand = (\<lambda>n. n), w_rands = 0,
     w_prng = (\<lambda>s n. n)\<rparr>"

interpretation wired: serving "wired_server c e" mem_view for c e
  by (simp add: serving_def sync_env_def sync_env_axioms_def wired_server_def desk_server_def mem_store)

lemma wired_transports: "transports (wired_http c e) (wired_server c e) wired"
  by (simp add: transports_def wired_http_def split_beta)

lemma wired_recovers: "fails (sv_Recover (wired_server c e) m)"
  by (simp add: wired_server_def desk_server_def)

lemma wired_finds: "wi_Find wired (EchoEngine (wired_server c e)) ''POST'' ''/items/sync'' = Some sync_route"
  by (simp add: wired_def EchoEngine_def open_route_def restricted_route_def sync_route_def wired_server_def desk_server_def)

lemma push_answered:
  "(case fst (push_served c e) of Some (R_Sync n r) \<Rightarrow> n = 200 \<and> map ID (rp_saved (reply r)) = [''i1''] | _ \<Rightarrow> False)"
  by code_simp

lemma pull_answered:
  "(case fst (pull_served c e) of Some (R_Sync n r) \<Rightarrow> n = 200 \<and> rp_saved (reply r) = [] | _ \<Rightarrow> False)"
  by code_simp

lemma push_serves:
  "serve (wired_server c e) sync_route (wired_request ''alice'' ''push'') desk_world
     = (Some (R_Sync 200 (synced (fst (push_served c e)))), snd (push_served c e))"
  and push_saves: "map ID (rp_saved (reply (synced (fst (push_served c e))))) = [''i1'']"
  using push_answered [of c e] unfolding push_served_def [symmetric]
  by (auto simp: synced_def prod_eq_iff split: option.splits response.splits)

lemma pull_serves:
  "serve (wired_server c e) sync_route (wired_request ''alice'' ''pull'') (snd (bob_served c e))
     = (Some (R_Sync 200 (synced (fst (pull_served c e)))), snd (pull_served c e))"
  and pull_saves: "rp_saved (reply (synced (fst (pull_served c e)))) = []"
  using pull_answered [of c e] unfolding pull_served_def [symmetric]
  by (auto simp: synced_def prod_eq_iff split: option.splits response.splits)

definition push_items :: "citem \<Rightarrow> sync_items" where
  "push_items i = NewSyncItems\<lparr>si_API := ''20200115'', si_Items := [Some i]\<rparr>"

definition pull_items :: sync_items where
  "pull_items = NewSyncItems\<lparr>si_API := ''20200115''\<rparr>"

lemma sync_items_sent:
  "sync_sent (push_items i) = wired_params [item_sent i]" "sync_sent pull_items = wired_params []"
  by (simp_all add: sync_sent_def push_items_def pull_items_def NewSyncItems_def wired_params_def List.map_filter_simps)

lemma wired_decodes:
  "de_Sync (sv_Decode (wired_server c e)) (wired_request token ''push'') ct = Inr (wired_params [note_row c e])"
  "de_Sync (sv_Decode (wired_server c e)) (wired_request token ''pull'') ct = Inr (wired_params [])"
  "de_Sync (sv_Decode (wired_server c e)) (wired_request token ''bob'') ct
     = Inr (wired_params [example_item ''b1'' [] 40000000000])"
  by (simp_all add: wired_server_def wired_request_def wire_request_def sync_http_def)

lemma push_carried:
  "item_sent i = note_row c e \<Longrightarrow>
   exchange_carried (wired_http c e) (wired_server c e) wired (wired_client ''alice'') (push_items i) ''/items/sync'' ''push''
     desk_world"
  using push_saves [of c e] wired_decodes [of c e] wired_finds [of c e]
  by (auto simp: exchange_carried_def wired_request_def [symmetric] sync_items_sent push_serves)
    (auto simp: wired_http_def wired_client_def push_items_def wired_def)

lemma pull_carried:
  "exchange_carried (wired_http c e) (wired_server c e) wired (wired_client ''alice'') pull_items ''/items/sync'' ''pull''
     (snd (bob_served c e))"
  using pull_saves [of c e] wired_decodes [of c e] wired_finds [of c e]
  by (auto simp: exchange_carried_def wired_request_def [symmetric] sync_items_sent pull_serves)
    (auto simp: wired_http_def wired_client_def pull_items_def NewSyncItems_def wired_def)

lemma wired_sync:
  assumes "exchange_carried (wired_http c e) (wired_server c e) wired (wired_client token) q ''/items/sync'' b n"
    and "serve (wired_server c e) sync_route (wired_request token b) n = (Some (R_Sync 200 r), n')"
    and "si_API q = ''20200115''"
  shows "SyncItems (wired_http c e) (wired_client token) q (client_world n) = (sync_received r q, None, client_world n')"
proof -
  have "q\<lparr>si_API := ''20200115''\<rparr> = q" using assms(3) by (cases q) simp
  moreover have "over_http (wired_server c e) wired (sync_http (wired_client token) ''/items/sync'' b) n
      = (\<lparr>hs_StatusCode = 200, hs_Status = wi_Status wired 200, hs_Body = wi_Render wired (R_Sync 200 r)\<rparr>, n')"
    using over_http_sync [OF wired_finds] assms(2) by (simp add: wired_request_def wire_response_def)
  ultimately show ?thesis
    using assms(1,2)
    by (auto simp: SyncItems_def send_def exchange_carried_def wired_request_def [symmetric] wrap_opt_def client_world_def Let_def)
      (auto simp: wired_http_def wired_client_def sync_http_def wrap_opt_def)
qed

lemmas push_runs = wired_sync [OF push_carried push_serves]
  and pull_runs = wired_sync [OF pull_carried pull_serves]

lemma wired_callers:
  "caller (wired_server c e) (wired_request ''alice'' ''push'') desk_world = Some ''alice''"
  "caller (wired_server c e) (wired_request ''alice'' ''pull'') (snd (bob_served c e)) = Some ''alice''"
  by code_simp+

subsection \<open>Properties\<close>

text \<open>
  C3. A call of the client's \<^verbatim>\<open>SyncItems\<close>, over a network that may lose the request or its answer and a
  server that recovers panics into errors, is at most one execution of the synchronisation service, with
  the items of the call and for the user that the client's bearer token authenticates. When the call gives no
  error, there was one, it succeeded, and the client has exactly the lists and tokens of its reply; when it
  gives one, the server's storage is as it was or as one execution leaves it.
\<close>

theorem client_sync_executes:
  fixes w :: "'db world world" and q c
  defines "q1 \<equiv> q\<lparr>si_API := cl_apiversion c\<rparr>"
  assumes "serving sv V" and "transports ht sv wi" and "exchange_carried ht sv wi c q1 u b (w_db w)"
    and "\<And>m. fails (sv_Recover sv m)" and "SyncItems ht c q w = (q2, e, w2)"
  shows "(e \<noteq> None \<and> w_db (w_db w2) = w_db (w_db w))
    \<or> (\<exists>out n. executed sv V (wire_request wi (sync_http c u b)) (sync_sent q1) (w_db w) out n
         \<and> w_db (w_db w2) = w_db n \<and> (e = None \<longrightarrow> (\<exists>r. out = Ok r \<and> q2 = sync_received r q1)))"
proof (rule serving.SyncItems_cases [OF assms(2,3) assms(4) [unfolded q1_def] assms(5,6)])
  fix r assume "q2 = sync_received r (q\<lparr>si_API := cl_apiversion c\<rparr>)"
    and "executed sv V (wire_request wi (sync_http c u b)) (sync_sent (q\<lparr>si_API := cl_apiversion c\<rparr>)) (w_db w) (Ok r)
      (w_db w2)"
  then show ?thesis unfolding q1_def by blast
qed (auto simp: q1_def)

theorem client_sync_executes_witness:
  "\<exists>r. fst (SyncItems (wired_http ''c'' ''k'') (wired_client ''alice'') (push_items (item_received (note_row ''c'' ''k'')))
           (client_world desk_world))
      = sync_received r (push_items (item_received (note_row ''c'' ''k'')))
    \<and> (\<exists>n. executed (wired_server ''c'' ''k'') mem_view (wired_request ''alice'' ''push'')
           (sync_sent (push_items (item_received (note_row ''c'' ''k'')))) desk_world (Ok r) n)"
proof -
  let ?q = "push_items (item_received (note_row ''c'' ''k''))"
  have q: "?q\<lparr>si_API := cl_apiversion (wired_client ''alice'')\<rparr> = ?q" by (simp add: push_items_def wired_client_def)
  have row: "item_sent (item_received (note_row ''c'' ''k'')) = note_row ''c'' ''k''" by (rule item_sent_received)
  note carried = push_carried [OF row]
  have run: "SyncItems (wired_http ''c'' ''k'') (wired_client ''alice'') ?q (client_world desk_world)
      = (sync_received (synced (fst (push_served ''c'' ''k''))) ?q, None, client_world (snd (push_served ''c'' ''k'')))"
    by (rule push_runs [OF row]) (simp add: push_items_def)
  have "exchange_carried (wired_http ''c'' ''k'') (wired_server ''c'' ''k'') wired (wired_client ''alice'')
      (?q\<lparr>si_API := cl_apiversion (wired_client ''alice'')\<rparr>) ''/items/sync'' ''push'' (w_db (client_world desk_world))"
    unfolding q using carried by (simp add: client_world_def)
  note client_sync_executes [OF wired.serving_axioms wired_transports this wired_recovers run, unfolded q]
  then obtain r n where "executed (wired_server ''c'' ''k'') mem_view (wired_request ''alice'' ''push'') (sync_sent ?q)
        (w_db (client_world desk_world)) (Ok r) n"
      and "sync_received (synced (fst (push_served ''c'' ''k''))) ?q = sync_received r ?q"
    unfolding wired_request_def by blast
  then show ?thesis unfolding run by (auto simp: client_world_def)
qed

text \<open>
  C2. A note that one client seals and synchronises is read by another through the server: when the first
  call of \<^verbatim>\<open>SyncItems\<close> reports the note as saved, then, whatever requests to whatever routes are served
  after it, as long as no synchronisation among them pushes the ID of the note, or an item without an ID, which gets
  a drawn one, a full synchronisation by a client that acts for the same user retrieves an item with this ID, and it
  unseals, with the same keychain, to the same note. (A push of the ID would overwrite the note or take it over.)
\<close>

theorem note_synced_over_http:
  fixes w w' :: "'db world world" and q q' c c'
  defines "q1 \<equiv> q\<lparr>si_API := cl_apiversion c\<rparr>" and "q1' \<equiv> q'\<lparr>si_API := cl_apiversion c'\<rparr>"
  assumes "serving sv V" and "transports ht sv wi" and "transports ht' sv wi" and "\<And>m. fails (sv_Recover sv m)"
    and "accounts_ok V (w_db (w_db w))"
    and "secrets ci (codecs.truncate js)" and "Item_Seal ci js k i ws = (Ok i1, ws1)" and "ct_Note i = Some n"
    and "ct_ContentType i = ContentTypeNote" and "sealable (codecs.truncate js) i (ct_key i)"
    and "sealable (codecs.truncate js) i (ct_content i)"
    and "\<And>b. js_MarshalNote js (Some n) = Inr b \<Longrightarrow> js_UnmarshalNote js b = (n, None)" and "\<not> ct_Deleted i"
    and push: "exchange_carried ht sv wi c q1 u b (w_db w)" "SyncItems ht c q w = (q2, None, w2)"
      "item_sent i1 \<in> set (sp_Items (sync_sent q1))" "distinct (map ID (sp_Items (sync_sent q1)))"
      "[] \<notin> ID ` set (sp_Items (sync_sent q1))" "\<exists>s. Some s \<in> set (si_Saved q2) \<and> ct_ID s = ct_ID i"
    and between: "server_run sv qs (w_db w2) (w_db w')"
      "\<forall>(ro, rq) \<in> set qs. ro_Endpoint ro = E_Sync \<longrightarrow> \<not> pushed (request_items sv rq) (item_sent i1)"
    and pull: "exchange_carried ht' sv wi c' q1' u' b' (w_db w')" "SyncItems ht' c' q' w' = (q2', None, w2')"
      "full_sync ContentTypeNote (sync_sent q1')"
      "caller sv (wire_request wi (sync_http c' u' b')) (w_db w') = caller sv (wire_request wi (sync_http c u b)) (w_db w)"
  shows "\<exists>x. Some x \<in> set (si_Retrieved q2') \<and> ct_ID x = ct_ID i
    \<and> (\<exists>i2. Item_Unseal ci js k x = Ok (i2, k) \<and> ct_Note i2 = Some n)"
proof -
  note sv = \<open>serving sv V\<close> and recover = \<open>\<And>m. fails (sv_Recover sv m)\<close>
  obtain r where q2: "q2 = sync_received r q1"
    and first: "executed sv V (wire_request wi (sync_http c u b)) (sync_sent q1) (w_db w) (Ok r) (w_db w2)"
    by (rule serving.SyncItems_cases [OF sv \<open>transports ht sv wi\<close> push(1) [unfolded q1_def] recover push(2)])
      (simp_all add: q1_def)
  obtain r' where q2': "q2' = sync_received r' q1'"
    and second: "executed sv V (wire_request wi (sync_http c' u' b')) (sync_sent q1') (w_db w') (Ok r') (w_db w2')"
    by (rule serving.SyncItems_cases [OF sv \<open>transports ht' sv wi\<close> pull(1) [unfolded q1'_def] recover pull(2)])
      (simp_all add: q1'_def)
  have i1: "ct_ID i1 = ct_ID i" using \<open>Item_Seal ci js k i ws = _\<close> by (auto elim!: Item_Seal_OkE)
  then have ne: "ct_ID i \<noteq> []" using push(3,5) by (metis image_eqI item_sent_fields(1))
  have "ct_ID i1 \<in> ID ` set (rp_saved (reply r))" using push(6) i1 by (force simp: q2)
  with serving.executed_saves [OF sv first push(3-5)] obtain x and u0 :: user and w0 :: "'db world"
    where caller: "caller sv (wire_request wi (sync_http c u b)) (w_db w) = Some (ID u0)"
      and x: "x = stamped (owned_item u0 (item_sent i1)) w0" "x \<in> v_items V (w_db (w_db w2))"
    by metis
  note note_x = stored_note_unseals [OF assms(8-15) ne, of u0 w0, folded x(1)]
  have "accounts_ok V (w_db (w_db w2))"
    using serving.executed_accounts [OF sv first] \<open>accounts_ok V (w_db (w_db w))\<close> .
  moreover have "\<forall>(ro, rq) \<in> set qs. ro_Endpoint ro = E_Sync \<longrightarrow> \<not> pushed (request_items sv rq) x"
    using between(2) note_x(1) i1 by (simp add: pushed_def)
  ultimately have "x \<in> v_items V (w_db (w_db w'))" using serving.server_run_keeps [OF sv between(1)] x(2) by blast
  then have "x \<in> set (rp_retrieved (reply r'))"
    using serving.executed_retrieves [OF sv second] caller pull(3,4) note_x(2-4) by simp
  then show ?thesis using note_x(1,5) by (intro exI [of _ "item_received x"]) (simp add: q2')
qed

theorem note_synced_over_http_witness:
  "\<exists>c e x. Some x \<in> set (si_Retrieved (fst (SyncItems (wired_http c e) (wired_client ''alice'') pull_items
          (client_world (snd (bob_served c e))))))
     \<and> (\<exists>i2. Item_Unseal toy_ciphers toy_codecs toy_keychain x = Ok (i2, toy_keychain) \<and> ct_Note i2 = Some toy_note)"
proof -
  let ?i = "the_Ok (fst toy_sealed)"
  let ?c = "ct_Content ?i" and ?e = "ct_EncryptedItemKey ?i"
  have row: "item_sent ?i = note_row ?c ?e"
    by (rule Item_Seal_OkE [OF toy_seals]) (simp add: item_sent_def note_row_def toy_item_def)
  have q: "(push_items ?i)\<lparr>si_API := cl_apiversion (wired_client ''alice'')\<rparr> = push_items ?i"
      "pull_items\<lparr>si_API := cl_apiversion (wired_client ''alice'')\<rparr> = pull_items"
    by (simp_all add: push_items_def pull_items_def wired_client_def)
  have push: "SyncItems (wired_http ?c ?e) (wired_client ''alice'') (push_items ?i) (client_world desk_world)
      = (sync_received (synced (fst (push_served ?c ?e))) (push_items ?i), None, client_world (snd (push_served ?c ?e)))"
    by (rule push_runs [OF row]) (simp add: push_items_def)
  have pull: "SyncItems (wired_http ?c ?e) (wired_client ''alice'') pull_items (client_world (snd (bob_served ?c ?e)))
      = (sync_received (synced (fst (pull_served ?c ?e))) pull_items, None, client_world (snd (pull_served ?c ?e)))"
    by (rule pull_runs) (simp add: pull_items_def)
  have id: "ct_ID ?i = ''i1''" using arg_cong [OF row, of ID] by (simp add: note_row_def)
  obtain x where x: "x \<in> set (rp_saved (reply (synced (fst (push_served ?c ?e)))))" "ID x = ''i1''"
    using push_saves [of ?c ?e] by auto
  have saved: "\<exists>s. Some s \<in> set (si_Saved (sync_received (synced (fst (push_served ?c ?e))) (push_items ?i)))
      \<and> ct_ID s = ct_ID toy_item"
    using x by (intro exI [of _ "item_received x"]) (simp add: toy_item_def)
  have run: "server_run (wired_server ?c ?e) [(sync_route, wired_request ''bob'' ''bob'')]
      (snd (push_served ?c ?e)) (snd (bob_served ?c ?e))"
  proof (rule server_run.server_serves [OF server_run.server_idle])
    show "sync_route \<in> set (EchoEngine (wired_server ?c ?e))"
      by (simp add: sync_route_def EchoEngine_def)
    show "serve (wired_server ?c ?e) sync_route (wired_request ''bob'' ''bob'') (snd (push_served ?c ?e))
        = (fst (bob_served ?c ?e), snd (bob_served ?c ?e))"
      by (simp add: bob_served_def)
  qed
  have others: "\<not> pushed (request_items (wired_server ?c ?e) (wired_request ''bob'' ''bob'')) (item_sent ?i)"
    using wired_decodes(3) [of ?c ?e "''bob''"]
    by (simp add: request_items_def bind_def Bind_def wired_request_def wire_request_def sync_http_def Let_def
        wired_params_def example_item_def id)
  have full: "full_sync ContentTypeNote (wired_params [])"
    by (simp add: full_sync_def wired_params_def int64_max_def)
  have "\<exists>x. Some x \<in> set (si_Retrieved (sync_received (synced (fst (pull_served ?c ?e))) pull_items)) \<and> ct_ID x = ct_ID toy_item
     \<and> (\<exists>i2. Item_Unseal toy_ciphers toy_codecs toy_keychain x = Ok (i2, toy_keychain) \<and> ct_Note i2 = Some toy_note)"
  proof (rule note_synced_over_http [OF wired.serving_axioms wired_transports wired_transports wired_recovers _
        toy.secrets_axioms toy_seals _ _ _ _ _ _ _ push _ _ _ saved _ _ _ pull])
    show "accounts_ok mem_view (w_db (w_db (client_world desk_world)))" using desk_accounts by (simp add: client_world_def)
    show "exchange_carried (wired_http ?c ?e) (wired_server ?c ?e) wired (wired_client ''alice'')
        ((push_items ?i)\<lparr>si_API := cl_apiversion (wired_client ''alice'')\<rparr>) ''/items/sync'' ''push''
        (w_db (client_world desk_world))"
      unfolding q using push_carried [OF row] by (simp add: client_world_def)
    show "exchange_carried (wired_http ?c ?e) (wired_server ?c ?e) wired (wired_client ''alice'')
        (pull_items\<lparr>si_API := cl_apiversion (wired_client ''alice'')\<rparr>) ''/items/sync'' ''pull''
        (w_db (client_world (snd (bob_served ?c ?e))))"
      unfolding q using pull_carried by (simp add: client_world_def)
    show "server_run (wired_server ?c ?e) [(sync_route, wired_request ''bob'' ''bob'')]
        (w_db (client_world (snd (push_served ?c ?e)))) (w_db (client_world (snd (bob_served ?c ?e))))"
      using run by (simp add: client_world_def)
    show "caller (wired_server ?c ?e) (wire_request wired (sync_http (wired_client ''alice'') ''/items/sync'' ''pull''))
          (w_db (client_world (snd (bob_served ?c ?e))))
        = caller (wired_server ?c ?e) (wire_request wired (sync_http (wired_client ''alice'') ''/items/sync'' ''push''))
          (w_db (client_world desk_world))"
      using wired_callers [of ?c ?e] by (simp add: wired_request_def client_world_def)
  qed (use others full id in \<open>simp_all add: q sync_items_sent wired_params_def, auto simp: toy_item_def ContentTypeNote_def
      sealable_def toy_codecs_def codecs.defs split: if_splits\<close>)
  then show ?thesis by (intro exI [of _ ?c] exI [of _ ?e], unfold pull fst_conv) blast
qed

end
