(* ===== verification/Stormsql.thy ===== *)
theory Stormsql
  imports Database
begin

text \<open>
  \<^verbatim>\<open>pkg/stormsql/select.go\<close> and \<^verbatim>\<open>tools/console\<close>: a SELECT statement is translated to a query of the storage
  library. The SQL parser is a parameter that yields a syntax tree; of the tree only the nodes the
  translation tells apart have constructors. Unchecked type assertions and unsupported nodes panic.
\<close>

subsection \<open>The syntax tree\<close>

datatype sql_type = StrVal | IntVal | FloatVal | HexNum | HexVal | ValArg | BitVal

datatype sql_expr =
    ColName string
  | SQLVal sql_type bytes
  | BoolVal bool
  | ValTuple "sql_expr list"
  | FuncExpr string
  | ComparisonExpr string sql_expr sql_expr
  | IsExpr string sql_expr
  | AndExpr sql_expr sql_expr
  | OrExpr sql_expr sql_expr
  | OtherExpr

datatype select_expr = StarExpr | AliasedExpr sql_expr | OtherSelectExpr

record sql_select =
  sq_SelectExprs :: "select_expr list"
  sq_From :: "string option list"
  sq_Where :: "sql_expr option"
  sq_Limit :: "(sql_expr option \<times> sql_expr) option"
  sq_OrderBy :: "(sql_expr \<times> string) list"

text \<open>
  A table expression is the name of its table when it is aliased. \<open>sl_Parse\<close> yields no statement for one
  that is not a SELECT; \<open>sl_ParseAny\<close> recognises dates.
\<close>

datatype sql_value = Plain val | Floating string | ParserBool bool | Tuple "sql_value list"

record sql_lib =
  sl_Parse :: "string \<Rightarrow> err + sql_select option"
  sl_ParseAny :: "string \<Rightarrow> time option"
  sl_HexDecode :: "bytes \<Rightarrow> err + bytes"
  sl_Sprint :: "sql_value \<Rightarrow> string"

subsection \<open>Literals\<close>

text \<open>\<open>strconv.Atoi\<close> and \<open>strconv.ParseInt\<close> in base 16, their error ignored: 0, or the nearest number of 64 bits.\<close>

fun hex_number :: "nat \<Rightarrow> string \<Rightarrow> nat option" where
  "hex_number acc [] = Some acc"
| "hex_number acc (c # cs) = (case hex_val c of None \<Rightarrow> None | Some d \<Rightarrow> hex_number (16 * acc + d) cs)"

definition clamped :: "(string \<Rightarrow> nat option) \<Rightarrow> string \<Rightarrow> int" where
  "clamped digits s =
     (case s of
        [] \<Rightarrow> 0
      | c # cs \<Rightarrow>
          (case digits (if c = CHR ''-'' \<or> c = CHR ''+'' then cs else s) of
             None \<Rightarrow> 0
           | Some n \<Rightarrow> max int64_min (min int64_max (if c = CHR ''-'' then - int n else int n))))"

definition Atoi :: "string \<Rightarrow> int" where "Atoi = clamped parse_uint"

definition ParseInt16 :: "string \<Rightarrow> int" where
  "ParseInt16 = clamped (\<lambda>s. if s = [] then None else hex_number 0 s)"

text \<open>A BIT literal compares a byte with 1 and has no value when it is empty.\<close>

definition parseSQLVal :: "sql_lib \<Rightarrow> sql_type \<Rightarrow> bytes \<Rightarrow> (err, sql_value) outcome" where
  "parseSQLVal sl t v =
     (case t of
        StrVal \<Rightarrow> Ok (Plain (case sl_ParseAny sl v of None \<Rightarrow> VStr v | Some t \<Rightarrow> VTime t))
      | IntVal \<Rightarrow> Ok (Plain (VInt (Atoi v)))
      | FloatVal \<Rightarrow> Ok (Floating v)
      | HexNum \<Rightarrow> Ok (Plain (VInt (ParseInt16 v)))
      | HexVal \<Rightarrow> (case sl_HexDecode sl v of Inl _ \<Rightarrow> Panic ''HexDecode'' | Inr b \<Rightarrow> Ok (Plain (VBytes b)))
      | ValArg \<Rightarrow> Panic ''unsupported ValArg''
      | BitVal \<Rightarrow> (case v of [] \<Rightarrow> Panic ''index out of range'' | c # _ \<Rightarrow> Ok (Plain (VBool (c = CHR 0x01)))))"

definition sql_literal :: "sql_lib \<Rightarrow> sql_expr \<Rightarrow> (err, sql_value) outcome" where
  "sql_literal sl e = (case e of SQLVal t v \<Rightarrow> parseSQLVal sl t v | _ \<Rightarrow> Panic ''interface conversion'')"

fun sql_literals :: "sql_lib \<Rightarrow> sql_expr list \<Rightarrow> (err, sql_value list) outcome" where
  "sql_literals sl [] = Ok []"
| "sql_literals sl (e # es) = obind (sql_literal sl e) (\<lambda>v. map_outcome_value (\<lambda>vs. v # vs) (sql_literals sl es))"

definition sql_operand :: "sql_lib \<Rightarrow> sql_expr \<Rightarrow> (err, sql_value) outcome" where
  "sql_operand sl e =
     (case e of
        BoolVal b \<Rightarrow> Ok (ParserBool b)
      | ValTuple es \<Rightarrow> map_outcome_value Tuple (sql_literals sl es)
      | SQLVal t v \<Rightarrow> parseSQLVal sl t v
      | _ \<Rightarrow> Panic ''unsupported Val'')"

subsection \<open>Conditions\<close>

definition column_name :: "sql_expr \<Rightarrow> (err, string) outcome" where
  "column_name e = (case e of ColName f \<Rightarrow> Ok f | _ \<Rightarrow> Panic ''interface conversion'')"

text \<open>\<open>q.In\<close> with a value that is no list matches nothing.\<close>

definition q_compare :: "sql_lib \<Rightarrow> string \<Rightarrow> string \<Rightarrow> sql_value \<Rightarrow> (err, sql_value gen_matcher) outcome" where
  "q_compare sl operator f v =
     (if operator = ''='' then Ok (q_Eq f v)
      else if operator = ''!='' then Ok (q_Not (q_Eq f v))
      else if operator = ''>'' then Ok (q_Gt f v)
      else if operator = ''>='' then Ok (q_Gte f v)
      else if operator = ''in'' then Ok (case v of Tuple vs \<Rightarrow> q_In f vs | _ \<Rightarrow> q_Or [])
      else if operator = ''<'' then Ok (q_Lt f v)
      else if operator = ''<='' then Ok (q_Lte f v)
      else if operator = ''like'' then Ok (q_Re f (sl_Sprint sl v))
      else Panic ''unsupported Operator'')"

fun parsWhereExpr :: "sql_lib \<Rightarrow> sql_expr \<Rightarrow> (err, sql_value gen_matcher) outcome" where
  "parsWhereExpr sl (ComparisonExpr operator l r) =
     obind (column_name l) (\<lambda>f. obind (sql_operand sl r) (q_compare sl operator f))"
| "parsWhereExpr sl (IsExpr operator e) =
     (if operator = ''is not null''
      then obind (column_name e) (\<lambda>f. Ok (q_Not (q_Eq f (Plain VNil))))
      else Panic ''unsupported IsExpr'')"
| "parsWhereExpr sl (AndExpr a b) =
     obind (parsWhereExpr sl a) (\<lambda>m. obind (parsWhereExpr sl b) (\<lambda>n. Ok (q_And [m, n])))"
| "parsWhereExpr sl (OrExpr a b) =
     obind (parsWhereExpr sl a) (\<lambda>m. obind (parsWhereExpr sl b) (\<lambda>n. Ok (q_Or [m, n])))"
| "parsWhereExpr sl _ = Panic ''unsupported where expr type''"

subsection \<open>Statements\<close>

record select_clause =
  sc_SelectedFields :: "string list"
  sc_Count :: bool
  sc_Tablename :: string
  sc_Matcher :: "sql_value gen_matcher"
  sc_Skip :: int
  sc_Limit :: int
  sc_OrderBy :: "string list"
  sc_OrderByReversed :: bool

fun select_fields :: "select_expr list \<Rightarrow> string list \<Rightarrow> bool \<Rightarrow> (err, string list \<times> bool) outcome" where
  "select_fields [] fs cnt = Ok (fs, cnt)"
| "select_fields (StarExpr # es) fs cnt = select_fields es [] cnt"
| "select_fields (AliasedExpr (ColName f) # es) fs cnt = select_fields es (fs @ [f]) cnt"
| "select_fields (AliasedExpr (FuncExpr f) # es) fs cnt = select_fields es [] (f = ''count'')"
| "select_fields (AliasedExpr _ # es) fs cnt = select_fields es fs cnt"
| "select_fields (OtherSelectExpr # es) fs cnt = Err (ErrLib ''unsupported select expression'')"

definition limit_number :: "sql_lib \<Rightarrow> sql_expr \<Rightarrow> (err, int) outcome" where
  "limit_number sl e =
     obind (sql_literal sl e) (\<lambda>v. case (e, v) of
       (SQLVal IntVal _, Plain (VInt n)) \<Rightarrow> Ok n | _ \<Rightarrow> Panic ''interface conversion'')"

fun order_fields :: "(sql_expr \<times> string) list \<Rightarrow> string list \<Rightarrow> bool \<Rightarrow> (err, string list \<times> bool) outcome" where
  "order_fields [] fs r = Ok (fs, r)"
| "order_fields ((e, direction) # es) fs r =
     obind (column_name e) (\<lambda>f. order_fields es (fs @ [f]) (r \<or> direction = ''desc''))"

definition ParseSelect :: "sql_lib \<Rightarrow> string \<Rightarrow> (err, select_clause) outcome" where
  "ParseSelect sl sql =
     (case sl_Parse sl sql of
        Inl e \<Rightarrow> Err (Wrap ''could not parse SQL'' e)
      | Inr None \<Rightarrow> Err (ErrLib ''not a select statement'')
      | Inr (Some s) \<Rightarrow>
          obind (select_fields (sq_SelectExprs s) [] False) (\<lambda>(fields, cnt).
          obind (case sq_From s of
                   [] \<Rightarrow> Panic ''index out of range'' | None # _ \<Rightarrow> Panic ''interface conversion''
                 | Some name # _ \<Rightarrow> Ok name) (\<lambda>tablename.
          obind (case sq_Where s of None \<Rightarrow> Ok (q_And []) | Some e \<Rightarrow> parsWhereExpr sl e) (\<lambda>m.
          obind (case sq_Limit s of
                   None \<Rightarrow> Ok (0, 0)
                 | Some (None, rows) \<Rightarrow> obind (limit_number sl rows) (\<lambda>n. Ok (0, n))
                 | Some (Some offset, rows) \<Rightarrow>
                     obind (limit_number sl offset) (\<lambda>k. obind (limit_number sl rows) (\<lambda>n. Ok (k, n)))) (\<lambda>(skip, limit).
          obind (order_fields (sq_OrderBy s) [] False) (\<lambda>(fs, reversed).
          Ok \<lparr>sc_SelectedFields = fields, sc_Count = cnt, sc_Tablename = tablename, sc_Matcher = m, sc_Skip = skip,
              sc_Limit = limit, sc_OrderBy = fs, sc_OrderByReversed = reversed\<rparr>))))))"

subsection \<open>What a condition means\<close>

text \<open>
  \<open>denotes sl x e\<close> is the value of the literal \<open>e\<close> for a column whose value is \<open>x\<close>, if the types agree:
  text for text, an instant for an instant, a number for a number, bytes for bytes.
\<close>

definition denotes :: "sql_lib \<Rightarrow> val \<Rightarrow> sql_expr \<Rightarrow> val option" where
  "denotes sl x e =
     (case (x, e) of
        (VStr _, SQLVal StrVal v) \<Rightarrow> (if sl_ParseAny sl v = None then Some (VStr v) else None)
      | (VTime _, SQLVal StrVal v) \<Rightarrow> map_option VTime (sl_ParseAny sl v)
      | (VInt _, SQLVal IntVal v) \<Rightarrow> Some (VInt (Atoi v))
      | (VBytes _, SQLVal HexVal v) \<Rightarrow> (case sl_HexDecode sl v of Inl _ \<Rightarrow> None | Inr b \<Rightarrow> Some (VBytes b))
      | _ \<Rightarrow> None)"

definition comparison :: "string \<Rightarrow> val \<Rightarrow> val \<Rightarrow> bool" where
  "comparison operator x v =
     (if operator = ''='' then x = v else if operator = ''!='' then x \<noteq> v
      else if operator = ''>'' then v < x else if operator = ''>='' then v \<le> x
      else if operator = ''<'' then x < v else x \<le> v)"

text \<open>\<open>LIKE\<close>, without escapes: a percent sign stands for any text, an underscore for any character.\<close>

fun sql_like :: "string \<Rightarrow> string \<Rightarrow> bool" where
  "sql_like [] s = (s = [])"
| "sql_like (p # ps) s =
     (if p = CHR ''%'' then list_ex (\<lambda>k. sql_like ps (drop k s)) [0..<Suc (length s)]
      else (case s of [] \<Rightarrow> False | c # cs \<Rightarrow> (p = CHR ''_'' \<or> p = c) \<and> sql_like ps cs))"

fun like :: "val \<Rightarrow> val \<Rightarrow> bool" where
  "like (VStr s) (VStr p) = sql_like p s"
| "like _ _ = False"

text \<open>Whether a condition holds of a row.\<close>

fun sql_holds :: "sql_lib \<Rightarrow> (string \<Rightarrow> val option) \<Rightarrow> sql_expr \<Rightarrow> bool" where
  "sql_holds sl fld (ComparisonExpr operator (ColName f) r) =
     (case fld f of
        None \<Rightarrow> False
      | Some x \<Rightarrow>
          (case r of
             ValTuple es \<Rightarrow> (\<exists>e \<in> set es. denotes sl x e = Some x)
           | _ \<Rightarrow>
               (case denotes sl x r of
                  None \<Rightarrow> False
                | Some v \<Rightarrow> if operator = ''like'' then like x v else comparison operator x v)))"
| "sql_holds sl fld (IsExpr operator (ColName f)) = (\<exists>x. fld f = Some x \<and> x \<noteq> VNil)"
| "sql_holds sl fld (AndExpr a b) = (sql_holds sl fld a \<and> sql_holds sl fld b)"
| "sql_holds sl fld (OrExpr a b) = (sql_holds sl fld a \<or> sql_holds sl fld b)"
| "sql_holds sl fld _ = False"

text \<open>
  The conditions that are translated as they are meant, for a row: the columns exist, each literal has the
  type of its column (a text for a text, and then not one that reads as a date; a text that does for an instant; an
  integer for an integer; a hexadecimal string for bytes; no null, boolean or floating point number), and the
  operator is a comparison, \<open>IN\<close> or \<open>IS NOT NULL\<close>. \<open>LIKE\<close> is not among them.
\<close>

definition comparisons :: "string set" where
  "comparisons = {''='', ''!='', ''>'', ''>='', ''<'', ''<=''}"

fun typed :: "sql_lib \<Rightarrow> (string \<Rightarrow> val option) \<Rightarrow> sql_expr \<Rightarrow> bool" where
  "typed sl fld (ComparisonExpr operator (ColName f) r) =
     (case fld f of
        None \<Rightarrow> False
      | Some x \<Rightarrow>
          (case r of
             ValTuple es \<Rightarrow> operator = ''in'' \<and> (\<forall>e \<in> set es. denotes sl x e \<noteq> None)
           | _ \<Rightarrow> denotes sl x r \<noteq> None \<and> operator \<in> comparisons))"
| "typed sl fld (IsExpr operator (ColName f)) = (operator = ''is not null'' \<and> fld f \<noteq> None)"
| "typed sl fld (AndExpr a b) = (typed sl fld a \<and> typed sl fld b)"
| "typed sl fld (OrExpr a b) = (typed sl fld a \<and> typed sl fld b)"
| "typed sl fld _ = False"

text \<open>A matcher over plain values is one of the storage library.\<close>

fun plain_value :: "sql_value \<Rightarrow> val" where
  "plain_value (Plain v) = v"
| "plain_value _ = VNil"

definition storm_matcher :: "sql_value gen_matcher \<Rightarrow> matcher" where
  "storm_matcher = map_gen_matcher plain_value"

lemma denotes_literal:
  assumes "denotes sl x e = Some v"
  shows "sql_literal sl e = Ok (Plain v)" "sql_operand sl e = Ok (Plain v)" "same_kind x v"
    "\<exists>t u. e = SQLVal t u"
proof -
  obtain t u where e: "e = SQLVal t u" using assms by (cases x; cases e) (auto simp: denotes_def)
  have "parseSQLVal sl t u = Ok (Plain v) \<and> same_kind x v"
    using assms by (cases x; cases t) (auto simp: denotes_def e parseSQLVal_def split: if_splits option.splits sum.splits)
  then show "sql_literal sl e = Ok (Plain v)" "sql_operand sl e = Ok (Plain v)" "same_kind x v" "\<exists>t u. e = SQLVal t u"
    by (simp_all add: sql_literal_def sql_operand_def e)
qed

lemma denotes_literals:
  assumes "\<forall>e \<in> set es. denotes sl x e \<noteq> None"
  shows "sql_literals sl es = Ok (map (\<lambda>e. Plain (the (denotes sl x e))) es)"
  using assms by (induction es) (auto dest: denotes_literal(1))

lemma q_compare_comparison:
  assumes "operator \<in> comparisons" and "fld f = Some x" and "same_kind x v"
  shows "\<exists>m. q_compare sl operator f (Plain v) = Ok m \<and> (matches re fld (storm_matcher m) \<longleftrightarrow> comparison operator x v)"
  using assms(1) unfolding comparisons_def
  by (elim insertE) (use assms(2,3) in \<open>auto simp: q_compare_def comparison_def storm_matcher_def\<close>)

lemma in_list_matches:
  assumes "\<forall>e \<in> set es. denotes sl x e \<noteq> None" and "fld f = Some x"
  shows "matches re fld (storm_matcher (q_In f (map (\<lambda>e. Plain (the (denotes sl x e))) es)))
    \<longleftrightarrow> (\<exists>e \<in> set es. denotes sl x e = Some x)"
proof -
  have "x = the (denotes sl x e) \<longleftrightarrow> denotes sl x e = Some x" if "e \<in> set es" for e
    using assms(1) that by (metis option.collapse option.sel)
  then show ?thesis using assms(2) by (auto simp: storm_matcher_def image_iff)
qed

lemma comparison_translated:
  assumes "typed sl fld (ComparisonExpr operator (ColName f) r)"
  shows "\<exists>m. parsWhereExpr sl (ComparisonExpr operator (ColName f) r) = Ok m
    \<and> (matches re fld (storm_matcher m) \<longleftrightarrow> sql_holds sl fld (ComparisonExpr operator (ColName f) r))"
proof -
  obtain x where x: "fld f = Some x" using assms by (cases "fld f") auto
  show ?thesis
  proof (cases "\<exists>es. r = ValTuple es")
    case True
    then obtain es where r: "r = ValTuple es" by blast
    then have es: "\<forall>e \<in> set es. denotes sl x e \<noteq> None" and op: "operator = ''in''" using assms x by auto
    show ?thesis using denotes_literals [OF es] in_list_matches [where fld = fld, OF es x]
      by (simp add: r op x column_name_def sql_operand_def q_compare_def)
  next
    case False
    then have "denotes sl x r \<noteq> None" using assms x by (cases r) auto
    then obtain v where v: "denotes sl x r = Some v" by blast
    note lit = denotes_literal [OF v]
    have op: "operator \<in> comparisons" using assms x False by (cases r) auto
    then have "operator \<noteq> ''like''" by (auto simp: comparisons_def)
    then have "sql_holds sl fld (ComparisonExpr operator (ColName f) r) \<longleftrightarrow> comparison operator x v"
      using lit(4) v x by auto
    then show ?thesis using q_compare_comparison [where fld = fld and sl = sl and re = re, OF op x lit(3)] lit(2)
      by (auto simp: column_name_def)
  qed
qed

lemma condition_translated:
  "typed sl fld e \<Longrightarrow> \<exists>m. parsWhereExpr sl e = Ok m \<and> (matches re fld (storm_matcher m) \<longleftrightarrow> sql_holds sl fld e)"
proof (induction sl fld e rule: typed.induct)
  case (1 sl fld operator f r)
  then show ?case by (rule comparison_translated)
next
  case (2 sl fld operator f)
  then show ?case by (auto simp: column_name_def storm_matcher_def)
next
  case (3 sl fld a b)
  then obtain m n where "parsWhereExpr sl a = Ok m" "matches re fld (storm_matcher m) \<longleftrightarrow> sql_holds sl fld a"
    "parsWhereExpr sl b = Ok n" "matches re fld (storm_matcher n) \<longleftrightarrow> sql_holds sl fld b" by auto
  then show ?case by (auto simp: storm_matcher_def)
next
  case (4 sl fld a b)
  then obtain m n where "parsWhereExpr sl a = Ok m" "matches re fld (storm_matcher m) \<longleftrightarrow> sql_holds sl fld a"
    "parsWhereExpr sl b = Ok n" "matches re fld (storm_matcher n) \<longleftrightarrow> sql_holds sl fld b" by auto
  then show ?case by (auto simp: storm_matcher_def)
qed simp_all

text \<open>
  What \<open>LIKE\<close> becomes instead: the pattern is taken as a regular expression as it is, so that its percent signs and
  underscores stand for themselves and the expression is searched anywhere in the value.
\<close>

lemma like_translated:
  assumes "fld f = Some (VStr s)" and "sl_ParseAny sl p = None" and "sl_Sprint sl (Plain (VStr p)) = p"
  shows "\<exists>m. parsWhereExpr sl (ComparisonExpr ''like'' (ColName f) (SQLVal StrVal p)) = Ok m
    \<and> (matches re fld (storm_matcher m) \<longleftrightarrow> re p s)"
  using assms by (simp add: column_name_def sql_operand_def parseSQLVal_def q_compare_def storm_matcher_def)

text \<open>A pattern that \<open>LIKE\<close> matches with every text, and one without wildcards that it matches with itself only.\<close>

lemma sql_like_examples: "sql_like ''%'' s" "sql_like ''ab'' s \<longleftrightarrow> s = ''ab''" "sql_like ''a_%'' ''abc''" "\<not> sql_like ''a_'' ''abc''"
proof -
  show "sql_like ''%'' s" by (auto simp: list_ex_iff intro: bexI [of _ "length s"])
  show "sql_like ''ab'' s \<longleftrightarrow> s = ''ab''" by (auto split: list.splits)
qed code_simp+

end
