(* ===== verification/Tools.thy ===== *)
theory Tools
  imports Stormsql Server_Properties
begin

text \<open>
  The maintenance tools that work on the database file: \<^verbatim>\<open>tools/console\<close> runs a SELECT statement, and
  \<^verbatim>\<open>tools/rmuser\<close> removes the user with a given email. \<open>opened\<close> is the error of opening the file, if any.
\<close>

subsection \<open>The SQL console\<close>

definition console_query :: "select_clause \<Rightarrow> query" where
  "console_query sc =
     (let q0 = q_Select [storm_matcher (sc_Matcher sc)];
          q1 = (if 0 < sc_Skip sc then q0\<lparr>q_skip := nat (sc_Skip sc)\<rparr> else q0);
          q2 = (if 0 < sc_Limit sc then q_Limit (sc_Limit sc) q1 else q1)
      in if sc_OrderBy sc \<noteq> []
         then (let q3 = q_OrderBy (sc_OrderBy sc) q2 in if sc_OrderByReversed sc then q_Reverse q3 else q3)
         else q2)"

definition find_or_empty :: "('db, 'r) bucket \<Rightarrow> query \<Rightarrow> 'db \<Rightarrow> err + 'r list" where
  "find_or_empty B q d =
     (case b_find B q d of
        Inr rs \<Rightarrow> Inr rs
      | Inl e \<Rightarrow> if e = ErrNotFound then Inr [] else Inl (Wrap ''could not perform query'' e))"

definition console_list :: "'db storm \<Rightarrow> select_clause \<Rightarrow> 'db \<Rightarrow> err + (user list + item list)" where
  "console_list S sc d =
     (if sc_Tablename sc = ''users''
      then (case find_or_empty (st_users S) (console_query sc) d of Inl e \<Rightarrow> Inl e | Inr us \<Rightarrow> Inr (Inl us))
      else if sc_Tablename sc = ''items''
      then (case find_or_empty (st_items S) (console_query sc) d of Inl e \<Rightarrow> Inl e | Inr is \<Rightarrow> Inr (Inr is))
      else Inl (ErrLib (''unknown tablename: '' @ sc_Tablename sc)))"

datatype console_answer = Counted int | Listed "user list + item list"

text \<open>\<open>counts\<close> are the library's counts of the users and of the items a query finds.\<close>

definition console_count ::
  "(query \<Rightarrow> 'db \<Rightarrow> err + int) \<times> (query \<Rightarrow> 'db \<Rightarrow> err + int) \<Rightarrow> select_clause \<Rightarrow> 'db \<Rightarrow> err + int" where
  "console_count counts sc d =
     (if sc_Tablename sc = ''users'' then wrap_left ''could not perform query'' (fst counts (console_query sc) d)
      else if sc_Tablename sc = ''items'' then wrap_left ''could not perform query'' (snd counts (console_query sc) d)
      else Inl (ErrLib (''unknown tablename: '' @ sc_Tablename sc)))"

definition console ::
  "'db storm \<Rightarrow> (query \<Rightarrow> 'db \<Rightarrow> err + int) \<times> (query \<Rightarrow> 'db \<Rightarrow> err + int) \<Rightarrow> sql_lib \<Rightarrow> err option \<Rightarrow> string
   \<Rightarrow> 'db \<Rightarrow> (err, console_answer) outcome" where
  "console S counts sl opened sql d =
     obind (ParseSelect sl sql) (\<lambda>sc.
     case opened of
       Some e \<Rightarrow> Err (Wrap ''could not open database'' e)
     | None \<Rightarrow>
         (if sc_Count sc
          then (case console_count counts sc d of Inl e \<Rightarrow> Err e | Inr n \<Rightarrow> Ok (Counted n))
          else (case console_list S sc d of Inl e \<Rightarrow> Err e | Inr rows \<Rightarrow> Ok (Listed rows))))"

lemma console_query_fields:
  "q_where (console_query sc) = [storm_matcher (sc_Matcher sc)]"
  "q_skip (console_query sc) = nat (sc_Skip sc)"
  "q_limit (console_query sc) = (if 0 < sc_Limit sc then Some (sc_Limit sc) else None)"
  by (simp_all add: console_query_def query_defs Let_def)

context bucket
begin

text \<open>What a console query finds: matching rows only, and all of them without a limit or an offset.\<close>

lemma console_finds:
  assumes "find_or_empty B (console_query sc) d = Inr rs"
  shows "set rs \<subseteq> {r \<in> rows d. matches re (fld r) (storm_matcher (sc_Matcher sc))} \<and> distinct rs
    \<and> (sc_Skip sc \<le> 0 \<longrightarrow> sc_Limit sc \<le> 0 \<longrightarrow> set rs = {r \<in> rows d. matches re (fld r) (storm_matcher (sc_Matcher sc))})"
proof -
  let ?q = "console_query sc" and ?hits = "{r \<in> rows d. matches re (fld r) (storm_matcher (sc_Matcher sc))}"
  have where_q: "{r \<in> rows d. matches_all re (fld r) (q_where ?q)} = ?hits"
    by (simp add: console_query_fields)
  have ok: "limit_ok ?q" by (simp add: limit_ok_def console_query_fields)
  show ?thesis
  proof (cases "b_find B ?q d")
    case (Inl e)
    then have e: "e = ErrNotFound" "rs = []" using assms by (auto simp: find_or_empty_def split: if_splits)
    have "?hits = {}" if "sc_Skip sc \<le> 0" "sc_Limit sc \<le> 0"
      using find_missing [OF Inl] that e unfolding where_q by (simp add: console_query_fields)
    then show ?thesis using e by simp
  next
    case (Inr ys)
    then have rs: "b_find B ?q d = Inr rs" using assms by (simp add: find_or_empty_def)
    show ?thesis
      using find_subset [OF rs ok] find_complete [OF rs] unfolding where_q by (auto simp: console_query_fields)
  qed
qed

end

subsection \<open>Removing a user\<close>

text \<open>Errors are compared with the sentinel as they are, not by their cause.\<close>

definition rmuser :: "'db storm \<Rightarrow> err option \<Rightarrow> string \<Rightarrow> 'db world \<Rightarrow> err option \<times> 'db world" where
  "rmuser S opened email w =
     (case opened of
        Some e \<Rightarrow> (Some (Wrap ''could not open database'' e), w)
      | None \<Rightarrow>
     (case b_one (st_users S) ''Email'' (VStr email) (w_db w) of
        Inl e \<Rightarrow> if e = ErrNotFound then (None, w) else (Some (Wrap ''find user by mail'' e), w)
      | Inr u \<Rightarrow>
     (case (case b_delete (st_items S) [q_Eq ''UserID'' (VStr (ID u))] (w_db w) of
              Inl e \<Rightarrow> if e = ErrNotFound then Inr w else Inl e
            | Inr d \<Rightarrow> Inr (w\<lparr>w_db := d\<rparr>)) of
        Inl e \<Rightarrow> (Some (Wrap ''delete items'' e), w)
      | Inr w1 \<Rightarrow>
     (case b_delete_struct (st_users S) u (w_db w1) of
        Inl e \<Rightarrow> if e = ErrNotFound then (None, w1) else (Some (Wrap ''delete user'' e), w1)
      | Inr d \<Rightarrow> (None, w1\<lparr>w_db := d\<rparr>)))))"

context store
begin

lemma rmuser_found:
  assumes "rmuser S None email w = (None, w')" and "u \<in> v_users V (w_db w)" and "us_Email u = email"
    and "inj_on us_Email (v_users V (w_db w))"
  shows "v_users V (w_db w') = v_users V (w_db w) - {u}
    \<and> v_items V (w_db w') = {i \<in> v_items V (w_db w). it_UserID i \<noteq> ID u}
    \<and> v_sessions V (w_db w') = v_sessions V (w_db w) \<and> v_pkces V (w_db w') = v_pkces V (w_db w)"
proof -
  have field: "user_field x ''Email'' = Some (VStr (us_Email x))" for x by (simp add: user_field_def)
  have item_f: "item_field i ''UserID'' = Some (VStr (it_UserID i))" for i by (simp add: item_field_def)
  obtain u' where u': "b_one (st_users S) ''Email'' (VStr email) (w_db w) = Inr u'"
  proof (cases "b_one (st_users S) ''Email'' (VStr email) (w_db w)")
    case (Inl e)
    then have "Cause e = ErrNotFound" using assms(1) by (auto simp: rmuser_def split: if_splits)
    then show thesis using users.one_missing [OF Inl] assms(2,3) field by metis
  qed (use that in blast)
  have "u' \<in> v_users V (w_db w)" "us_Email u' = email" using users.one_ok [OF u'] field by auto
  then have [simp]: "u' = u" using assms(2-4) by (metis inj_onD)
  let ?del = "b_delete (st_items S) [q_Eq ''UserID'' (VStr (ID u))] (w_db w)"
  obtain w1 where w1: "(case ?del of Inl e \<Rightarrow> if e = ErrNotFound then Inr w else Inl e | Inr d \<Rightarrow> Inr (w\<lparr>w_db := d\<rparr>)) = Inr w1"
    and items: "v_items V (w_db w1) = {i \<in> v_items V (w_db w). it_UserID i \<noteq> ID u}"
    and rest: "v_users V (w_db w1) = v_users V (w_db w)" "v_sessions V (w_db w1) = v_sessions V (w_db w)"
      "v_pkces V (w_db w1) = v_pkces V (w_db w)"
  proof (cases ?del)
    case (Inl e)
    then have e: "e = ErrNotFound" using assms(1) u' by (auto simp: rmuser_def split: if_splits)
    then have "it_UserID i \<noteq> ID u" if "i \<in> v_items V (w_db w)" for i
      using items.delete_missing [OF Inl _ that] item_f by auto
    then show thesis using that [of w] Inl e by auto
  next
    case (Inr d)
    have "v_items V d = {i \<in> v_items V (w_db w). it_UserID i \<noteq> ID u}"
      using items.delete_ok [OF Inr] item_f by auto
    then show thesis using that [of "w\<lparr>w_db := d\<rparr>"] Inr frame_items [OF writesI(3) [OF Inr]] by simp
  qed
  have last: "(case b_delete_struct (st_users S) u (w_db w1) of
      Inl e \<Rightarrow> if e = ErrNotFound then (None, w1) else (Some (Wrap ''delete user'' e), w1)
    | Inr d \<Rightarrow> (None, w1\<lparr>w_db := d\<rparr>)) = (None, w')"
    using assms(1) u' w1 by (simp add: rmuser_def)
  show ?thesis
  proof (cases "b_delete_struct (st_users S) u (w_db w1)")
    case (Inl e)
    then have "e = ErrNotFound" using last by (auto split: if_splits)
    then have "\<forall>x \<in> v_users V (w_db w1). ID x \<noteq> ID u" using users.delete_struct_missing [OF Inl] by simp
    then show ?thesis using assms(2) rest by auto
  next
    case (Inr d)
    have "x = u" if "x \<in> v_users V (w_db w)" "ID x = ID u" for x
      using users.rows_id_eq [OF that(1) assms(2) that(2)] .
    then have "v_users V d = v_users V (w_db w) - {u}"
      using users.delete_struct_ok [OF Inr] assms(2) rest by auto
    moreover have "w' = w1\<lparr>w_db := d\<rparr>" using last Inr by simp
    ultimately show ?thesis using items rest frame_users [OF writesI(2) [OF Inr]] by simp
  qed
qed

end

subsection \<open>Example\<close>

text \<open>\<^verbatim>\<open>SELECT * FROM items WHERE UserID = 'alice' AND ContentType in ('Note')\<close>, parsed.\<close>

definition desk_condition :: sql_expr where
  "desk_condition = AndExpr (ComparisonExpr ''='' (ColName ''UserID'') (SQLVal StrVal ''alice''))
     (ComparisonExpr ''in'' (ColName ''ContentType'') (ValTuple [SQLVal StrVal ''Note'']))"

definition desk_select :: sql_select where
  "desk_select = \<lparr>sq_SelectExprs = [StarExpr], sq_From = [Some ''items''], sq_Where = Some desk_condition,
     sq_Limit = None, sq_OrderBy = []\<rparr>"

definition desk_sql :: sql_lib where
  "desk_sql = \<lparr>sl_Parse = (\<lambda>q. Inr (Some desk_select)), sl_ParseAny = (\<lambda>s. None), sl_HexDecode = Inr, sl_Sprint = (\<lambda>v. [])\<rparr>"

definition desk_rows :: memdb where
  "desk_rows = empty_db\<lparr>md_items := [desk_item ''n1'' ''alice'', desk_item ''n2'' ''bob'']\<rparr>"

subsection \<open>Properties\<close>

text \<open>
  C38. What the console lists for a SELECT from the items are stored items of which the WHERE condition
  holds, each once, and without a limit and an offset all of them. The condition is read as SQL means it:
  comparisons in the order of the column's type, lists, conjunction, disjunction and null tests. It is one without
  \<open>LIKE\<close>, and for every stored item its literals have the types of their columns: text that does not read as a date,
  dates, integers and hexadecimal bytes.
\<close>

theorem console_lists_matching_items:
  assumes "store S V" and parse: "sl_Parse sl sql = Inr (Some s)" and cond: "sq_Where s = Some e"
    and "ParseSelect sl sql = Ok sc" and "console S counts sl opened sql d = Ok (Listed (Inr is))"
    and typed: "\<And>i. i \<in> v_items V d \<Longrightarrow> typed sl (item_field i) e"
  shows "set is \<subseteq> {i \<in> v_items V d. sql_holds sl (item_field i) e} \<and> distinct is
    \<and> (sc_Skip sc \<le> 0 \<longrightarrow> sc_Limit sc \<le> 0 \<longrightarrow> set is = {i \<in> v_items V d. sql_holds sl (item_field i) e})"
proof -
  have m: "parsWhereExpr sl e = Ok (sc_Matcher sc)"
    using assms(4) parse cond by (auto simp: ParseSelect_def)
  have "matches (v_re V) (item_field i) (storm_matcher (sc_Matcher sc)) \<longleftrightarrow> sql_holds sl (item_field i) e"
    if "i \<in> v_items V d" for i
    using condition_translated [OF typed [OF that], of "v_re V"] m by auto
  then have rows: "{i \<in> v_items V d. matches (v_re V) (item_field i) (storm_matcher (sc_Matcher sc))}
      = {i \<in> v_items V d. sql_holds sl (item_field i) e}" by blast
  have "console_list S sc d = Inr (Inr is)"
    using assms(4,5) by (auto simp: console_def split: option.splits if_splits sum.splits)
  then have found: "find_or_empty (st_items S) (console_query sc) d = Inr is"
    by (auto simp: console_list_def split: if_splits sum.splits)
  show ?thesis using bucket.console_finds [OF store.axioms(2) [OF assms(1)] found] unfolding rows .
qed

theorem console_lists_matching_items_witness:
  "\<exists>is. set is = {i \<in> v_items mem_view desk_rows. sql_holds desk_sql (item_field i) desk_condition}
     \<and> is \<noteq> []"
proof -
  obtain sc where sc: "ParseSelect desk_sql [] = Ok sc" "sc_Skip sc = 0" "sc_Limit sc = 0" "sc_Tablename sc = ''items''"
      "\<not> sc_Count sc"
    by (simp add: ParseSelect_def desk_sql_def desk_select_def desk_condition_def column_name_def sql_operand_def
        sql_literal_def parseSQLVal_def q_compare_def)
  have list: "console_list mem_storm sc desk_rows = Inr (Inr [desk_item ''n1'' ''alice''])"
    using sc(1) by (auto simp: ParseSelect_def desk_sql_def desk_select_def desk_condition_def column_name_def sql_operand_def
        sql_literal_def parseSQLVal_def q_compare_def console_list_def find_or_empty_def console_query_def query_defs
        mem_storm_def mem_bucket_def mem_find_def desk_rows_def empty_db_def desk_item_def window_def item_field_def
        base_field_def matches_all_def storm_matcher_def)
  have run: "console mem_storm (\<lambda>q d. Inr 0, \<lambda>q d. Inr 0) desk_sql None [] desk_rows
      = Ok (Listed (Inr [desk_item ''n1'' ''alice'']))"
    using list sc by (simp add: console_def)
  have typed: "typed desk_sql (item_field i) desk_condition" for i
    by (simp add: desk_condition_def item_field_def denotes_def desk_sql_def comparisons_def)
  have "set [desk_item ''n1'' ''alice'']
      = {i \<in> v_items mem_view desk_rows. sql_holds desk_sql (item_field i) desk_condition}"
    using console_lists_matching_items [where s = desk_select and e = desk_condition, OF mem_store _ _ sc(1) run typed] sc(2,3)
    by (simp add: desk_sql_def desk_select_def)
  then show ?thesis by blast
qed

text \<open>
  C40. Removing a user by email removes this user's account and items and nothing else. The sessions of the
  removed user stay: if there is one, it belongs to no stored user any more.
\<close>

theorem rmuser_removes_account:
  assumes "store S V" and "rmuser S None email w = (None, w')" and "u \<in> v_users V (w_db w)" and "us_Email u = email"
    and "inj_on us_Email (v_users V (w_db w))"
  shows "v_users V (w_db w') = v_users V (w_db w) - {u}
    \<and> v_items V (w_db w') = {i \<in> v_items V (w_db w). it_UserID i \<noteq> ID u}
    \<and> v_pkces V (w_db w') = v_pkces V (w_db w) \<and> v_sessions V (w_db w') = v_sessions V (w_db w)
    \<and> (ID u \<in> se_UserID ` v_sessions V (w_db w) \<longrightarrow> \<not> accounts_ok V (w_db w'))"
proof -
  note found = store.rmuser_found [OF assms]
  have "ID u \<notin> ID ` (v_users V (w_db w) - {u})"
    using bucket.rows_id_eq [OF store.axioms(1) [OF assms(1)]] assms(3) by blast
  then show ?thesis using found by (auto simp: accounts_ok_def)
qed

theorem rmuser_removes_account_witness:
  "v_users mem_view (w_db (snd (rmuser mem_storm None ''b@b'' desk_world))) = {account_user}
     \<and> \<not> accounts_ok mem_view (w_db (snd (rmuser mem_storm None ''b@b'' desk_world)))"
proof -
  have "fst (rmuser mem_storm None ''b@b'' desk_world) = None" by code_simp
  then have run: "rmuser mem_storm None ''b@b'' desk_world = (None, snd (rmuser mem_storm None ''b@b'' desk_world))"
    by (metis prod.collapse)
  have ids: "us_Email bob = ''b@b''" "ID bob = ''bob''" "us_Email account_user = ''a@b''"
    by (simp_all add: account_user_def bob_def)
  then have "account_user \<noteq> bob" "inj_on us_Email {account_user, bob}" by (auto simp del: desk_fields)
  with ids show ?thesis
    using rmuser_removes_account [OF mem_store run, of bob] unfolding desk_users desk_sessions by auto
qed

end
