(* ===== verification/Release.thy ===== *)
theory Release
  imports Client_Files "HOL-Library.Sublist"
begin

text \<open>
  \<^verbatim>\<open>.github/workflows/release.go\<close>: the script of the release workflow, which takes the release from the event
  file of the runner, replaces its text by the checksums and uploads the built files. Messages on the
  standard output are left out. The JSON codecs, the URL library, the walk through the directory and HTTP are
  parameters; of the headers only the authorization is kept.
\<close>

record release =
  rl_ID :: int
  rl_URL :: string
  rl_AssetsURL :: string
  rl_UploadURL :: string
  rl_TagName :: string
  rl_TargetCommitish :: string
  rl_Name :: string
  rl_Draft :: bool
  rl_Prerelease :: bool

text \<open>An entry of the walk: its path, the error of reaching it, whether it is a directory, and its name.\<close>

record walk_entry =
  we_path :: string
  we_err :: "err option"
  we_IsDir :: bool
  we_Name :: string

text \<open>\<open>rr_Upload base name\<close> is the base URL with the query parameter \<^verbatim>\<open>name\<close> set.\<close>

record release_lib =
  rr_Unmarshal :: "bytes \<Rightarrow> err + release"
  rr_MarshalBody :: "string \<Rightarrow> err + bytes"
  rr_TrimSpace :: "bytes \<Rightarrow> bytes"
  rr_Version :: string
  rr_Upload :: "string \<Rightarrow> string \<Rightarrow> err + string"
  rr_Walk :: "string \<Rightarrow> walk_entry list"

record rcontroller =
  rc_epath :: string
  rc_token :: string
  rc_baseurl :: string
  rc_event :: release

definition load ::
  "release_lib \<Rightarrow> rcontroller \<Rightarrow> 'n outside world \<Rightarrow> (err + rcontroller) \<times> 'n outside world" where
  "load rr c w =
     (case os_ReadFile (rc_epath c) w of
        (Inl e, w1) \<Rightarrow> (Inl (Wrap ''readfile'' e), w1)
      | (Inr payload, w1) \<Rightarrow>
          (case rr_Unmarshal rr payload of
             Inl e \<Rightarrow> (Inl (Wrap ''parse'' e), w1)
           | Inr ev \<Rightarrow>
               (if \<not> prefix (rc_baseurl c) (rl_URL ev)
                then (Inl (ErrLib (''bad url prefix: '' @ rl_URL ev)), w1)
                else if \<not> prefix (rc_baseurl c) (rl_AssetsURL ev)
                then (Inl (ErrLib (''bad upload url prefix: '' @ rl_UploadURL ev)), w1)
                else (Inr (c\<lparr>rc_event := ev\<rparr>), w1))))"

subsection \<open>Requests\<close>

definition new_request ::
  "'n http_lib \<Rightarrow> rcontroller \<Rightarrow> string \<Rightarrow> string \<Rightarrow> bytes \<Rightarrow> err + http_request" where
  "new_request ht c verb url body =
     (case ht_NewRequest ht verb url of
        Inl e \<Rightarrow> Inl (Wrap ''create request'' e)
      | Inr _ \<Rightarrow>
          Inr \<lparr>hq_Method = verb, hq_URL = url, hq_Body = Some body,
               hq_Authorization = (if rc_token c \<noteq> [] then Some (''token '' @ rc_token c) else None)\<rparr>)"

definition perform :: "'n http_lib \<Rightarrow> http_request \<Rightarrow> 'n outside world \<Rightarrow> err option \<times> 'n outside world" where
  "perform ht rq w =
     (case on_net (\<lambda>n. let (r, d) = ht_Do ht rq (w_db n) in (r, n\<lparr>w_db := d\<rparr>)) w of
        (Inl e, w1) \<Rightarrow> (Some (Wrap ''do'' e), w1)
      | (Inr res, w1) \<Rightarrow>
          (if hs_StatusCode res \<noteq> 200 \<and> hs_StatusCode res \<noteq> 201
           then (Some (ErrLib (''status: '' @ hs_Status res)), w1)
           else (None, w1)))"

definition send_request ::
  "'n http_lib \<Rightarrow> rcontroller \<Rightarrow> string \<Rightarrow> string \<Rightarrow> bytes \<Rightarrow> 'n outside world \<Rightarrow> err option \<times> 'n outside world" where
  "send_request ht c verb url body w =
     (case new_request ht c verb url body of
        Inl e \<Rightarrow> (Some (Wrap ''request'' e), w)
      | Inr rq \<Rightarrow> (let (e, w1) = perform ht rq w in (wrap_opt ''perform'' e, w1)))"

subsection \<open>The text of the release\<close>

definition release_text :: "release_lib \<Rightarrow> bytes \<Rightarrow> string" where
  "release_text rr checksums =
     ''```'' @ [CHR 0x0A] @ rr_Version rr @ [CHR 0x0A, CHR 0x0A] @ rr_TrimSpace rr checksums @ [CHR 0x0A] @ ''```''"

definition readme :: "release_lib \<Rightarrow> 'n outside world \<Rightarrow> (err + string) \<times> 'n outside world" where
  "readme rr w =
     (case os_ReadFile ''dist/checksum.txt'' w of
        (Inl e, w1) \<Rightarrow> (Inl (Wrap ''readfile'' e), w1)
      | (Inr checksums, w1) \<Rightarrow>
          (Inr (release_text rr checksums), w1))"

definition update ::
  "release_lib \<Rightarrow> 'n http_lib \<Rightarrow> rcontroller \<Rightarrow> 'n outside world \<Rightarrow> err option \<times> 'n outside world" where
  "update rr ht c w =
     (case readme rr w of
        (Inl e, w1) \<Rightarrow> (Some (Wrap ''readme'' e), w1)
      | (Inr text, w1) \<Rightarrow>
          (case rr_MarshalBody rr text of
             Inl e \<Rightarrow> (Some (Wrap ''body'' e), w1)
           | Inr body \<Rightarrow> send_request ht c ''PATCH'' (rl_URL (rc_event c)) body w1))"

subsection \<open>The files\<close>

text \<open>The part of the upload URL before its template, unless it starts with it.\<close>

definition upload_base :: "string \<Rightarrow> string" where
  "upload_base url =
     (let n = length (takeWhile (\<lambda>c. c \<noteq> CHR ''{'') url)
      in if n < length url \<and> 0 < n then take n url else url)"

text \<open>A file is read when it is opened here; the code reads it while it sends it.\<close>

definition upload_file ::
  "release_lib \<Rightarrow> 'n http_lib \<Rightarrow> rcontroller \<Rightarrow> string \<Rightarrow> walk_entry \<Rightarrow> 'n outside world
   \<Rightarrow> err option \<times> 'n outside world" where
  "upload_file rr ht c base e w =
     (case we_err e of
        Some x \<Rightarrow> (Some x, w)
      | None \<Rightarrow>
     (if we_IsDir e then (None, w)
      else case rr_Upload rr base (we_Name e) of
        Inl x \<Rightarrow> (Some (Wrap ''parse upload url'' x), w)
      | Inr url \<Rightarrow>
     (case os_ReadFile (we_path e) w of
        (Inl x, w1) \<Rightarrow> (Some (Wrap ''read file'' x), w1)
      | (Inr content, w1) \<Rightarrow> send_request ht c ''POST'' url content w1)))"

text \<open>\<open>filepath.Walk\<close> stops at the first error.\<close>

fun upload_all ::
  "release_lib \<Rightarrow> 'n http_lib \<Rightarrow> rcontroller \<Rightarrow> string \<Rightarrow> walk_entry list \<Rightarrow> 'n outside world
   \<Rightarrow> err option \<times> 'n outside world" where
  "upload_all rr ht c base [] w = (None, w)"
| "upload_all rr ht c base (e # es) w =
     (case upload_file rr ht c base e w of
        (Some x, w1) \<Rightarrow> (Some x, w1)
      | (None, w1) \<Rightarrow> upload_all rr ht c base es w1)"

definition upload ::
  "release_lib \<Rightarrow> 'n http_lib \<Rightarrow> rcontroller \<Rightarrow> 'n outside world \<Rightarrow> err option \<times> 'n outside world" where
  "upload rr ht c w =
     (let (e, w1) = upload_all rr ht c (upload_base (rl_UploadURL (rc_event c))) (rr_Walk rr ''dist/'') w
      in (wrap_opt ''walk'' e, w1))"

subsection \<open>The script\<close>

text \<open>The event before it is read.\<close>

definition no_release :: release where
  "no_release =
     \<lparr>rl_ID = 0, rl_URL = [], rl_AssetsURL = [], rl_UploadURL = [], rl_TagName = [], rl_TargetCommitish = [],
      rl_Name = [], rl_Draft = False, rl_Prerelease = False\<rparr>"

text \<open>\<open>log.Fatal\<close> ends the script with a message.\<close>

definition release_main ::
  "release_lib \<Rightarrow> 'n http_lib \<Rightarrow> string \<Rightarrow> string \<Rightarrow> 'n outside world \<Rightarrow> err option \<times> 'n outside world" where
  "release_main rr ht epath token w =
     (case load rr \<lparr>rc_epath = epath, rc_token = token, rc_baseurl = ''https://api.github.com/'',
                     rc_event = no_release\<rparr> w of
        (Inl e, w1) \<Rightarrow> (Some (Wrap ''load'' e), w1)
      | (Inr c, w1) \<Rightarrow>
     (case update rr ht c w1 of
        (Some e, w2) \<Rightarrow> (Some (Wrap ''update'' e), w2)
      | (None, w2) \<Rightarrow> (let (e, w3) = upload rr ht c w2 in (wrap_opt ''upload'' e, w3))))"

subsection \<open>What is sent\<close>

text \<open>The requests a network that remembers them has seen.\<close>

definition sent :: "('n \<times> http_request list) outside world \<Rightarrow> http_request list" where
  "sent w = snd (o_net (w_db w))"

definition signed :: "string \<Rightarrow> string \<Rightarrow> string \<Rightarrow> bytes \<Rightarrow> http_request" where
  "signed token verb url body =
     \<lparr>hq_Method = verb, hq_URL = url, hq_Body = Some body,
      hq_Authorization = (if token \<noteq> [] then Some (''token '' @ token) else None)\<rparr>"

text \<open>The request that uploads the file of an entry.\<close>

definition uploads ::
  "release_lib \<Rightarrow> (string \<rightharpoonup> bytes) \<Rightarrow> string \<Rightarrow> string \<Rightarrow> walk_entry \<Rightarrow> http_request \<Rightarrow> bool" where
  "uploads rr files token base e rq \<longleftrightarrow>
     (\<exists>url content. rr_Upload rr base (we_Name e) = Inr url \<and> files (we_path e) = Some content
        \<and> rq = signed token ''POST'' url content)"

lemma os_ReadFile_sent [simp]: "sent (snd (os_ReadFile name w)) = sent w"
  by (simp add: sent_def)

lemma os_ReadFile_Inr:
  "os_ReadFile name w = (Inr b, w1) \<Longrightarrow>
     o_files (w_db w) name = Some b \<and> o_files (w_db w1) = o_files (w_db w) \<and> sent w1 = sent w"
  using os_ReadFile_Inr_iff [of name w b] os_ReadFile_sent [of name w] os_ReadFile_files [of name w] by auto

lemma send_request_sent:
  assumes "send_request (logged ht) c verb url body w = (None, w1)"
  shows "sent w1 = sent w @ [signed (rc_token c) verb url body] \<and> o_files (w_db w1) = o_files (w_db w)"
  using assms
  by (auto simp: send_request_def new_request_def perform_def on_net_def net_world_def with_net_def sent_def logged_def
      signed_def wrap_opt_def split_beta Let_def split: sum.splits if_splits)

lemma upload_file_sent:
  assumes "upload_file rr (logged ht) c base e w = (None, w1)"
  shows "o_files (w_db w1) = o_files (w_db w)
    \<and> (if we_IsDir e then sent w1 = sent w
       else \<exists>rq. uploads rr (o_files (w_db w)) (rc_token c) base e rq \<and> sent w1 = sent w @ [rq])"
proof (cases "we_IsDir e")
  case False
  have no_err: "we_err e = None" using assms by (auto simp: upload_file_def split: option.splits)
  obtain url where url: "rr_Upload rr base (we_Name e) = Inr url"
    using assms False no_err by (auto simp: upload_file_def split: sum.splits)
  obtain x w2 where read: "os_ReadFile (we_path e) w = (x, w2)" by force
  then obtain content where x: "x = Inr content"
    using assms False no_err url by (auto simp: upload_file_def split: sum.splits)
  have "send_request (logged ht) c ''POST'' url content w2 = (None, w1)"
    using assms False no_err url read x by (simp add: upload_file_def)
  from send_request_sent [OF this] os_ReadFile_Inr [OF read [unfolded x]] url False show ?thesis
    by (auto simp: uploads_def)
qed (use assms in \<open>auto simp: upload_file_def split: option.splits\<close>)

lemma upload_all_sent:
  "upload_all rr (logged ht) c base es w = (None, w1) \<Longrightarrow>
     \<exists>rqs. list_all2 (uploads rr (o_files (w_db w)) (rc_token c) base) (filter (\<lambda>e. \<not> we_IsDir e) es) rqs
       \<and> sent w1 = sent w @ rqs"
proof (induction es arbitrary: w)
  case (Cons e es)
  obtain w2 where one: "upload_file rr (logged ht) c base e w = (None, w2)"
    and rest: "upload_all rr (logged ht) c base es w2 = (None, w1)"
    using Cons.prems by (auto split: prod.splits option.splits)
  note f = upload_file_sent [OF one]
  from Cons.IH [OF rest] f obtain rqs where
    rqs: "list_all2 (uploads rr (o_files (w_db w)) (rc_token c) base) (filter (\<lambda>e. \<not> we_IsDir e) es) rqs"
      "sent w1 = sent w2 @ rqs" by auto
  show ?case
  proof (cases "we_IsDir e")
    case False
    then obtain rq where "uploads rr (o_files (w_db w)) (rc_token c) base e rq" "sent w2 = sent w @ [rq]"
      using f by auto
    then show ?thesis using rqs False by (intro exI [of _ "rq # rqs"]) simp
  qed (use rqs f in auto)
qed simp

lemma load_Inr:
  assumes "load rr c w = (Inr c1, w1)"
  obtains payload ev where "o_files (w_db w) (rc_epath c) = Some payload" and "rr_Unmarshal rr payload = Inr ev"
    and "prefix (rc_baseurl c) (rl_URL ev)" and "prefix (rc_baseurl c) (rl_AssetsURL ev)" and "c1 = c\<lparr>rc_event := ev\<rparr>"
    and "o_files (w_db w1) = o_files (w_db w)"
proof -
  obtain x w2 where read: "os_ReadFile (rc_epath c) w = (x, w2)" by force
  then obtain payload where x: "x = Inr payload" using assms by (auto simp: load_def split: sum.splits)
  have files: "o_files (w_db w) (rc_epath c) = Some payload" "o_files (w_db w2) = o_files (w_db w)"
    using os_ReadFile_Inr_iff [of "rc_epath c" w payload] os_ReadFile_files [of "rc_epath c" w] read x by auto
  then show thesis using assms read x that by (auto simp: load_def split: sum.splits if_splits)
qed

subsection \<open>Example\<close>

definition toy_event :: release where
  "toy_event = \<lparr>rl_ID = 1, rl_URL = ''https://api.github.com/r'', rl_AssetsURL = ''https://api.github.com/a'',
     rl_UploadURL = ''https://other/u{?name}'', rl_TagName = ''v1'', rl_TargetCommitish = ''master'',
     rl_Name = ''1'', rl_Draft = False, rl_Prerelease = False\<rparr>"

definition toy_release :: release_lib where
  "toy_release =
     \<lparr>rr_Unmarshal = (\<lambda>b. Inr toy_event), rr_MarshalBody = Inr, rr_TrimSpace = (\<lambda>b. b), rr_Version = ''go'',
      rr_Upload = (\<lambda>base name. Inr (base @ ''?name='' @ name)),
      rr_Walk = (\<lambda>d. [\<lparr>we_path = ''dist'', we_err = None, we_IsDir = True, we_Name = ''dist''\<rparr>,
                      \<lparr>we_path = ''dist/a'', we_err = None, we_IsDir = False, we_Name = ''a''\<rparr>])\<rparr>"

definition ok_http :: "unit http_lib" where
  "ok_http =
     \<lparr>ht_Parse = (\<lambda>e. Inr ()), ht_URL = (\<lambda>e p q. Inr e), ht_NewRequest = (\<lambda>m u. Inr ()),
      ht_Do = (\<lambda>rq n. (Inr \<lparr>hs_StatusCode = 201, hs_Status = ''201 Created'', hs_Body = []\<rparr>, n)), ht_MarshalMap = (\<lambda>m. Inr []),
      ht_MarshalSync = (\<lambda>s. Inr []), ht_DecodeSync = (\<lambda>b s. (s, None)), ht_DecodeError = (\<lambda>b. Inr b),
      ht_DecodeAuth = (\<lambda>b. (zero_auth, None)), ht_DecodeLogin = (\<lambda>b. (([], zero_session), None)),
      ht_DecodeSession = (\<lambda>b. (zero_session, None))\<rparr>"

definition toy_runner :: "(unit \<times> http_request list) outside world" where
  "toy_runner = \<lparr>w_db = \<lparr>o_files = [''event'' \<mapsto> ''E'', ''dist/checksum.txt'' \<mapsto> ''sums'', ''dist/a'' \<mapsto> ''A''],
       o_fault = (\<lambda>n. None), o_fileops = 0, o_net = ((), [])\<rparr>,
     w_clock = int, w_ticks = 0, w_uuid = (\<lambda>n. []), w_uuids = 0, w_rand = (\<lambda>n. n), w_rands = 0, w_prng = (\<lambda>s n. n)\<rparr>"

definition toy_released :: "err option \<times> (unit \<times> http_request list) outside world" where
  "toy_released = release_main toy_release (logged ok_http) ''event'' ''secret'' toy_runner"

subsection \<open>Properties\<close>

text \<open>
  C39. A release that succeeds sends exactly these requests, in this order, each with the token: one that
  replaces the text of the release of the event, at its URL, and then one for every file of the directory, in the
  order of the walk, with the file's contents and name, at the upload URL of the event. The URL of the release and
  that of its assets start with that of the GitHub API; nothing is checked of the upload URL.
\<close>

theorem release_publishes:
  assumes "release_main rr (logged ht) epath token w = (None, w')"
  shows "\<exists>payload ev checksums body rqs. o_files (w_db w) epath = Some payload \<and> rr_Unmarshal rr payload = Inr ev
    \<and> prefix ''https://api.github.com/'' (rl_URL ev) \<and> prefix ''https://api.github.com/'' (rl_AssetsURL ev)
    \<and> o_files (w_db w) ''dist/checksum.txt'' = Some checksums \<and> rr_MarshalBody rr (release_text rr checksums) = Inr body
    \<and> list_all2 (uploads rr (o_files (w_db w)) token (upload_base (rl_UploadURL ev)))
        (filter (\<lambda>e. \<not> we_IsDir e) (rr_Walk rr ''dist/'')) rqs
    \<and> sent w' = sent w @ signed token ''PATCH'' (rl_URL ev) body # rqs"
proof -
  let ?c = "\<lparr>rc_epath = epath, rc_token = token, rc_baseurl = ''https://api.github.com/'',
      rc_event = no_release\<rparr>"
  obtain c1 w1 where ld: "load rr ?c w = (Inr c1, w1)"
    using assms by (auto simp: release_main_def split: prod.splits sum.splits)
  obtain y w2 where y: "update rr (logged ht) c1 w1 = (y, w2)" by force
  then have up: "update rr (logged ht) c1 w1 = (None, w2)"
    using assms ld by (cases y) (auto simp: release_main_def)
  obtain z w4 where z: "upload rr (logged ht) c1 w2 = (z, w4)" by force
  then have ul: "upload rr (logged ht) c1 w2 = (None, w')"
    using assms ld up by (auto simp: release_main_def wrap_opt_def)
  from ld obtain payload ev where ev: "o_files (w_db w) epath = Some payload" "rr_Unmarshal rr payload = Inr ev"
      "prefix ''https://api.github.com/'' (rl_URL ev)" "prefix ''https://api.github.com/'' (rl_AssetsURL ev)" and c1: "c1 = ?c\<lparr>rc_event := ev\<rparr>"
    and f1: "o_files (w_db w1) = o_files (w_db w)"
    by (rule load_Inr) simp
  have s1: "sent w1 = sent w" using ld
    by (auto simp: load_def dest: os_ReadFile_Inr split: prod.splits sum.splits if_splits)
  obtain x w3 where rd: "os_ReadFile ''dist/checksum.txt'' w1 = (x, w3)" by force
  then obtain checksums where x: "x = Inr checksums"
    using up by (auto simp: update_def readme_def split: sum.splits)
  note cs = os_ReadFile_Inr [OF rd [unfolded x]]
  obtain body where body: "rr_MarshalBody rr (release_text rr checksums) = Inr body"
    using up rd x by (auto simp: update_def readme_def split: sum.splits)
  have "send_request (logged ht) c1 ''PATCH'' (rl_URL ev) body w3 = (None, w2)"
    using up rd x body c1 by (simp add: update_def readme_def)
  note s2 = send_request_sent [OF this]
  have "upload_all rr (logged ht) c1 (upload_base (rl_UploadURL ev)) (rr_Walk rr ''dist/'') w2 = (None, w')"
    using ul c1 by (auto simp: upload_def wrap_opt_def split_beta Let_def prod_eq_iff)
  from upload_all_sent [OF this] obtain rqs where
    "list_all2 (uploads rr (o_files (w_db w)) token (upload_base (rl_UploadURL ev)))
        (filter (\<lambda>e. \<not> we_IsDir e) (rr_Walk rr ''dist/'')) rqs" and "sent w' = sent w2 @ rqs"
    using s2 cs f1 c1 by auto
  with ev cs body s1 s2 f1 c1 show ?thesis by auto
qed

theorem release_publishes_witness:
  "sent (snd toy_released)
     = [signed ''secret'' ''PATCH'' ''https://api.github.com/r'' (release_text toy_release ''sums''),
        signed ''secret'' ''POST'' ''https://other/u?name=a'' ''A'']"
proof -
  have "fst toy_released = None" by code_simp
  then have "release_main toy_release (logged ok_http) ''event'' ''secret'' toy_runner = (None, snd toy_released)"
    unfolding toy_released_def by (metis prod.collapse)
  from release_publishes [OF this] obtain ev body rqs where
    ev: "ev = toy_event" "body = release_text toy_release ''sums''"
    and rqs: "list_all2 (uploads toy_release (o_files (w_db toy_runner)) ''secret'' (upload_base (rl_UploadURL ev)))
        (filter (\<lambda>e. \<not> we_IsDir e) (rr_Walk toy_release ''dist/'')) rqs"
    and sent: "sent (snd toy_released) = sent toy_runner @ signed ''secret'' ''PATCH'' (rl_URL ev) body # rqs"
    by (auto simp: toy_release_def toy_runner_def)
  have "upload_base (rl_UploadURL toy_event) = ''https://other/u''" by code_simp
  then show ?thesis using rqs sent ev
    by (auto simp: toy_release_def toy_runner_def uploads_def sent_def toy_event_def list_all2_Cons1)
qed

text \<open>
  The upload URL of the event is not among what is checked: an event that passes does so with any other upload
  URL, to which the files and the token are then sent.
\<close>

theorem upload_url_unchecked:
  assumes "load rr c w = (Inr c1, w1)"
  shows "\<exists>w2. load (rr\<lparr>rr_Unmarshal := \<lambda>b. map_sum (\<lambda>e. e) (\<lambda>ev. ev\<lparr>rl_UploadURL := url\<rparr>) (rr_Unmarshal rr b)\<rparr>) c w
    = (Inr (c1\<lparr>rc_event := (rc_event c1)\<lparr>rl_UploadURL := url\<rparr>\<rparr>), w2)"
  using assms by (auto simp: load_def split: prod.splits sum.splits if_splits)

theorem upload_url_unchecked_witness:
  "\<exists>c w2. load (toy_release\<lparr>rr_Unmarshal := \<lambda>b. map_sum (\<lambda>e. e) (\<lambda>ev. ev\<lparr>rl_UploadURL := ''https://evil/''\<rparr>) (rr_Unmarshal toy_release b)\<rparr>)
      \<lparr>rc_epath = ''event'', rc_token = ''secret'', rc_baseurl = ''https://api.github.com/'', rc_event = toy_event\<rparr> toy_runner = (Inr c, w2)"
proof -
  let ?c = "\<lparr>rc_epath = ''event'', rc_token = ''secret'', rc_baseurl = ''https://api.github.com/'', rc_event = toy_event\<rparr>"
  have "load toy_release ?c toy_runner = (Inr ?c, snd (load toy_release ?c toy_runner))"
    by (simp add: load_def os_ReadFile_def file_op_def toy_runner_def toy_release_def toy_event_def)
  from upload_url_unchecked [OF this] show ?thesis by blast
qed

end
