(* ===== verification/Spec2Isabelle.thy ===== *)
theory Spec2Isabelle
  imports Sync_Properties Sync_Refinement Server_Properties Server_Command Concurrent_Requests
    Concurrent_Accounts Note_Edits Note_Editor Example_Client Client_Server_Properties Tools Release
begin

text \<open>
  \<^bold>\<open>Standard File: server, client library, client and tools\<close>

  The repository is a server for end-to-end encrypted notes, the client library \<^verbatim>\<open>pkg/libsf\<close>, a command line
  client over it, and the tools around the server's database. A client derives its keys from a password, seals
  its notes into items and synchronises the items with the server; the server authenticates requests, keeps
  users, sessions, items and PKCE challenges in a storm database, and tells its clients what they have not seen.
  This development translates the code of all of them, function by function, and proves what makes them
  correct, alone and together. Go names are kept; a suffix or a prefix marks those that clash with HOL's.

  \<^bold>\<open>How the code is read\<close>

  \<^item> A Go string or byte slice is a list of bytes, an integer an \<open>int\<close> whose 64-bit wrap-around is
    written out where it matters (\<open>wrap64\<close> of Prelude, the nanosecond counts of \<^verbatim>\<open>Go_Std\<close>), a pointer to a
    time an optional instant in nanoseconds.
  \<^item> What may panic is an \<open>outcome\<close> (\<open>Ok\<close>, \<open>Err\<close>, \<open>Panic\<close>), an error result a sum or an optional error
    (Prelude, and the errors of \<^verbatim>\<open>internal/sferror\<close> in World). Nil dereferences, slice bounds and failed
    type assertions are panics.
  \<^item> State is passed explicitly: a \<open>world\<close> has the database or the outside of the client, and streams for the
    clock, the UUIDs and the random sources, each with a counter of the readings made. Nothing is assumed
    about the streams, nor about failures: every storage, file or network operation may fail at any time.
  \<^item> Loops over slices are recursions on lists. Histories of requests and of events are inductive predicates;
    properties over them are proved by rule induction.

  \<^bold>\<open>The theories and the code\<close>

  \<^item> Prelude, \<^verbatim>\<open>Go_Std\<close>, World: shared vocabulary; \<^verbatim>\<open>strconv\<close>, \<^verbatim>\<open>strings\<close>, \<^verbatim>\<open>encoding/hex\<close>,
    \<^verbatim>\<open>encoding/base64\<close> and \<^verbatim>\<open>time\<close> as far as they are used, with the round trips of the encoders.
  \<^item> \<^verbatim>\<open>Libsf_Token\<close>: \<^verbatim>\<open>pkg/libsf/token.go\<close> and \<^verbatim>\<open>version.go\<close>.
  \<^item> Model: the records of \<^verbatim>\<open>internal/model\<close>.
  \<^item> Storm, \<^verbatim>\<open>Storm_Memory\<close>, Database: the storage library as operations with a contract (locales \<open>bucket\<close> and
    \<open>store\<close>), an in-memory engine that implements the contract, and \<^verbatim>\<open>internal/database/storm.go\<close> over it.
  \<^item> \<^verbatim>\<open>Session_Manager\<close>: \<^verbatim>\<open>internal/server/session\<close>. Locale \<open>session_validation\<close>.
  \<^item> Service: \<^verbatim>\<open>internal/server/service/service.go\<close> and \<^verbatim>\<open>internal/server/serializer\<close>.
  \<^item> \<^verbatim>\<open>Sync_Base\<close>, \<^verbatim>\<open>Sync_20161215\<close>, \<^verbatim>\<open>Sync_20190520\<close>, Sync: \<^verbatim>\<open>sync.go\<close>, \<^verbatim>\<open>sync_20161215.go\<close> and
    \<^verbatim>\<open>sync_20190520.go\<close> of \<^verbatim>\<open>internal/server/service\<close>. Both versions and the dispatch over them interpret
    the locale \<open>sync_service\<close> of \<^verbatim>\<open>Sync_Contract\<close>, where what the contract gives is proved once.
  \<^item> \<^verbatim>\<open>User_Service\<close>: \<^verbatim>\<open>user.go\<close>, \<^verbatim>\<open>user_20161215.go\<close>, \<^verbatim>\<open>user_20200115.go\<close>. Pkce: \<^verbatim>\<open>pkce.go\<close>, with the
    locale \<open>challenge_service\<close>.
  \<^item> Middlewares, Handlers, Server: \<^verbatim>\<open>internal/server/middlewares\<close>, the handlers of auth, sessions and
    items, the subscription handlers, the routes and the serving of a request (\<^verbatim>\<open>server.go\<close>).
  \<^item> \<^verbatim>\<open>Interleaving\<close>, \<^verbatim>\<open>Concurrent_Requests\<close>, \<^verbatim>\<open>Concurrent_Accounts\<close>: requests that run at the same time, as
    tasks of atomic storage operations, with \<^verbatim>\<open>pkce.go\<close>, the saving loop of \<^verbatim>\<open>sync_20190520.go\<close> and the
    registration, update and password change of \<^verbatim>\<open>user.go\<close> cut at their storage operations. Locale \<open>promises\<close>.
  \<^item> \<^verbatim>\<open>Server_Command\<close>: \<^verbatim>\<open>cmd/standardfile/main.go\<close>, from the configuration to the running engine.
  \<^item> \<^verbatim>\<open>Libsf_Crypto\<close>, \<^verbatim>\<open>Libsf_Vault\<close>, \<^verbatim>\<open>Libsf_Item\<close>: \<^verbatim>\<open>authentication.go\<close>, \<^verbatim>\<open>keychain.go\<close>, \<^verbatim>\<open>crypto.go\<close>,
    \<^verbatim>\<open>vault.go\<close>, \<^verbatim>\<open>vault3.go\<close>, \<^verbatim>\<open>vault4.go\<close> and \<^verbatim>\<open>item.go\<close> of \<^verbatim>\<open>pkg/libsf\<close>. Go's interface
    \<^verbatim>\<open>vault\<close> is the locale \<open>secret_format\<close>.
  \<^item> \<^verbatim>\<open>Libsf_Client\<close>: \<^verbatim>\<open>client.go\<close>, \<^verbatim>\<open>session.go\<close>, \<^verbatim>\<open>error.go\<close> of \<^verbatim>\<open>pkg/libsf\<close>.
  \<^item> \<^verbatim>\<open>Client_Files\<close>, \<^verbatim>\<open>Client_Config\<close>, \<^verbatim>\<open>Client_Commands\<close>: the files the client works on and the commands of
    \<^verbatim>\<open>internal/client\<close> (login, logout, backup, unseal).
  \<^item> \<^verbatim>\<open>Client_Notes\<close>, \<^verbatim>\<open>Client_Tui\<close>, \<^verbatim>\<open>Client_Log\<close>, \<^verbatim>\<open>Note_Editor\<close>, \<^verbatim>\<open>Note_Command\<close>, \<^verbatim>\<open>Note_Edits\<close>:
    \<^verbatim>\<open>pkg/libsf/note.go\<close>, \<^verbatim>\<open>internal/client/tui\<close> and \<^verbatim>\<open>internal/client/note.go\<close>, the editors with their delayed
    callbacks while the interface runs, and the command line \<^verbatim>\<open>cmd/sfc/main.go\<close>.
  \<^item> Stormsql, Tools: \<^verbatim>\<open>pkg/stormsql\<close>, \<^verbatim>\<open>tools/console\<close> and \<^verbatim>\<open>tools/rmuser\<close>.
  \<^item> \<^verbatim>\<open>Example_Client\<close>: the example program \<^verbatim>\<open>.examples/libsf/main.go\<close>.
  \<^item> Release: the script \<^verbatim>\<open>.github/workflows/release.go\<close>.
  \<^item> \<^verbatim>\<open>End_To_End\<close>: the fields of an item on the wire, and client and server together.

  \<^bold>\<open>What is proved\<close>

  \<^item> Synchronisation (\<^verbatim>\<open>Sync_Properties\<close>, \<^verbatim>\<open>Sync_Refinement\<close>): over any history of requests of any users, users only
    write items under their own name and only those they push; what a reply holds, its limits and its hash;
    that the sync token of a reply skips what was saved and that no update is lost within the interval of
    version 20190520. Its loop refines one table of items by ID for all users, in which a requester's own item is
    only replaced when it compares equal; an item of another user is replaced without a comparison. And what
    does not hold: a pushed ID takes over an item of another user, a cursor does not lead to the older pages, and the comparison
    of version 20190520 does not protect requests that run at the same time from each other.
  \<^item> Accounts (\<^verbatim>\<open>User_Service\<close>, \<^verbatim>\<open>Session_Manager\<close>, Pkce, \<^verbatim>\<open>Handler_Properties\<close>): a login presents the password of a
    stored user and, with PKCE, a pending challenge, which it consumes, whatever the interleaving of requests;
    tokens are only accepted while their session is stored and unexpired; renewal and password changes revoke the
    former tokens, unless an update of the account runs at the same time, which can restore the old password. No
    two users share an email, however the storage operations of the requests about accounts interleave, as the
    unique index of the storage refuses the second.
  \<^item> The server as a whole (\<^verbatim>\<open>Server_Invariant\<close>, \<^verbatim>\<open>Server_Properties\<close>, \<^verbatim>\<open>Server_Command\<close>): every request keeps the
    invariant of the accounts, only synchronisations write items, for the user whom the credential in the request's
    own header authenticates (\<open>by_session\<close>, \<open>by_jwt\<close>), and the command only starts a server with the
    configured keys. Each handler is proved to keep the invariant through the locales \<open>request_invariant\<close> and \<open>registering_invariant\<close>; the serving of requests follows for every route.
  \<^item> The client (\<^verbatim>\<open>Libsf_Properties\<close>, \<^verbatim>\<open>Client_Properties\<close>, \<^verbatim>\<open>Note_Properties\<close>): a sealed note is read back in both
    formats, credentials are loaded as saved, an edited note is sent as edited; every state of the
    text interface is well formed (\<open>tui_reachable\<close>), and its walks end.
  \<^item> Together (\<^verbatim>\<open>End_To_End\<close>, \<^verbatim>\<open>Client_Server\<close>, \<^verbatim>\<open>Client_Server_Properties\<close>): the network of a client is the
    server, up to lost requests and answers; a call of \<open>SyncItems\<close> is then at most one execution of the
    synchronisation service, and a note one client seals and sends is read back by another, as long as no
    synchronisation in between pushes its ID (or an item without an ID).
  \<^item> The tools (Tools, Release): a WHERE condition with literals of the columns' types and without \<^verbatim>\<open>LIKE\<close> is
    translated to a query with its SQL meaning, \<^verbatim>\<open>LIKE\<close> to a regular expression that means something else; the removal of
    a user removes the account and its items, and a release publishes what was built.

  Each property stands with a concrete run, in which the definitions are evaluated, that meets its hypotheses.

  \<^bold>\<open>Bounds\<close>

  Every function is total. Two loops may not end: the list widget's walk (\<open>walk\<close> in \<^verbatim>\<open>Note_Properties\<close>) and the
  one that moves the cursor into view (\<open>follow_down\<close> in \<^verbatim>\<open>Note_Editor\<close>). They are partial functions into option; the
  first ends in every reachable state, the second with a widget that scrolls as it says. No fuel is used. Instants
  outside the range of 64-bit nanosecond counts are kept apart by hypotheses where a token encodes them.

  \<^bold>\<open>Parameters\<close>

  Code outside the repository is a parameter: the storage engine, the web framework's binding, routing
  and token middlewares, PASETO, JWT, the hashing of passwords and SHA-256, AES blocks, HMAC, padding and the AEAD, Argon2 and
  PBKDF2, JSON codecs and fastjson values, HTTP, the SQL parser, the configuration library, HKDF, sorting.
  What a proof needs of one is a named hypothesis, a law the library documents: the contracts of the locales
  \<open>bucket\<close>, \<open>store\<close> and those of the ciphers and codecs. \<^verbatim>\<open>Storm_Memory\<close> and the simple primitives of the
  property theories are functions that meet them.

  \<^bold>\<open>Not modelled\<close>

  The drawing of the text interface and the routing of its events to the widgets belong to the widget library.
  The interface \<^verbatim>\<open>internal/database/database.go\<close> has no code. The items of a request are present ones: a
  JSON \<^verbatim>\<open>null\<close> among them, on which the synchronisation panics, is not a value of \<open>sync_params\<close>.
  The adapters \<^verbatim>\<open>pkg/stormbinc\<close>, \<^verbatim>\<open>pkg/stormcbor\<close> and \<^verbatim>\<open>pkg/structs\<close> only call codec and reflection
  libraries. Of the web framework the middlewares for CORS, compression, logging and recovery, and the rewriting of
  \<^verbatim>\<open>/\<close> to \<^verbatim>\<open>/version\<close>, are left out, as are the flags and help texts of the commands. Histories of
  requests take each request as a whole, except in \<^verbatim>\<open>Concurrent_Requests\<close> and
  \<^verbatim>\<open>Concurrent_Accounts\<close>; there the single operations of the storage engine, which are transactions, interleave.
\<close>

end
